(* ===== verification/Prelude.thy ===== *)
theory Prelude
  imports Main "HOL-Library.Word" "HOL-Library.Multiset" "HOL-Library.Finite_Map"
    "HOL-Library.List_Lexorder" "HOL-Library.Char_ord" "HOL-Library.Sublist"
begin

text \<open>
  The shared base of the development: the Go types and standard-library helpers every component
  uses (64-bit integers, byte strings, \<open>strings.HasPrefix\<close>, \<open>strings.TrimPrefix\<close>,
  \<open>strings.Cut\<close>, \<open>slices.Sort\<close>, \<open>slices.Compact\<close>, counting maps), the result type
  that carries a Go \<open>(value, error)\<close> return, and the lemmas the component theories share.

  A Go \<open>string\<close> is a list of bytes, as HOL's \<open>string\<close> is; \<open>slices.Sort\<close> on strings is
  the bytewise lexicographic order, which is the order of \<open>List_Lexorder\<close> over \<open>Char_ord\<close>.
  A Go map is a finite map; a loop over one is modelled by what it computes whatever the
  iteration order.
\<close>

section \<open>Types\<close>

type_synonym u64 = "64 word"
type_synonym u32 = "32 word"
type_synonym bytes = "char list"

text \<open>A Go return of a value and an error: \<open>Inl\<close> is the error.\<close>

type_synonym ('e, 'a) result = "'e + 'a"

named_theorems result_simps \<open>rewrite rules of the result type\<close>
named_theorems count_simps \<open>facts on counting maps\<close>

section \<open>Results\<close>

fun rbind :: "('e, 'a) result \<Rightarrow> ('a \<Rightarrow> ('e, 'b) result) \<Rightarrow> ('e, 'b) result" where
  "rbind (Inl e) f = Inl e"
| "rbind (Inr a) f = f a"

fun rmap_error :: "('e \<Rightarrow> 'f) \<Rightarrow> ('e, 'a) result \<Rightarrow> ('f, 'a) result" where
  "rmap_error g (Inl e) = Inl (g e)"
| "rmap_error g (Inr a) = Inr a"

fun is_ok :: "('e, 'a) result \<Rightarrow> bool" where
  "is_ok (Inl e) = False"
| "is_ok (Inr a) = True"

lemma rbind_Inr_iff [result_simps]:
  "rbind r f = Inr b \<longleftrightarrow> (\<exists>a. r = Inr a \<and> f a = Inr b)"
  by (cases r) auto

lemma rbind_Inl_iff [result_simps]:
  "rbind r f = Inl e \<longleftrightarrow> r = Inl e \<or> (\<exists>a. r = Inr a \<and> f a = Inl e)"
  by (cases r) auto

lemma rmap_error_Inr_iff [simp, result_simps]: "rmap_error g r = Inr a \<longleftrightarrow> r = Inr a"
  by (cases r) auto

lemma is_ok_iff: "is_ok r \<longleftrightarrow> (\<exists>a. r = Inr a)"
  by (cases r) auto

text \<open>A Go loop that converts a slice and returns at the first error.\<close>

fun each :: "('a \<Rightarrow> ('e, 'b) result) \<Rightarrow> 'a list \<Rightarrow> ('e, 'b list) result" where
  "each f [] = Inr []"
| "each f (x # xs) = rbind (f x) (\<lambda>y. rbind (each f xs) (\<lambda>ys. Inr (y # ys)))"

lemma each_iff:
  assumes "\<And>x y. f x = Inr y \<longleftrightarrow> ok x \<and> y = g x"
  shows "each f xs = Inr ys \<longleftrightarrow> (\<forall>x \<in> set xs. ok x) \<and> ys = map g xs"
  by (induction xs arbitrary: ys) (auto simp: result_simps assms)

section \<open>Strings\<close>

abbreviation NUL :: char where "NUL \<equiv> CHR 0x00"

definition HasPrefix :: "string \<Rightarrow> string \<Rightarrow> bool" where
  "HasPrefix s p = (take (length p) s = p)"

definition TrimPrefix :: "string \<Rightarrow> string \<Rightarrow> string" where
  "TrimPrefix s p = (if HasPrefix s p then drop (length p) s else s)"

text \<open>\<open>strings.Cut\<close> at a single byte: the parts around its first occurrence.\<close>

fun Cut :: "char \<Rightarrow> string \<Rightarrow> string \<times> string \<times> bool" where
  "Cut c [] = ([], [], False)"
| "Cut c (x # xs) =
     (if x = c then ([], xs, True)
      else case Cut c xs of (a, b, ok) \<Rightarrow> if ok then (x # a, b, True) else (x # xs, [], False))"

lemma HasPrefix_iff: "HasPrefix s p \<longleftrightarrow> (\<exists>r. s = p @ r)"
proof
  assume "HasPrefix s p"
  then have "s = p @ drop (length p) s"
    using append_take_drop_id [of "length p" s] by (simp add: HasPrefix_def)
  then show "\<exists>r. s = p @ r" ..
qed (auto simp: HasPrefix_def)

lemma HasPrefix_append [simp]: "HasPrefix (p @ r) p"
  by (simp add: HasPrefix_def)

lemma TrimPrefix_append [simp]: "TrimPrefix (p @ r) p = r"
  by (simp add: TrimPrefix_def)

lemma Cut_append: "c \<notin> set a \<Longrightarrow> Cut c (a @ c # b) = (a, b, True)"
  by (induction a) auto

lemma Cut_SomeD: "Cut c s = (a, b, True) \<Longrightarrow> s = a @ c # b \<and> c \<notin> set a"
proof (induction s arbitrary: a)
  case (Cons x xs)
  show ?case
  proof (cases "x = c")
    case False
    with Cons.prems obtain a' where "Cut c xs = (a', b, True)" "a = x # a'"
      by (auto split: prod.splits if_splits)
    with Cons.IH [of a'] False show ?thesis by simp
  qed (use Cons.prems in simp)
qed simp

lemma Cut_ok_iff: "(\<exists>a b. Cut c s = (a, b, True)) \<longleftrightarrow> c \<in> set s"
proof
  assume "c \<in> set s"
  then obtain a b where "s = a @ c # b" "c \<notin> set a" using split_list_first by fast
  then show "\<exists>a b. Cut c s = (a, b, True)" by (simp add: Cut_append)
qed (auto dest: Cut_SomeD)

text \<open>Two strings joined at a byte that does not occur in the first parts split uniquely.\<close>

lemma join_inject:
  fixes c :: char
  assumes "c \<notin> set a" "c \<notin> set a'" "a @ c # b = a' @ c # b'"
  shows "a = a' \<and> b = b'"
proof -
  have "(a, b, True) = Cut c (a @ c # b)" by (simp add: Cut_append assms(1))
  also have "\<dots> = (a', b', True)" by (simp only: assms(3) Cut_append [OF assms(2)])
  finally show ?thesis by simp
qed

section \<open>Slices\<close>

text \<open>\<open>slices.Compact\<close>: runs of equal elements become one.\<close>

fun Compact :: "'a list \<Rightarrow> 'a list" where
  "Compact (x # y # zs) = (if x = y then Compact (y # zs) else x # Compact (y # zs))"
| "Compact xs = xs"

lemma set_Compact [simp]: "set (Compact xs) = set xs"
  by (induction xs rule: Compact.induct) auto

lemma Compact_strict:
  fixes xs :: "'a :: linorder list"
  shows "sorted xs \<Longrightarrow> sorted (Compact xs) \<and> distinct (Compact xs)"
proof (induction xs rule: Compact.induct)
  case (1 x y zs)
  then have IH: "sorted (Compact (y # zs))" "distinct (Compact (y # zs))"
    by (cases "x = y"; simp)+
  show ?case
  proof (cases "x = y")
    case False
    with 1 have "\<forall>z \<in> set (y # zs). x < z" by (auto simp: less_le) 
    with False IH show ?thesis by (auto simp: less_le)
  qed (use IH in simp)
qed simp_all

lemma sorted_distinct_Compact_sort:
  fixes xs :: "'a :: linorder list"
  shows "Compact (sort xs) = sorted_list_of_set (set xs)"
  using Compact_strict [of "sort xs"]
  by (metis sorted_list_of_set.idem_if_sorted_distinct set_Compact set_sort sorted_sort)

lemma subset_imageE_list:
  assumes "set ys \<subseteq> f ` A"
  obtains xs where "ys = map f xs" "set xs \<subseteq> A"
proof -
  from assms have "\<exists>xs. ys = map f xs \<and> set xs \<subseteq> A"
  proof (induction ys)
    case (Cons y ys)
    then obtain xs x where "ys = map f xs" "set xs \<subseteq> A" "y = f x" "x \<in> A" by auto
    then show ?case by (intro exI [of _ "x # xs"]) simp
  qed simp
  with that show thesis by blast
qed

section \<open>Counting maps\<close>

text \<open>
  A Go \<open>map[string]int\<close> used as a multiset: an absent key reads as 0.
\<close>

type_synonym 'a counter = "'a \<Rightarrow> int"

definition counts :: "'a list \<Rightarrow> 'a counter" where
  "counts hashes = foldl (\<lambda>m h. m(h := m h + 1)) (\<lambda>_. 0) hashes"

lemma foldl_counts:
  "foldl (\<lambda>m h. m(h := m h + 1)) m hs = (\<lambda>x. m x + int (count (mset hs) x))"
  by (induction hs arbitrary: m) (auto simp: fun_eq_iff)

lemma counts_eq [count_simps]: "counts hs = (\<lambda>x. int (count (mset hs) x))"
  by (simp add: counts_def foldl_counts)

text \<open>
  The loop \<open>for h in hs: if left[h] == 0 fail; left[h]--\<close>, which takes a multiset out of a
  counter, or fails where the counter holds too few.
\<close>

fun consume :: "'a counter \<Rightarrow> 'a list \<Rightarrow> 'a counter option" where
  "consume left [] = Some left"
| "consume left (h # hs) =
     (if left h = 0 then None else consume (left(h := left h - 1)) hs)"

lemma consume_count:
  "consume (\<lambda>x. int (count M x)) hs =
     (if mset hs \<subseteq># M then Some (\<lambda>x. int (count (M - mset hs) x)) else None)"
proof (induction hs arbitrary: M)
  case (Cons h hs)
  show ?case
  proof (cases "h \<in># M")
    case True
    then have upd: "(\<lambda>x. int (count M x))(h := int (count M h) - 1) =
        (\<lambda>x. int (count (M - {#h#}) x))"
      by (auto simp: fun_eq_iff)
    have "mset (h # hs) \<subseteq># M \<longleftrightarrow> mset hs \<subseteq># M - {#h#}"
      using True by (simp add: insert_subset_eq_iff)
    with True Cons.IH [of "M - {#h#}"] show ?thesis
      by (simp add: upd count_eq_zero_iff)
  next
    case False
    then show ?thesis by (auto simp: count_eq_zero_iff dest: mset_subset_eqD)
  qed
qed simp

text \<open>
  The loop \<open>for h in hs: if left[h] > 0 then keep h; left[h]--\<close>: the occurrences of \<open>hs\<close>
  that a counter still asks for, in order, and what is left of the counter; generalised over a
  projection \<open>f\<close> of the elements.
\<close>

fun claim :: "('b \<Rightarrow> 'a) \<Rightarrow> 'a counter \<Rightarrow> 'b list \<Rightarrow> 'b list \<times> 'b list \<times> 'a counter" where
  "claim f left [] = ([], [], left)"
| "claim f left (p # ps) =
     (if left (f p) > 0
      then (case claim f (left(f p := left (f p) - 1)) ps of (k, d, l) \<Rightarrow> (p # k, d, l))
      else (case claim f left ps of (k, d, l) \<Rightarrow> (k, p # d, l)))"

lemma claim_count:
  assumes "claim f (\<lambda>x. int (count M x)) ps = (k, d, l)"
  shows "mset (map f k) = M \<inter># mset (map f ps) \<and> mset k + mset d = mset ps \<and>
         l = (\<lambda>x. int (count (M - mset (map f ps)) x))"
  using assms
proof (induction ps arbitrary: M k d l)
  case (Cons p ps)
  show ?case
  proof (cases "f p \<in># M")
    case True
    then have upd: "(\<lambda>x. int (count M x))(f p := int (count M (f p)) - 1) =
        (\<lambda>x. int (count (M - {#f p#}) x))"
      by (auto simp: fun_eq_iff)
    obtain k' where c: "claim f (\<lambda>x. int (count (M - {#f p#}) x)) ps = (k', d, l)" "k = p # k'"
      using Cons.prems True by (auto simp: upd split: prod.splits)
    have "add_mset (f p) ((M - {#f p#}) \<inter># mset (map f ps)) = M \<inter># add_mset (f p) (mset (map f ps))"
      using True by (simp add: inter_add_right2)
    with Cons.IH [OF c(1)] c(2) True show ?thesis by simp
  next
    case False
    then obtain d' where c: "claim f (\<lambda>x. int (count M x)) ps = (k, d', l)" "d = p # d'"
      using Cons.prems by (auto simp: count_eq_zero_iff split: prod.splits)
    have "M \<inter># add_mset (f p) (mset (map f ps)) = M \<inter># mset (map f ps)"
      using False by (auto simp: multiset_eq_iff min_def not_in_iff)
    moreover have "M - add_mset (f p) (mset (map f ps)) = M - mset (map f ps)"
      using False by (auto simp: multiset_eq_iff not_in_iff)
    ultimately show ?thesis using Cons.IH [OF c(1)] c(2) by simp
  qed
qed simp

lemma claim_mset: "claim f l0 ps = (k, d, l) \<Longrightarrow> mset k + mset d = mset ps"
  by (induction ps arbitrary: l0 k d l) (auto split: if_splits prod.splits)

lemma claim_sets:
  assumes "claim f l0 ps = (k, d, l)"
  shows "set k \<union> set d = set ps"
  using arg_cong [OF claim_mset [OF assms], of set_mset] by simp

section \<open>Finite maps\<close>

text \<open>A Go map read gives the zero value of an absent key; \<open>fmkeys\<close> is
  \<open>slices.Sorted(maps.Keys(m))\<close>.\<close>

definition fmget :: "'v \<Rightarrow> ('k, 'v) fmap \<Rightarrow> 'k \<Rightarrow> 'v" where
  "fmget d m k = (case fmlookup m k of None \<Rightarrow> d | Some v \<Rightarrow> v)"

definition fmkeys :: "('k :: linorder, 'v) fmap \<Rightarrow> 'k list" where
  "fmkeys m = sorted_list_of_fset (fmdom m)"

lemma fmget_fmupd [simp]: "fmget d (fmupd k v m) k' = (if k' = k then v else fmget d m k')"
  by (simp add: fmget_def)

lemma fmget_fmdrop [simp]: "fmget d (fmdrop k m) k' = (if k' = k then d else fmget d m k')"
  by (simp add: fmget_def)

lemma fmget_fmfilter [simp]: "fmget d (fmfilter P m) k = (if P k then fmget d m k else d)"
  by (simp add: fmget_def)

lemma fmget_empty [simp]: "fmget d fmempty k = d"
  by (simp add: fmget_def)

lemma set_fmkeys [simp]: "set (fmkeys m) = fset (fmdom m)"
  by (simp add: fmkeys_def)

lemma fmkeys_sorted [simp]: "sorted (fmkeys m)" "distinct (fmkeys m)"
  by (simp_all add: fmkeys_def sorted_list_of_fset.rep_eq)

lemma fmlookup_SomeD [dest?]: "fmlookup m k = Some v \<Longrightarrow> k |\<in>| fmdom m"
  by (rule fmdomI)

section \<open>Effects\<close>

text \<open>
  A Go function that talks to the outside: it threads a state \<open>'s\<close> and returns \<open>(value, error)\<close>.
  The state carries everything the function can change, and the answers of the outside world.
\<close>

type_synonym ('s, 'e, 'a) io = "'s \<Rightarrow> ('e, 'a) result \<times> 's"

definition io_return :: "'a \<Rightarrow> ('s, 'e, 'a) io" where
  "io_return a s = (Inr a, s)"

definition io_fail :: "'e \<Rightarrow> ('s, 'e, 'a) io" where
  "io_fail e s = (Inl e, s)"

definition io_bind :: "('s, 'e, 'a) io \<Rightarrow> ('a \<Rightarrow> ('s, 'e, 'b) io) \<Rightarrow> ('s, 'e, 'b) io" where
  "io_bind m k s = (case m s of (Inl e, s') \<Rightarrow> (Inl e, s') | (Inr a, s') \<Rightarrow> k a s')"

definition io_lift :: "('e, 'a) result \<Rightarrow> ('s, 'e, 'a) io" where
  "io_lift r s = (r, s)"

text \<open>Run \<open>m\<close> and hand its result or error to \<open>k\<close>.\<close>

definition io_try :: "('s, 'e, 'a) io \<Rightarrow> (('e, 'a) result \<Rightarrow> ('s, 'e, 'b) io) \<Rightarrow> ('s, 'e, 'b) io" where
  "io_try m k s = (case m s of (r, s') \<Rightarrow> k r s')"

lemma io_simps [simp]:
  "io_return a s = (Inr a, s)" "io_fail e s = (Inl e, s)" "io_lift r s = (r, s)"
  by (simp_all add: io_return_def io_fail_def io_lift_def)

lemma io_bind_Inr:
  "io_bind m k s = (Inr b, s') \<longleftrightarrow> (\<exists>a s1. m s = (Inr a, s1) \<and> k a s1 = (Inr b, s'))"
  by (auto simp: io_bind_def split: prod.splits sum.splits)

lemma io_bind_cases:
  assumes "io_bind m k s = (r, s')"
  obtains (fail) e where "m s = (Inl e, s')" "r = Inl e"
  | (ok) a s1 where "m s = (Inr a, s1)" "k a s1 = (r, s')"
  using assms by (auto simp: io_bind_def split: prod.splits sum.splits)

lemma io_try_iff: "io_try m k s = (res', s') \<longleftrightarrow> (\<exists>res s1. m s = (res, s1) \<and> k res s1 = (res', s'))"
  by (auto simp: io_try_def split: prod.splits)

text \<open>A step that keeps \<open>P\<close> of the state, whatever its result.\<close>

definition io_keeps :: "('s \<Rightarrow> bool) \<Rightarrow> ('s, 'e, 'a) io \<Rightarrow> bool" where
  "io_keeps P m \<longleftrightarrow> (\<forall>s. P s \<longrightarrow> P (snd (m s)))"

lemma io_keepsD: "io_keeps P m \<Longrightarrow> P s \<Longrightarrow> m s = (r, s') \<Longrightarrow> P s'"
  by (force simp: io_keeps_def)

lemma io_keeps_return [simp, intro]: "io_keeps P (io_return a)" "io_keeps P (io_fail e)" "io_keeps P (io_lift r)"
  by (simp_all add: io_keeps_def)

lemma io_keeps_bind [intro]:
  "io_keeps P m \<Longrightarrow> (\<And>a. io_keeps P (k a)) \<Longrightarrow> io_keeps P (io_bind m k)"
  by (auto simp: io_keeps_def io_bind_def split: prod.splits sum.splits)

lemma io_keeps_try [intro]:
  "io_keeps P m \<Longrightarrow> (\<And>r. io_keeps P (k r)) \<Longrightarrow> io_keeps P (io_try m k)"
  by (auto simp: io_keeps_def io_try_def split: prod.splits)

end
