(* ===== verification/LtHash.thy ===== *)
theory LtHash
  imports Prelude
begin

text \<open>
  LtHash accumulators as the repository handles them. The accumulator library itself
  (\<open>housegate/pkg/lthash\<close>) is not part of the repository: it is a parameter \<open>L\<close> of every
  definition below, over an abelian group \<open>'h\<close> (\<open>lthash.New\<close> is 0, \<open>AddHash\<close> and
  \<open>SubHash\<close> are addition and subtraction, \<open>Equal\<close> is equality), with its byte encoding
  \<open>Bytes\<close> and decoding \<open>FromBytes\<close>. The locale \<open>lthash\<close> states what the code relies on:
  the encoding is a bijection onto the byte strings that \<open>FromBytes\<close> accepts, and it is never
  empty. The locale is interpreted on 16-bit lanes, for every number of lanes (the deployed
  accumulators have 1024, hence 2048 bytes).

  From the source: \<open>parseAccumulatorHex\<close> and \<open>accumulatorHex\<close> (\<open>snode/state.go\<close>),
  \<open>lthashCombineHex\<close> and \<open>lthashCombineHexAll\<close> (\<open>snode/view.go\<close>). Go's
  \<open>encoding/hex\<close> is modelled byte by byte.
\<close>

section \<open>encoding/hex\<close>

definition hexdigit :: "nat \<Rightarrow> char" where
  "hexdigit n = ''0123456789abcdef'' ! n"

fun hex_EncodeToString :: "bytes \<Rightarrow> string" where
  "hex_EncodeToString [] = []"
| "hex_EncodeToString (b # bs) =
     hexdigit (of_char b div 16) # hexdigit (of_char b mod 16) # hex_EncodeToString bs"

definition hexval :: "char \<Rightarrow> nat option" where
  "hexval c =
     (let n = of_char c :: nat in
      if 48 \<le> n \<and> n \<le> 57 then Some (n - 48)
      else if 97 \<le> n \<and> n \<le> 102 then Some (n - 87)
      else if 65 \<le> n \<and> n \<le> 70 then Some (n - 55)
      else None)"

fun hex_DecodeString :: "string \<Rightarrow> bytes option" where
  "hex_DecodeString [] = Some []"
| "hex_DecodeString [x] = None"
| "hex_DecodeString (x # y # r) =
     (case (hexval x, hexval y) of
        (Some a, Some b) \<Rightarrow> map_option ((#) (char_of (16 * a + b))) (hex_DecodeString r)
      | _ \<Rightarrow> None)"

lemma hexval_hexdigit: "n < 16 \<Longrightarrow> hexval (hexdigit n) = Some n"
proof -
  assume "n < 16"
  then have "n \<in> set [0..<16]" by simp
  moreover have "\<forall>m \<in> set [0..<16]. hexval (hexdigit m) = Some m"
    by (simp add: hexval_def hexdigit_def upt_rec numeral_eq_Suc)
  ultimately show ?thesis by blast
qed

lemma of_char_less: "of_char (c :: char) < (256 :: nat)"
  using of_char_mod_256 [of c] by (metis mod_less_divisor zero_less_numeral)

lemma hex_roundtrip [simp]: "hex_DecodeString (hex_EncodeToString bs) = Some bs"
proof (induction bs)
  case (Cons b bs)
  have "of_char b div 16 < (16 :: nat)"
    using of_char_less [of b] by (simp add: less_mult_imp_div_less)
  with Cons show ?case by (simp add: hexval_hexdigit)
qed simp

lemma hex_Encode_Nil_iff [simp]: "hex_EncodeToString bs = [] \<longleftrightarrow> bs = []"
  by (cases bs) auto

section \<open>The accumulator library\<close>

record 'h lthash_lib =
  lt_FromBytes :: "bytes \<Rightarrow> 'h option"
  lt_Bytes :: "'h \<Rightarrow> bytes"

datatype lt_error = ErrAccumulatorHex | ErrAccumulatorBytes

definition parseAccumulatorHex ::
    "'h :: ab_group_add lthash_lib \<Rightarrow> string \<Rightarrow> (lt_error, 'h) result" where
  "parseAccumulatorHex L s =
     (if s = [] then Inr 0
      else case hex_DecodeString (TrimPrefix s ''0x'') of
             None \<Rightarrow> Inl ErrAccumulatorHex
           | Some b \<Rightarrow> (case lt_FromBytes L b of None \<Rightarrow> Inl ErrAccumulatorBytes | Some h \<Rightarrow> Inr h))"

definition accumulatorHex :: "'h lthash_lib \<Rightarrow> 'h \<Rightarrow> string" where
  "accumulatorHex L h = ''0x'' @ hex_EncodeToString (lt_Bytes L h)"

fun addHashes :: "'h :: ab_group_add lthash_lib \<Rightarrow> 'h \<Rightarrow> string list \<Rightarrow> (lt_error, 'h) result" where
  "addHashes L acc [] = Inr acc"
| "addHashes L acc (s # ss) =
     rbind (parseAccumulatorHex L s) (\<lambda>h. addHashes L (acc + h) ss)"

fun subHashes :: "'h :: ab_group_add lthash_lib \<Rightarrow> 'h \<Rightarrow> string list \<Rightarrow> (lt_error, 'h) result" where
  "subHashes L acc [] = Inr acc"
| "subHashes L acc (s # ss) =
     rbind (parseAccumulatorHex L s) (\<lambda>h. subHashes L (acc - h) ss)"

definition lthashCombineHex ::
    "'h :: ab_group_add lthash_lib \<Rightarrow> string \<Rightarrow> string \<Rightarrow> (lt_error, string) result" where
  "lthashCombineHex L a b =
     rbind (addHashes L 0 (filter (\<lambda>s. s \<noteq> []) [a, b])) (\<lambda>acc. Inr (accumulatorHex L acc))"

definition lthashCombineHexAll ::
    "'h :: ab_group_add lthash_lib \<Rightarrow> string \<Rightarrow> string list \<Rightarrow> (lt_error, string) result" where
  "lthashCombineHexAll L baseHex partHexes =
     rbind (parseAccumulatorHex L baseHex) (\<lambda>acc.
     rbind (addHashes L acc partHexes) (\<lambda>acc'. Inr (accumulatorHex L acc')))"

text \<open>What a hash string denotes, where it denotes anything.\<close>

definition denotes :: "'h :: ab_group_add lthash_lib \<Rightarrow> string \<Rightarrow> 'h" where
  "denotes L s = (case parseAccumulatorHex L s of Inr h \<Rightarrow> h | Inl e \<Rightarrow> 0)"

definition parses :: "'h :: ab_group_add lthash_lib \<Rightarrow> string \<Rightarrow> bool" where
  "parses L s = is_ok (parseAccumulatorHex L s)"

lemma parses_iff: "parses L s \<longleftrightarrow> parseAccumulatorHex L s = Inr (denotes L s)"
  by (cases "parseAccumulatorHex L s") (auto simp: parses_def denotes_def)

lemma parse_InrD: "parseAccumulatorHex L s = Inr h \<Longrightarrow> parses L s \<and> denotes L s = h"
  by (simp add: parses_def denotes_def)

lemma parse_empty [simp]: "parseAccumulatorHex L [] = Inr 0"
  by (simp add: parseAccumulatorHex_def)

lemma denotes_empty [simp]: "denotes L [] = 0" and parses_empty [simp]: "parses L []"
  by (simp_all add: denotes_def parses_def)

lemma addHashes_eq:
  "addHashes L acc ss = Inr h \<longleftrightarrow>
     (\<forall>s \<in> set ss. parses L s) \<and> h = acc + sum_list (map (denotes L) ss)"
proof (induction ss arbitrary: acc)
  case (Cons s ss)
  show ?case
  proof (cases "parseAccumulatorHex L s")
    case (Inr a)
    with parse_InrD [OF Inr] show ?thesis by (auto simp: Cons.IH add.assoc)
  qed (auto simp: parses_def)
qed auto

lemma subHashes_eq:
  "subHashes L acc ss = Inr h \<longleftrightarrow>
     (\<forall>s \<in> set ss. parses L s) \<and> h = acc - sum_list (map (denotes L) ss)"
proof (induction ss arbitrary: acc)
  case (Cons s ss)
  show ?case
  proof (cases "parseAccumulatorHex L s")
    case (Inr a)
    with parse_InrD [OF Inr] show ?thesis by (auto simp: Cons.IH algebra_simps)
  qed (auto simp: parses_def)
qed auto

lemma lthashCombineHexAll_eq:
  "lthashCombineHexAll L b ss = Inr r \<longleftrightarrow>
     parses L b \<and> (\<forall>s \<in> set ss. parses L s) \<and>
     r = accumulatorHex L (denotes L b + sum_list (map (denotes L) ss))"
proof (cases "parseAccumulatorHex L b")
  case (Inr a)
  with parse_InrD [OF Inr] show ?thesis
    by (auto simp: lthashCombineHexAll_def result_simps addHashes_eq)
qed (auto simp: lthashCombineHexAll_def parses_def)

locale lthash =
  fixes L :: "'h :: ab_group_add lthash_lib"
  assumes FromBytes_Bytes: "lt_FromBytes L (lt_Bytes L h) = Some h"
    and Bytes_FromBytes: "lt_FromBytes L b = Some h \<Longrightarrow> lt_Bytes L h = b"
    and Bytes_nonempty: "lt_Bytes L h \<noteq> []"
begin

lemma parse_accumulatorHex [simp]: "parseAccumulatorHex L (accumulatorHex L h) = Inr h"
proof -
  have "TrimPrefix (accumulatorHex L h) ''0x'' = hex_EncodeToString (lt_Bytes L h)"
    unfolding accumulatorHex_def by (rule TrimPrefix_append)
  moreover have "accumulatorHex L h \<noteq> []" by (simp add: accumulatorHex_def)
  ultimately show ?thesis by (simp add: parseAccumulatorHex_def FromBytes_Bytes)
qed

lemma denotes_accumulatorHex [simp]: "denotes L (accumulatorHex L h) = h"
  and parses_accumulatorHex [simp]: "parses L (accumulatorHex L h)"
  by (simp_all add: denotes_def parses_def)

lemma accumulatorHex_inject [simp]: "accumulatorHex L a = accumulatorHex L b \<longleftrightarrow> a = b"
  by (metis denotes_accumulatorHex)

lemma accumulatorHex_nonempty [simp]: "accumulatorHex L a \<noteq> []"
  by (simp add: accumulatorHex_def)

text \<open>Combining a base with parts denotes the group sum, and is a canonical spelling.\<close>

lemma combine_denotes:
  assumes "lthashCombineHexAll L b ss = Inr r"
  shows "denotes L r = denotes L b + sum_list (map (denotes L) ss)"
  using assms by (auto simp: lthashCombineHexAll_eq)

lemma combine_assoc:
  assumes "lthashCombineHexAll L b ss = Inr r" "lthashCombineHexAll L r ts = Inr r'"
  shows "lthashCombineHexAll L b (ss @ ts) = Inr r'"
  using assms by (auto simp: lthashCombineHexAll_eq add.assoc)

end

section \<open>Sixteen-bit lanes\<close>

text \<open>One lane: a 16-bit word, little-endian.\<close>

definition lane_Bytes :: "16 word \<Rightarrow> bytes" where
  "lane_Bytes w = [char_of (unat w mod 256), char_of (unat w div 256)]"

fun lane_FromBytes :: "bytes \<Rightarrow> 16 word option" where
  "lane_FromBytes [a, b] = Some (word_of_nat (of_char a + 256 * of_char b))"
| "lane_FromBytes _ = None"

definition lane_lib :: "16 word lthash_lib" where
  "lane_lib = \<lparr>lt_FromBytes = lane_FromBytes, lt_Bytes = lane_Bytes\<rparr>"

lemma lane_FromBytes_Bytes: "lane_FromBytes (lane_Bytes w) = Some w"
proof -
  have "unat w < 65536" using unsigned_less [of w] by simp
  then have "unat w div 256 mod 256 = unat w div 256" by simp
  then show ?thesis by (simp add: lane_Bytes_def)
qed

lemma lane_Bytes_FromBytes: "lane_FromBytes b = Some w \<Longrightarrow> lane_Bytes w = b"
proof (induction b rule: lane_FromBytes.induct)
  case (1 a b)
  have "of_char a + 256 * of_char b < (65536 :: nat)"
    using of_char_less [of a] of_char_less [of b] by linarith
  moreover have "w = word_of_nat (of_char a + 256 * of_char b)"
    using 1 by (simp only: lane_FromBytes.simps option.inject)
  ultimately have "unat w = of_char a + 256 * of_char b"
    by (simp only: unsigned_of_nat take_bit_eq_mod) simp
  with of_char_less [of a] show ?case by (simp add: lane_Bytes_def)
qed simp_all

interpretation lane: lthash lane_lib
  by unfold_locales
    (auto simp: lane_lib_def lane_FromBytes_Bytes lane_Bytes_FromBytes, simp add: lane_Bytes_def)

text \<open>Concrete accumulators of one lane, for the examples of the component theories.\<close>

lemmas lane_eval = parseAccumulatorHex_def accumulatorHex_def TrimPrefix_def HasPrefix_def
  hexval_def hexdigit_def char_of_def bit_0 lane_lib_def lane_Bytes_def

lemma lane_parse:
  "parseAccumulatorHex lane_lib ''0xAB00'' = Inr 171"
  "parseAccumulatorHex lane_lib ''0xab00'' = Inr 171"
  "parseAccumulatorHex lane_lib ''0x2000'' = Inr 32"
  "parseAccumulatorHex lane_lib ''0xcb00'' = Inr 203"
  "parseAccumulatorHex lane_lib ''0x0000'' = Inr 0"
  by (simp_all add: lane_eval)

lemma lane_hex:
  "accumulatorHex lane_lib 171 = ''0xab00''"
  "accumulatorHex lane_lib 32 = ''0x2000''"
  "accumulatorHex lane_lib 203 = ''0xcb00''"
  "accumulatorHex lane_lib 0 = ''0x0000''"
  by (simp_all add: lane_eval)

text \<open>Any number of lanes, added lane by lane.\<close>

typedef (overloaded) 'n lanes = "{xs :: 16 word list. length xs = LENGTH('n :: len)}"
  morphisms lane_list Lanes
  by (rule exI [of _ "replicate LENGTH('n) 0"]) simp

setup_lifting type_definition_lanes

instantiation lanes :: (len) ab_group_add
begin

lift_definition zero_lanes :: "'a lanes" is "replicate LENGTH('a) 0" by simp
lift_definition plus_lanes :: "'a lanes \<Rightarrow> 'a lanes \<Rightarrow> 'a lanes" is "map2 (+)" by simp
lift_definition minus_lanes :: "'a lanes \<Rightarrow> 'a lanes \<Rightarrow> 'a lanes" is "map2 (-)" by simp
lift_definition uminus_lanes :: "'a lanes \<Rightarrow> 'a lanes" is "map uminus" by simp

instance
  by standard (transfer, force intro: nth_equalityI)+

end

fun lanes_decode :: "bytes \<Rightarrow> 16 word list option" where
  "lanes_decode [] = Some []"
| "lanes_decode [x] = None"
| "lanes_decode (x # y # r) =
     (case (lane_FromBytes [x, y], lanes_decode r) of
        (Some w, Some ws) \<Rightarrow> Some (w # ws)
      | _ \<Rightarrow> None)"

definition lanes_Bytes :: "'n :: len lanes \<Rightarrow> bytes" where
  "lanes_Bytes v = concat (map lane_Bytes (lane_list v))"

definition lanes_FromBytes :: "bytes \<Rightarrow> 'n :: len lanes option" where
  "lanes_FromBytes b =
     (if length b = 2 * LENGTH('n) then map_option Lanes (lanes_decode b) else None)"

definition lanes_lib :: "'n :: len lanes lthash_lib" where
  "lanes_lib = \<lparr>lt_FromBytes = lanes_FromBytes, lt_Bytes = lanes_Bytes\<rparr>"

lemma lane_Bytes_length [simp]: "length (lane_Bytes w) = 2"
  by (simp add: lane_Bytes_def)

lemma lanes_decode_concat: "lanes_decode (concat (map lane_Bytes ws)) = Some ws"
proof (induction ws)
  case (Cons w ws)
  have "lane_Bytes w = [char_of (unat w mod 256), char_of (unat w div 256)]"
    by (simp add: lane_Bytes_def)
  with Cons lane_FromBytes_Bytes [of w] show ?case by simp
qed simp

lemma concat_lanes_decode:
  "lanes_decode b = Some ws \<Longrightarrow> concat (map lane_Bytes ws) = b \<and> 2 * length ws = length b"
proof (induction b arbitrary: ws rule: lanes_decode.induct)
  case (3 x y r)
  then obtain w ws' where "lane_FromBytes [x, y] = Some w" "lanes_decode r = Some ws'" "ws = w # ws'"
    by (auto split: option.splits)
  with 3 lane_Bytes_FromBytes [of "[x, y]" w] show ?case by simp
qed auto

lemma lane_list_length [simp]: "length (lane_list (v :: 'n :: len lanes)) = LENGTH('n)"
  using lane_list [of v] by simp

lemma lanes_Bytes_length: "length (lanes_Bytes (v :: 'n :: len lanes)) = 2 * LENGTH('n)"
  using concat_lanes_decode [OF lanes_decode_concat, of "lane_list v"]
  by (simp add: lanes_Bytes_def)

interpretation lanes: lthash "lanes_lib :: 'n :: len lanes lthash_lib"
proof unfold_locales
  fix h :: "'n lanes" and b
  show "lt_FromBytes lanes_lib (lt_Bytes lanes_lib h) = Some h"
    using lanes_Bytes_length [of h]
    by (simp add: lanes_lib_def lanes_FromBytes_def)
      (simp add: lanes_Bytes_def lanes_decode_concat lane_list_inverse)
  show "lt_Bytes lanes_lib h = b" if "lt_FromBytes lanes_lib b = Some h"
  proof -
    from that obtain ws where "length b = 2 * LENGTH('n)" "lanes_decode b = Some ws" "h = Lanes ws"
      by (auto simp: lanes_lib_def lanes_FromBytes_def split: if_splits)
    with concat_lanes_decode [of b ws] show ?thesis
      by (simp add: lanes_lib_def lanes_Bytes_def Lanes_inverse)
  qed
  show "lt_Bytes lanes_lib h \<noteq> []"
    using lanes_Bytes_length [of h] by (auto simp: lanes_lib_def)
qed

end
