(* ===== verification/Gate.thy ===== *)
theory Gate
  imports LtHash
begin

text \<open>
  The pure install gate of a stage-3 member (\<open>member/gate/gate.go\<close>, \<open>member/gate/classify.go\<close>):
  the per-partition plan against a published manifest, the scratch classifier, the arithmetic
  closure and the partition-set check.

  The executor's sum \<open>payloadexec.SumPartRowLtHashes\<close> is not part of the repository: it is the
  parameter \<open>S\<close>, \<open>None\<close> where it refuses a malformed accumulator. The locale \<open>row_sum\<close> states
  its documented behaviour: it refuses exactly the lists that hold a string that does not decode,
  and otherwise spells the group sum in one canonical form that decodes back. Every
  \<open>lthash\<close> library gives such a sum (\<open>lthashCombineHexAll\<close> of an empty base), which is the
  sublocale at the end of the locale's lemmas.
\<close>

section \<open>Types\<close>

record Plan =
  plan_Diverged :: bool
  plan_Need :: "string list"
  plan_Root :: string

datatype gate_error =
    GateMalformed string
  | GateManifestSum string string
  | GateClosure nat nat string string
  | GatePartitionSet "string list" "string list"

datatype Outcome = OutcomeKept | OutcomeRenameRace | OutcomeSplit | OutcomeDoubled | OutcomeForeign

record Expected =
  exp_RowLtHash :: string
  exp_Rows :: u64

record Fetch =
  fetch_Need :: "string list"
  fetch_Single :: "Expected option"

record ScratchPart =
  sp_Name :: string
  sp_RowLtHash :: string
  sp_Rows :: u64

record Classification =
  cl_Outcome :: Outcome
  cl_Keep :: "string list"
  cl_Drop :: "string list"
  cl_Kept :: "string list"

section \<open>The plan, the closure and the partition set\<close>

text \<open>\<open>abbreviate\<close> shortens an accumulator for a refusal; the middle is U+2026 in UTF-8.\<close>

definition abbreviate :: "string \<Rightarrow> string" where
  "abbreviate h =
     (if length h \<le> 26 then h
      else take 18 h @ [CHR 0xE2, CHR 0x80, CHR 0xA6] @ drop (length h - 8) h)"

definition sumOf :: "(string list \<Rightarrow> string option) \<Rightarrow> string list \<Rightarrow> string" where
  "sumOf S hashes = (case S hashes of None \<Rightarrow> [] | Some s \<Rightarrow> s)"

definition canonicalList ::
    "(string list \<Rightarrow> string option) \<Rightarrow> string \<Rightarrow> string list \<Rightarrow> (gate_error, string list) result" where
  "canonicalList S what hashes =
     (case S hashes of
        None \<Rightarrow> Inl (GateMalformed what)
      | Some _ \<Rightarrow> Inr (map (\<lambda>h. sumOf S [h]) hashes))"

definition canonicalOne ::
    "(string list \<Rightarrow> string option) \<Rightarrow> string \<Rightarrow> string \<Rightarrow> (gate_error, string) result" where
  "canonicalOne S what hash =
     rbind (canonicalList S what [hash]) (\<lambda>out. Inr (out ! 0))"

definition PlanPartition ::
    "(string list \<Rightarrow> string option) \<Rightarrow> string list \<Rightarrow> string \<Rightarrow> string list \<Rightarrow> (gate_error, Plan) result" where
  "PlanPartition S manifest root local =
     rbind (canonicalList S ''manifest'' manifest) (\<lambda>m.
     rbind (canonicalOne S ''partition root'' root) (\<lambda>r.
     let got = sumOf S m in
     if got \<noteq> r then Inl (GateManifestSum (abbreviate got) (abbreviate r))
     else
       rbind (canonicalList S ''local'' local) (\<lambda>l.
       case consume (counts m) l of
         None \<Rightarrow> Inr \<lparr>plan_Diverged = True, plan_Need = [], plan_Root = r\<rparr>
       | Some left \<Rightarrow>
           (let need = fst (claim (\<lambda>h. h) left m)
            in Inr \<lparr>plan_Diverged = False, plan_Need = sort need, plan_Root = r\<rparr>))))"

definition Closure ::
    "(string list \<Rightarrow> string option) \<Rightarrow> string \<Rightarrow> string list \<Rightarrow> string list \<Rightarrow> (gate_error, unit) result" where
  "Closure S root local kept =
     rbind (canonicalOne S ''partition root'' root) (\<lambda>r.
     rbind (canonicalList S ''local'' local) (\<lambda>l.
     rbind (canonicalList S ''kept'' kept) (\<lambda>k.
     let got = sumOf S (l @ k) in
     if got \<noteq> r then Inl (GateClosure (length l) (length k) (abbreviate got) (abbreviate r))
     else Inr ())))"

definition set_ids :: "string list \<Rightarrow> string list" where
  "set_ids ids = Compact (sort ids)"

definition PartitionSet :: "string list \<Rightarrow> string list \<Rightarrow> (gate_error, unit) result" where
  "PartitionSet manifest local =
     (let m = set_ids manifest; l = set_ids local in
      if m \<noteq> l then Inl (GatePartitionSet l m) else Inr ())"

section \<open>The scratch classifier\<close>

definition classifyRestore :: "string list \<Rightarrow> ScratchPart list \<Rightarrow> Classification" where
  "classifyRestore need parts =
     (case claim sp_RowLtHash (counts need) parts of
        (keep, rest, left) \<Rightarrow>
          \<lparr>cl_Outcome = OutcomeKept, cl_Keep = map sp_Name keep, cl_Drop = map sp_Name rest,
           cl_Kept = map sp_RowLtHash keep\<rparr>)"

definition classifyPull ::
    "(string list \<Rightarrow> string option) \<Rightarrow> string list \<Rightarrow> Expected \<Rightarrow> ScratchPart list \<Rightarrow> Classification" where
  "classifyPull S need single parts =
     (let rows = sum_list (map sp_Rows parts);
          names = map sp_Name parts;
          hashes = map sp_RowLtHash parts;
          total = sumOf S hashes;
          single_hash = exp_RowLtHash single
      in
      if rows = 0 then
        \<lparr>cl_Outcome = OutcomeRenameRace, cl_Keep = [], cl_Drop = names, cl_Kept = []\<rparr>
      else if length parts = 1 \<and> hashes ! 0 = single_hash \<and> sp_Rows (parts ! 0) = exp_Rows single \<and>
              counts need single_hash > 0 then
        \<lparr>cl_Outcome = OutcomeKept, cl_Keep = names, cl_Drop = [], cl_Kept = [single_hash]\<rparr>
      else if length parts \<ge> 2 \<and> total = single_hash \<and> rows = exp_Rows single then
        \<lparr>cl_Outcome = OutcomeSplit, cl_Keep = [], cl_Drop = names, cl_Kept = []\<rparr>
      else if total = sumOf S [single_hash, single_hash] \<and> rows = 2 * exp_Rows single then
        \<lparr>cl_Outcome = OutcomeDoubled, cl_Keep = [], cl_Drop = names, cl_Kept = []\<rparr>
      else
        \<lparr>cl_Outcome = OutcomeForeign, cl_Keep = [], cl_Drop = [], cl_Kept = []\<rparr>)"

definition Classify ::
    "(string list \<Rightarrow> string option) \<Rightarrow> Fetch \<Rightarrow> ScratchPart list \<Rightarrow> (gate_error, Classification) result" where
  "Classify S f scratch =
     rbind (canonicalList S ''need'' (fetch_Need f)) (\<lambda>need.
     rbind (canonicalList S ''scratch'' (map sp_RowLtHash scratch)) (\<lambda>hashes.
     let parts = map2 (\<lambda>p h. p\<lparr>sp_RowLtHash := h\<rparr>) scratch hashes in
     case fetch_Single f of
       None \<Rightarrow> Inr (classifyRestore need parts)
     | Some e \<Rightarrow>
         rbind (canonicalOne S ''single-part fetch'' (exp_RowLtHash e)) (\<lambda>single.
         Inr (classifyPull S need (e\<lparr>exp_RowLtHash := single\<rparr>) parts))))"

section \<open>The executor's sum and what the gate decides with it\<close>

locale row_sum =
  fixes S :: "string list \<Rightarrow> string option"
    and dec :: "string \<Rightarrow> 'h :: ab_group_add option"
    and enc :: "'h \<Rightarrow> string"
  assumes S_eq: "S hs = (if \<forall>h \<in> set hs. dec h \<noteq> None
                         then Some (enc (sum_list (map (the \<circ> dec) hs))) else None)"
    and dec_enc: "dec (enc a) = Some a"
begin

text \<open>The canonical spelling of a hash that decodes.\<close>

abbreviation canon :: "string \<Rightarrow> string" where
  "canon h \<equiv> enc (the (dec h))"

abbreviation decodes :: "string list \<Rightarrow> bool" where
  "decodes hs \<equiv> (\<forall>h \<in> set hs. dec h \<noteq> None)"

lemma enc_inject [simp]: "enc a = enc b \<longleftrightarrow> a = b"
  by (metis dec_enc option.inject)

lemma canonicalList_Inr [simp]:
  "canonicalList S w hs = Inr cs \<longleftrightarrow> decodes hs \<and> cs = map canon hs"
  by (auto simp: canonicalList_def S_eq sumOf_def)

lemma canonicalOne_Inr [simp]:
  "canonicalOne S w h = Inr c \<longleftrightarrow> dec h \<noteq> None \<and> c = canon h"
  by (auto simp: canonicalOne_def result_simps simp del: not_None_eq)

lemma sumOf_canon: "decodes hs \<Longrightarrow> sumOf S (map canon hs) = enc (sum_list (map (the \<circ> dec) hs))"
  by (simp add: sumOf_def S_eq dec_enc comp_def)

lemma PlanPartition_spec:
  assumes "PlanPartition S manifest root local = Inr p"
  shows "decodes manifest \<and> dec root \<noteq> None \<and> decodes local \<and>
         plan_Root p = canon root \<and>
         sum_list (map (the \<circ> dec) manifest) = the (dec root) \<and>
         (plan_Diverged p \<longleftrightarrow> \<not> mset (map canon local) \<subseteq># mset (map canon manifest)) \<and>
         (plan_Diverged p \<longrightarrow> plan_Need p = []) \<and>
         (\<not> plan_Diverged p \<longrightarrow>
            sorted (plan_Need p) \<and>
            mset (plan_Need p) + mset (map canon local) = mset (map canon manifest))"
proof -
  let ?m = "map canon manifest" and ?l = "map canon local"
  obtain left where dec: "decodes manifest" "dec root \<noteq> None" "decodes local"
    and sum: "sum_list (map (the \<circ> dec) manifest) = the (dec root)"
    and split: "consume (counts ?m) ?l = None \<and>
        p = \<lparr>plan_Diverged = True, plan_Need = [], plan_Root = canon root\<rparr> \<or>
      consume (counts ?m) ?l = Some left \<and>
        p = \<lparr>plan_Diverged = False, plan_Need = sort (fst (claim (\<lambda>h. h) left ?m)), plan_Root = canon root\<rparr>"
    using assms
    by (auto simp: PlanPartition_def result_simps Let_def sumOf_canon
        split: if_splits option.splits simp del: not_None_eq)
  show ?thesis
  proof (cases "mset ?l \<subseteq># mset ?m")
    case True
    then have left: "left = (\<lambda>x. int (count (mset ?m - mset ?l) x))"
      and p: "p = \<lparr>plan_Diverged = False, plan_Need = sort (fst (claim (\<lambda>h. h) left ?m)), plan_Root = canon root\<rparr>"
      using split by (auto simp: counts_eq consume_count)
    obtain k d l' where c: "claim (\<lambda>h. h) left ?m = (k, d, l')" by (cases "claim (\<lambda>h. h) left ?m")
    from claim_count [OF c [unfolded left]] have "mset k = mset ?m - mset ?l"
      by (simp add: inter_mset_def)
    with True p c dec sum show ?thesis by simp
  next
    case False
    with split have "p = \<lparr>plan_Diverged = True, plan_Need = [], plan_Root = canon root\<rparr>"
      by (auto simp: counts_eq consume_count)
    with False dec sum show ?thesis by simp
  qed
qed

text \<open>The closure check is exactly the group equation.\<close>

lemma Closure_iff:
  "Closure S root local kept = Inr () \<longleftrightarrow>
     dec root \<noteq> None \<and> decodes local \<and> decodes kept \<and>
     sum_list (map (the \<circ> dec) local) + sum_list (map (the \<circ> dec) kept) = the (dec root)"
proof (cases "dec root \<noteq> None \<and> decodes local \<and> decodes kept")
  case True
  then have "sumOf S (map canon local @ map canon kept) =
      enc (sum_list (map (the \<circ> dec) local) + sum_list (map (the \<circ> dec) kept))"
    using sumOf_canon [of "local @ kept"] by auto
  with True show ?thesis
    by (auto simp: Closure_def result_simps Let_def simp del: not_None_eq)
qed (auto simp: Closure_def result_simps simp del: not_None_eq)

lemma sum_list_mset_cong:
  "mset (map canon xs) = mset (map canon ys) \<Longrightarrow> decodes xs \<Longrightarrow> decodes ys \<Longrightarrow>
     sum_list (map (the \<circ> dec) xs) = sum_list (map (the \<circ> dec) ys)"
proof -
  assume eq: "mset (map canon xs) = mset (map canon ys)"
  have "image_mset (the \<circ> dec) (mset (map canon zs)) = mset (map (the \<circ> dec) zs)" for zs
    by (simp add: multiset.map_comp comp_def dec_enc)
  with eq have "mset (map (the \<circ> dec) xs) = mset (map (the \<circ> dec) ys)" by metis
  then show ?thesis by (metis sum_mset_sum_list)
qed

lemma plan_closure:
  assumes "PlanPartition S manifest root local = Inr p" and "decodes kept"
    and "mset (map canon kept) = (if plan_Diverged p then mset (map canon manifest) else mset (plan_Need p))"
  shows "Closure S root (if plan_Diverged p then [] else local) kept = Inr ()"
proof -
  note p = PlanPartition_spec [OF assms(1)]
  let ?have = "(if plan_Diverged p then [] else local) @ kept"
  have "mset (map canon ?have) = mset (map canon manifest)"
    using assms(3) p by (auto simp: union_commute)
  moreover have "decodes ?have" using assms(2) p by auto
  ultimately have "sum_list (map (the \<circ> dec) ?have) = the (dec root)"
    using p sum_list_mset_cong [of ?have manifest] by simp
  with p assms(2) show ?thesis by (auto simp: Closure_iff simp del: not_None_eq)
qed

text \<open>The parts a scratch is judged by: the scanned ones, with canonical hashes.\<close>

abbreviation canon_part :: "ScratchPart \<Rightarrow> ScratchPart" where
  "canon_part p \<equiv> p\<lparr>sp_RowLtHash := canon (sp_RowLtHash p)\<rparr>"

lemma Classify_Inr:
  assumes "Classify S f scratch = Inr c"
  shows "decodes (fetch_Need f) \<and> decodes (map sp_RowLtHash scratch) \<and>
     (case fetch_Single f of
        None \<Rightarrow> c = classifyRestore (map canon (fetch_Need f)) (map canon_part scratch)
      | Some e \<Rightarrow> dec (exp_RowLtHash e) \<noteq> None \<and>
          c = classifyPull S (map canon (fetch_Need f))
                (e\<lparr>exp_RowLtHash := canon (exp_RowLtHash e)\<rparr>) (map canon_part scratch))"
proof -
  have "map2 (\<lambda>p h. p\<lparr>sp_RowLtHash := h\<rparr>) scratch (map (canon \<circ> sp_RowLtHash) scratch) =
      map canon_part scratch"
    by (induction scratch) auto
  with assms show ?thesis
    by (auto simp: Classify_def result_simps Let_def split: option.splits simp del: not_None_eq)
qed

lemma classifyRestore_spec:
  assumes "c = classifyRestore need parts"
  shows "\<exists>keep rest. mset keep + mset rest = mset parts \<and>
     c = \<lparr>cl_Outcome = OutcomeKept, cl_Keep = map sp_Name keep, cl_Drop = map sp_Name rest,
          cl_Kept = map sp_RowLtHash keep\<rparr> \<and>
     mset (map sp_RowLtHash keep) = mset need \<inter># mset (map sp_RowLtHash parts)"
proof -
  obtain k d l where c: "claim sp_RowLtHash (counts need) parts = (k, d, l)"
    by (cases "claim sp_RowLtHash (counts need) parts")
  from claim_count [OF c [unfolded counts_eq]] assms c show ?thesis
    by (intro exI [of _ k] exI [of _ d]) (simp add: classifyRestore_def)
qed

lemma classifyPull_keep:
  assumes "c = classifyPull S need single parts" "cl_Keep c \<noteq> []"
  shows "\<exists>p. parts = [p] \<and> sp_RowLtHash p = exp_RowLtHash single \<and> sp_Rows p = exp_Rows single \<and>
     sp_Rows p \<noteq> 0 \<and> exp_RowLtHash single \<in> set need \<and>
     c = \<lparr>cl_Outcome = OutcomeKept, cl_Keep = [sp_Name p], cl_Drop = [], cl_Kept = [exp_RowLtHash single]\<rparr>"
proof -
  have one: "sum_list (map sp_Rows parts) \<noteq> 0" "length parts = 1"
    "sp_RowLtHash (parts ! 0) = exp_RowLtHash single" "sp_Rows (parts ! 0) = exp_Rows single"
    "exp_RowLtHash single \<in> set need"
    using assms by (auto simp: classifyPull_def Let_def counts_eq split: if_splits)
  then obtain p where "parts = [p]" by (auto simp: length_Suc_conv)
  with one assms(1) show ?thesis by (simp add: classifyPull_def counts_eq)
qed

lemma classifyPull_none:
  assumes "c = classifyPull S need single parts" "cl_Keep c = []"
  shows "cl_Kept c = [] \<and> cl_Outcome c \<noteq> OutcomeKept \<and>
     cl_Drop c = (if cl_Outcome c = OutcomeForeign then [] else map sp_Name parts)"
  using assms by (auto simp: classifyPull_def Let_def split: if_splits)

lemma Classify_pull:
  assumes "Classify S f scratch = Inr c" "fetch_Single f = Some e"
  shows "if cl_Outcome c = OutcomeKept
    then \<exists>p. scratch = [p] \<and> dec (sp_RowLtHash p) = dec (exp_RowLtHash e) \<and>
           sp_Rows p = exp_Rows e \<and> sp_Rows p \<noteq> 0 \<and>
           (\<exists>h \<in> set (fetch_Need f). dec h = dec (exp_RowLtHash e)) \<and>
           cl_Keep c = [sp_Name p] \<and> cl_Drop c = []
    else cl_Keep c = [] \<and> cl_Kept c = [] \<and>
         cl_Drop c = (if cl_Outcome c = OutcomeForeign then [] else map sp_Name scratch)"
proof -
  note d = Classify_Inr [OF assms(1), unfolded assms(2) option.case]
  then have pull: "c = classifyPull S (map canon (fetch_Need f))
      (e\<lparr>exp_RowLtHash := canon (exp_RowLtHash e)\<rparr>) (map canon_part scratch)" by simp
  have eqI: "dec a = dec b" if "canon a = canon b" "dec a \<noteq> None" "dec b \<noteq> None" for a b
    using that by auto
  show ?thesis
  proof (cases "cl_Keep c = []")
    case True
    from classifyPull_none [OF pull True] True show ?thesis by simp
  next
    case False
    from classifyPull_keep [OF pull False] obtain p where p: "map canon_part scratch = [p]"
      "sp_RowLtHash p = canon (exp_RowLtHash e)" "sp_Rows p = exp_Rows e" "sp_Rows p \<noteq> 0"
      "canon (exp_RowLtHash e) \<in> set (map canon (fetch_Need f))"
      "c = \<lparr>cl_Outcome = OutcomeKept, cl_Keep = [sp_Name p], cl_Drop = [], cl_Kept = [canon (exp_RowLtHash e)]\<rparr>"
      by auto
    then obtain q where q: "scratch = [q]" "p = canon_part q" by (auto simp: map_eq_Cons_conv)
    from p(5) obtain h where "h \<in> set (fetch_Need f)" "canon h = canon (exp_RowLtHash e)" by auto
    with d have "\<exists>h \<in> set (fetch_Need f). dec h = dec (exp_RowLtHash e)" using eqI by blast
    moreover have "dec (sp_RowLtHash q) = dec (exp_RowLtHash e)" using d p(2) q eqI by simp
    ultimately show ?thesis using p(3,4,6) q by simp
  qed
qed

text \<open>Whatever a fetch brought, the parts that stay are parts of the scratch, each with the hash
  it is kept for, and together they never exceed the remaining need.\<close>

lemma Classify_sound:
  assumes "Classify S f scratch = Inr c"
  shows "\<exists>keep. set keep \<subseteq> set scratch \<and> cl_Keep c = map sp_Name keep \<and>
     cl_Kept c = map (canon \<circ> sp_RowLtHash) keep \<and>
     mset (cl_Kept c) \<subseteq># mset (map canon (fetch_Need f))"
proof (cases "fetch_Single f")
  case None
  with Classify_Inr [OF assms]
  have "c = classifyRestore (map canon (fetch_Need f)) (map canon_part scratch)" by simp
  from classifyRestore_spec [OF this] obtain keep rest where
    k: "mset keep + mset rest = mset (map canon_part scratch)"
    and c: "c = \<lparr>cl_Outcome = OutcomeKept, cl_Keep = map sp_Name keep, cl_Drop = map sp_Name rest,
       cl_Kept = map sp_RowLtHash keep\<rparr>"
    and sub: "mset (map sp_RowLtHash keep) =
       mset (map canon (fetch_Need f)) \<inter># mset (map sp_RowLtHash (map canon_part scratch))"
    by blast
  have "set keep \<subseteq> canon_part ` set scratch"
    using arg_cong [OF k, of set_mset] by auto
  then obtain keep' where "keep = map canon_part keep'" "set keep' \<subseteq> set scratch"
    by (rule subset_imageE_list)
  with c sub show ?thesis by (intro exI [of _ keep']) simp
next
  case (Some e)
  with Classify_Inr [OF assms] have pull: "c = classifyPull S (map canon (fetch_Need f))
      (e\<lparr>exp_RowLtHash := canon (exp_RowLtHash e)\<rparr>) (map canon_part scratch)" by simp
  show ?thesis
  proof (cases "cl_Keep c = []")
    case True
    from classifyPull_none [OF pull True] True show ?thesis by (intro exI [of _ "[]"]) simp
  next
    case False
    from classifyPull_keep [OF pull False] obtain p where p: "map canon_part scratch = [p]"
      "sp_RowLtHash p = canon (exp_RowLtHash e)" "canon (exp_RowLtHash e) \<in> set (map canon (fetch_Need f))"
      "cl_Keep c = [sp_Name p]" "cl_Kept c = [canon (exp_RowLtHash e)]"
      by auto
    then obtain q where "scratch = [q]" "p = canon_part q" by (auto simp: map_eq_Cons_conv)
    with p show ?thesis by (intro exI [of _ "[q]"]) simp
  qed
qed

end

text \<open>Every accumulator library gives such a sum: its own combination of an empty base.\<close>

definition row_sum_of :: "'h :: ab_group_add lthash_lib \<Rightarrow> string list \<Rightarrow> string option" where
  "row_sum_of L hs = (case lthashCombineHexAll L [] hs of Inl e \<Rightarrow> None | Inr s \<Rightarrow> Some s)"

definition row_dec :: "'h :: ab_group_add lthash_lib \<Rightarrow> string \<Rightarrow> 'h option" where
  "row_dec L s = (case parseAccumulatorHex L s of Inl e \<Rightarrow> None | Inr h \<Rightarrow> Some h)"

lemma row_dec_iff: "row_dec L s = Some h \<longleftrightarrow> parses L s \<and> denotes L s = h"
  by (cases "parseAccumulatorHex L s") (auto simp: row_dec_def parses_def denotes_def)

lemma row_dec_None [simp]: "row_dec L s = None \<longleftrightarrow> \<not> parses L s"
  by (cases "parseAccumulatorHex L s") (auto simp: row_dec_def parses_def)

lemma row_sum_of_eq:
  "row_sum_of L hs =
     (if \<forall>h \<in> set hs. row_dec L h \<noteq> None
      then Some (accumulatorHex L (sum_list (map (the \<circ> row_dec L) hs))) else None)"
proof (cases "\<forall>h \<in> set hs. parses L h")
  case True
  then have eq: "map (the \<circ> row_dec L) hs = map (denotes L) hs"
    by (auto simp: row_dec_def parses_def denotes_def split: sum.splits)
  with True show ?thesis
    using lthashCombineHexAll_eq [of L "[]" hs "accumulatorHex L (sum_list (map (denotes L) hs))"]
    by (simp add: row_sum_of_def eq del: map_eq_conv)
next
  case False
  then have "\<nexists>r. lthashCombineHexAll L [] hs = Inr r" by (simp add: lthashCombineHexAll_eq)
  with False show ?thesis by (auto simp: row_sum_of_def split: sum.splits)
qed

sublocale lthash \<subseteq> rows: row_sum "row_sum_of L" "row_dec L" "accumulatorHex L"
  by unfold_locales (simp_all add: row_sum_of_eq row_dec_iff)

section \<open>Properties\<close>


lemmas gate_eval = PlanPartition_def Classify_def Closure_def canonicalList_def canonicalOne_def
  sumOf_def row_sum_of_def lthashCombineHexAll_def lane_parse lane_hex counts_def




text \<open>
  C22. The pull verdicts of \<open>Classify\<close>. A scratch filled by a pull of one named part is kept only
  when it is exactly one part with the expected rows, at least one, and an expected, still needed
  row hash; every other verdict attaches nothing, and drops the whole scratch unless it is foreign,
  when it drops nothing.
\<close>

theorem Classify_pull_verdicts:
  assumes "row_sum S dec enc" and "Classify S f scratch = Inr c" and "fetch_Single f = Some e"
  shows "if cl_Outcome c = OutcomeKept
    then \<exists>p. scratch = [p] \<and> dec (sp_RowLtHash p) = dec (exp_RowLtHash e) \<and>
           sp_Rows p = exp_Rows e \<and> sp_Rows p \<noteq> 0 \<and>
           (\<exists>h \<in> set (fetch_Need f). dec h = dec (exp_RowLtHash e)) \<and>
           cl_Keep c = [sp_Name p] \<and> cl_Drop c = []
    else cl_Keep c = [] \<and> cl_Kept c = [] \<and>
         cl_Drop c = (if cl_Outcome c = OutcomeForeign then [] else map sp_Name scratch)"
  using row_sum.Classify_pull [OF assms] .

theorem Classify_pull_verdicts_witness:
  "row_sum (row_sum_of lane_lib) (row_dec lane_lib) (accumulatorHex lane_lib) \<and>
   Classify (row_sum_of lane_lib)
     \<lparr>fetch_Need = [''0xcb00''], fetch_Single = Some \<lparr>exp_RowLtHash = ''0xcb00'', exp_Rows = 7\<rparr>\<rparr>
     [\<lparr>sp_Name = ''a'', sp_RowLtHash = ''0xAB00'', sp_Rows = 3\<rparr>,
      \<lparr>sp_Name = ''b'', sp_RowLtHash = ''0x2000'', sp_Rows = 4\<rparr>] =
   Inr \<lparr>cl_Outcome = OutcomeSplit, cl_Keep = [], cl_Drop = [''a'', ''b''], cl_Kept = []\<rparr>"
proof -
  have run: "Classify (row_sum_of lane_lib)
     \<lparr>fetch_Need = [''0xcb00''], fetch_Single = Some \<lparr>exp_RowLtHash = ''0xcb00'', exp_Rows = 7\<rparr>\<rparr>
     [\<lparr>sp_Name = ''a'', sp_RowLtHash = ''0xAB00'', sp_Rows = 3\<rparr>,
      \<lparr>sp_Name = ''b'', sp_RowLtHash = ''0x2000'', sp_Rows = 4\<rparr>] =
   Inr \<lparr>cl_Outcome = OutcomeSplit, cl_Keep = [], cl_Drop = [''a'', ''b''], cl_Kept = []\<rparr>"
    by (simp add: gate_eval classifyPull_def)
  from Classify_pull_verdicts [OF lane.rows.row_sum_axioms run] run lane.rows.row_sum_axioms
  show ?thesis by simp
qed

text \<open>
  C23. The plan and the closure agree. Once the kept parts of the fetches are, as a multiset of row
  hashes, exactly the plan's need, the closure over what the copy holds and what was kept is the
  partition root; and a diverged partition that is rebuilt from every manifest part closes too.
\<close>

theorem plan_closes:
  assumes "row_sum S dec enc" and "PlanPartition S manifest root local = Inr p"
    and "\<forall>h \<in> set kept. dec h \<noteq> None"
    and "mset (map (\<lambda>h. enc (the (dec h))) kept) =
           (if plan_Diverged p then mset (map (\<lambda>h. enc (the (dec h))) manifest) else mset (plan_Need p))"
  shows "Closure S root (if plan_Diverged p then [] else local) kept = Inr ()"
  using row_sum.plan_closure [OF assms] .

theorem plan_closes_witness:
  "PlanPartition (row_sum_of lane_lib) [''0xAB00'', ''0x2000''] ''0xcb00'' [''0xcb00''] =
     Inr \<lparr>plan_Diverged = True, plan_Need = [], plan_Root = ''0xcb00''\<rparr> \<and>
   Closure (row_sum_of lane_lib) ''0xcb00'' [] [''0x2000'', ''0xab00''] = Inr ()"
proof -
  have run: "PlanPartition (row_sum_of lane_lib) [''0xAB00'', ''0x2000''] ''0xcb00'' [''0xcb00''] =
     Inr \<lparr>plan_Diverged = True, plan_Need = [], plan_Root = ''0xcb00''\<rparr>"
    by (simp add: gate_eval)
  from plan_closes [OF lane.rows.row_sum_axioms run, of "[''0x2000'', ''0xab00'']"] run
  show ?thesis by (simp add: row_dec_def lane_parse lane_hex)
qed

text \<open>
  The partition-set check passes exactly when both sides name the same logical partitions,
  whatever the order and the repeats.
\<close>

theorem PartitionSet_iff: "PartitionSet manifest local = Inr () \<longleftrightarrow> set manifest = set local"
  by (simp add: PartitionSet_def set_ids_def sorted_distinct_Compact_sort Let_def)
    (metis List.finite_set sorted_list_of_set.set_sorted_key_list_of_set)

end
