(* ===== verification/Arbiter_Types.thy ===== *)
theory Arbiter_Types
  imports Prelude
begin

text \<open>
  The canonical types of the root package (\<open>types.go\<close>, \<open>table_registry.go\<close>) that the
  storage-node components exchange with the arbiter, with their pure operations: statement
  identities and coordinates, client lanes, the NUL-joined map keys, and the canonical scan body.
  Field names are the Go ones with a prefix per record, because HOL record fields are global.
\<close>

section \<open>Statement identity\<close>

text \<open>\<open>strings.ToLower\<close> on ASCII strings; accounts are \<open>0x\<close> and hex digits.\<close>

definition lower_char :: "char \<Rightarrow> char" where
  "lower_char c =
     (let n = of_char c :: nat in if 65 \<le> n \<and> n \<le> 90 then char_of (n + 32) else c)"

definition ToLower :: "string \<Rightarrow> string" where
  "ToLower s = map lower_char s"

text \<open>\<open>strconv.FormatUint\<close> in base 10.\<close>

fun FormatNat :: "nat \<Rightarrow> string" where
  "FormatNat n = (if n < 10 then [char_of (48 + n)] else FormatNat (n div 10) @ [char_of (48 + n mod 10)])"

declare FormatNat.simps [simp del]

definition FormatUint :: "u64 \<Rightarrow> string" where
  "FormatUint w = FormatNat (unat w)"

record StatementCoord =
  sc_Account :: string
  sc_Lane :: string
  sc_ClientSeq :: u64

definition Subject :: "StatementCoord \<Rightarrow> string" where
  "Subject c = (if sc_Lane c = [] then sc_Account c else sc_Account c @ '':'' @ sc_Lane c)"

definition StatementIDString :: "string \<Rightarrow> u64 \<Rightarrow> string \<Rightarrow> string" where
  "StatementIDString clientAccount clientSeq clientNonce =
     ToLower clientAccount @ '':'' @ FormatUint clientSeq @ '':'' @ clientNonce"

definition ClientLaneHexLen :: nat where
  "ClientLaneHexLen = 16"

definition ValidClientLane :: "string \<Rightarrow> bool" where
  "ValidClientLane lane \<longleftrightarrow>
     length lane = ClientLaneHexLen \<and>
     (\<forall>c \<in> set lane. (CHR ''0'' \<le> c \<and> c \<le> CHR ''9'') \<or> (CHR ''a'' \<le> c \<and> c \<le> CHR ''f''))"

definition StatementIDStringWithLane :: "string \<Rightarrow> string \<Rightarrow> u64 \<Rightarrow> string \<Rightarrow> string" where
  "StatementIDStringWithLane clientAccount clientLane clientSeq clientNonce =
     (if clientLane = [] then StatementIDString clientAccount clientSeq clientNonce
      else ToLower clientAccount @ '':'' @ clientLane @ '':'' @ FormatUint clientSeq @ '':'' @ clientNonce)"

record StatementID =
  sid_ClientAccount :: string
  sid_ClientSeq :: u64
  sid_ClientNonce :: string
  sid_ClientLane :: string

definition Flat :: "StatementID \<Rightarrow> string" where
  "Flat sid =
     StatementIDStringWithLane (sid_ClientAccount sid) (sid_ClientLane sid) (sid_ClientSeq sid) (sid_ClientNonce sid)"

definition Coord :: "StatementID \<Rightarrow> StatementCoord" where
  "Coord sid = \<lparr>sc_Account = ToLower (sid_ClientAccount sid), sc_Lane = sid_ClientLane sid,
     sc_ClientSeq = sid_ClientSeq sid\<rparr>"

section \<open>Commands, claims and acknowledgements\<close>

record PartRef =
  pr_TableID :: string
  pr_PartitionID :: string
  pr_PartRowLtHash :: string
  pr_PartName :: string

record PromoteSafePartition =
  ps_TableID :: string
  ps_PartitionID :: string
  ps_PromotionSeq :: u64
  ps_BaseSafeSnapshotID :: string
  ps_BasePartitionRoot :: string
  ps_CandidateParts :: "PartRef list"

record UnsafeCleanup =
  uc_TableID :: string
  uc_PartitionID :: string
  uc_PromotionSeq :: u64
  uc_Parts :: "PartRef list"
  uc_RejectedBlockSeq :: u64

record StatementEnvelope =
  env_StatementID :: StatementID
  env_StatementKind :: int
  env_SQL :: string
  env_SQLHash :: string
  env_SettingsHash :: string
  env_PayloadRef :: string
  env_PayloadHash :: string
  env_PayloadLength :: u64
  env_TargetTableID :: string
  env_UserJWS :: string
  env_EnvelopeVersion :: u32
  env_NetworkID :: string
  env_KeeperShardID :: u32
  env_PayloadFormat :: string
  env_ClientRevision :: u32
  env_SchemaHash :: string
  env_RowIDProfileID :: string

record CandidatePart =
  cp_TableID :: string
  cp_PartitionID :: string
  cp_PartName :: string
  cp_PartRowLtHash :: string
  cp_PartPhysHash :: string
  cp_RowCount :: u64
  cp_Bytes :: u64

record PartitionLtHashSum =
  pls_TableID :: string
  pls_PartitionID :: string
  pls_NewPartsLtHashSum :: string

record RCRecord =
  rc_StatementID :: StatementID
  rc_SourceNode :: string
  rc_CandidateParts :: "CandidatePart list"
  rc_SourceClaimRoot :: string
  rc_PartitionNewPartSums :: "PartitionLtHashSum list"

record PartScan =
  scan_TableID :: string
  scan_PartitionID :: string
  scan_ClaimedPartRowLtHash :: string
  scan_ScannedPartRowLtHash :: string
  scan_LivePartName :: string

text \<open>A Go slice of a scan: nil and the empty slice differ in the canonical JSON.\<close>

record ByteSideScanBody =
  body_ReplicaID :: string
  body_BlockSeq :: u64
  body_Parts :: "PartScan list option"

record ByteSideScanMsg =
  msg_ReplicaID :: string
  msg_BlockSeq :: u64
  msg_Parts :: "PartScan list option"
  msg_ScanHash :: string
  msg_Signature :: string

definition Body :: "ByteSideScanMsg \<Rightarrow> ByteSideScanBody" where
  "Body m =
     (let parts = (case msg_Parts m of None \<Rightarrow> None | Some ps \<Rightarrow> if length ps = 0 then None else Some ps)
      in \<lparr>body_ReplicaID = msg_ReplicaID m, body_BlockSeq = msg_BlockSeq m, body_Parts = parts\<rparr>)"

record SafePartMapping =
  sm_PartRowLtHash :: string
  sm_SafePartName :: string
  sm_PartPhysHash :: string

record PromotionAck =
  pa_NodeID :: string
  pa_PromotionSeq :: u64
  pa_TableID :: string
  pa_PartitionID :: string
  pa_PostPartitionCommitment :: string
  pa_Parts :: "SafePartMapping list"
  pa_SafePartitionParts :: "SafePartMapping list"
  pa_Applied :: bool
  pa_Detail :: string

record CleanupAck =
  ca_NodeID :: string
  ca_PromotionSeq :: u64
  ca_TableID :: string
  ca_PartitionID :: string
  ca_RejectedBlockSeq :: u64

section \<open>Table partitions as map keys\<close>

record TablePartition =
  tp_TableID :: string
  tp_PartitionID :: string

definition MarshalText :: "TablePartition \<Rightarrow> bytes" where
  "MarshalText p = tp_TableID p @ [NUL] @ tp_PartitionID p"

definition UnmarshalText :: "bytes \<Rightarrow> TablePartition option" where
  "UnmarshalText b =
     (case Cut NUL b of
        (t, p, ok) \<Rightarrow> if ok then Some \<lparr>tp_TableID = t, tp_PartitionID = p\<rparr> else None)"

definition TableKey :: "string \<Rightarrow> string \<Rightarrow> string" where
  "TableKey databaseID tableID = databaseID @ ''.'' @ tableID"

section \<open>Lemmas\<close>

lemma FormatNat_digits: "\<forall>c \<in> set (FormatNat n). (48 :: nat) \<le> of_char c \<and> of_char c \<le> (57 :: nat)"
proof (induction n rule: FormatNat.induct)
  case (1 n)
  show ?case
    by (cases "n < 10"; subst FormatNat.simps) (use 1 in auto)
qed

lemma FormatNat_nonempty [simp]: "FormatNat n \<noteq> []"
  by (subst FormatNat.simps) simp

text \<open>Reading the digits back gives the number, so the rendering is injective.\<close>

definition read_digits :: "string \<Rightarrow> nat" where
  "read_digits s = foldl (\<lambda>a c. 10 * a + (of_char c - 48)) 0 s"

lemma read_FormatNat [simp]: "read_digits (FormatNat n) = n"
proof (induction n rule: FormatNat.induct)
  case (1 n)
  show ?case
    by (cases "n < 10"; subst FormatNat.simps) (use 1 in \<open>auto simp: read_digits_def\<close>)
qed

lemma FormatUint_inject [simp]: "FormatUint a = FormatUint b \<longleftrightarrow> a = b"
  by (metis FormatUint_def read_FormatNat word_unat_eq_iff)

lemma FormatUint_no_colon: "CHR '':'' \<notin> set (FormatUint w)"
  using FormatNat_digits [of "unat w"] by (auto simp: FormatUint_def)

lemma FormatUint_no_NUL: "NUL \<notin> set (FormatUint w)"
  using FormatNat_digits [of "unat w"] by (auto simp: FormatUint_def)

end
