(* ===== verification/Chparts.thy ===== *)
theory Chparts
  imports Arbiter_Types LtHash
begin

text \<open>
  Listing, scanning and dropping the parts of a table through ClickHouse statements
  (\<open>dataplane/chparts/chparts.go\<close>) and the part helpers of \<open>snode/parts.go\<close>.

  ClickHouse is the parameter \<open>Conn\<close>: the answers to the queries the code sends, as functions of an
  outside state \<open>'s\<close> that every call may change. \<open>payloadexec.TableSchema\<close> is represented by the two
  fields the code reads, and \<open>payloadexec.SumPartRowLtHashes\<close> by the parameter \<open>S\<close>.
\<close>

section \<open>Parts\<close>

record Part =
  pt_Name :: string
  pt_PartitionID :: string
  pt_PartitionValue :: string
  pt_PhysHash :: string
  pt_Path :: string
  pt_Rows :: u64
  pt_Bytes :: u64

record TableSchema =
  ts_TableID :: string
  ts_PartitionBy :: string

record PartScanResult =
  sc_PartName :: string
  sc_RowLtHash :: string
  sc_RowCount :: u64

definition LogicalPartitionID :: "TableSchema \<Rightarrow> Part \<Rightarrow> string" where
  "LogicalPartitionID sch p = (if ts_PartitionBy sch = [] then ''all'' else ''p_'' @ pt_PartitionValue p)"

definition PartsInLogicalPartition :: "Part list \<Rightarrow> TableSchema \<Rightarrow> string \<Rightarrow> Part list" where
  "PartsInLogicalPartition parts sch partitionID = filter (\<lambda>p. LogicalPartitionID sch p = partitionID) parts"

definition diffParts :: "Part list \<Rightarrow> Part list \<Rightarrow> Part list" where
  "diffParts before after = filter (\<lambda>p. pt_Rows p > 0 \<and> pt_Name p \<notin> pt_Name ` set before) after"

section \<open>Statements\<close>

text \<open>\<open>strings.ReplaceAll\<close> of one byte.\<close>

definition ReplaceAll :: "string \<Rightarrow> char \<Rightarrow> string \<Rightarrow> string" where
  "ReplaceAll s c r = concat (map (\<lambda>x. if x = c then r else [x]) s)"

abbreviation BACKSLASH :: char where "BACKSLASH \<equiv> CHR 0x5C"
abbreviation QUOTE :: char where "QUOTE \<equiv> CHR 0x27"

definition EscapeSQLString :: "string \<Rightarrow> string" where
  "EscapeSQLString s =
     ReplaceAll (ReplaceAll s BACKSLASH [BACKSLASH, BACKSLASH]) QUOTE [BACKSLASH, QUOTE]"

datatype ch_error =
    ErrQuery
  | ErrExec
  | ErrScan
  | ErrNoSuchDataPart
  | ErrUnknownTable
  | ErrUnknownDatabase
  | ErrUnpartitionedWantsAll string
  | ErrPartitionForm string
  | ErrSum

definition QuotePartition :: "TableSchema \<Rightarrow> string \<Rightarrow> (ch_error, string) result" where
  "QuotePartition sch partitionID =
     (if ts_PartitionBy sch = []
      then if partitionID \<noteq> ''all'' then Inl (ErrUnpartitionedWantsAll partitionID) else Inr ''tuple()''
      else if \<not> HasPrefix partitionID ''p_'' \<or> TrimPrefix partitionID ''p_'' = []
           then Inl (ErrPartitionForm partitionID)
           else Inr ([QUOTE] @ EscapeSQLString (TrimPrefix partitionID ''p_'') @ [QUOTE]))"

section \<open>The connection\<close>

text \<open>
  \<open>conn_parts\<close> is the query of \<open>ActiveParts\<close> with its rows (name order is the query's own
  \<open>ORDER BY\<close>), \<open>conn_exec\<close> a statement, \<open>conn_scan\<close> \<open>chexec.ScanParts\<close>, \<open>conn_tables\<close> the
  count of a table in \<open>system.tables\<close>, \<open>conn_rowids\<close> the row ids of a part, and \<open>conn_insert\<close> a batch, from its
  preparation to its \<open>Send\<close>. The values of a row are carried as bytes: no code reads them.
\<close>

record Row =
  row_RowID :: string
  row_Values :: "string list"

record 's Conn =
  conn_parts :: "string \<Rightarrow> string \<Rightarrow> ('s, ch_error, Part list) io"
  conn_exec :: "string \<Rightarrow> ('s, ch_error, unit) io"
  conn_scan :: "string \<Rightarrow> TableSchema \<Rightarrow> string list \<Rightarrow> ('s, ch_error, PartScanResult list) io"
  conn_tables :: "string \<Rightarrow> string \<Rightarrow> ('s, ch_error, u64) io"
  conn_rowids :: "string \<Rightarrow> string \<Rightarrow> ('s, ch_error, string list) io"
  conn_insert :: "string \<Rightarrow> Row list \<Rightarrow> ('s, ch_error, unit) io"

definition ActiveParts :: "'s Conn \<Rightarrow> string \<Rightarrow> string \<Rightarrow> ('s, ch_error, Part list) io" where
  "ActiveParts conn db table = conn_parts conn db table"

definition DropPartitionIfPresent ::
    "'s Conn \<Rightarrow> string \<Rightarrow> string \<Rightarrow> TableSchema \<Rightarrow> string \<Rightarrow> ('s, ch_error, bool) io" where
  "DropPartitionIfPresent conn db table sch partitionID =
     io_bind (ActiveParts conn db table) (\<lambda>parts.
     if PartsInLogicalPartition parts sch partitionID = [] then io_return False
     else io_bind (io_lift (QuotePartition sch partitionID)) (\<lambda>prt.
          io_bind (conn_exec conn (''ALTER TABLE '' @ db @ ''.'' @ table @ '' DROP PARTITION '' @ prt)) (\<lambda>_.
          io_return True)))"

record ScannedPart =
  sp_Name :: string
  sp_RowLtHash :: string
  sp_Rows :: u64

definition sum_result :: "string option \<Rightarrow> (ch_error, string) result" where
  "sum_result r = (case r of Some root \<Rightarrow> Inr root | None \<Rightarrow> Inl ErrSum)"

definition PartitionContentScan ::
    "(string list \<Rightarrow> string option) \<Rightarrow> 's Conn \<Rightarrow> string \<Rightarrow> string \<Rightarrow> TableSchema \<Rightarrow> string \<Rightarrow>
     ('s, ch_error, string \<times> ScannedPart list) io" where
  "PartitionContentScan S conn db table sch partitionID =
     io_bind (ActiveParts conn db table) (\<lambda>parts.
     let names = map pt_Name (PartsInLogicalPartition parts sch partitionID) in
     if names = [] then io_bind (io_lift (sum_result (S []))) (\<lambda>root. io_return (root, []))
     else io_bind (conn_scan conn (db @ ''.'' @ table) sch names) (\<lambda>scans.
          io_bind (io_lift (sum_result (S (map sc_RowLtHash scans)))) (\<lambda>root.
          io_return (root, map (\<lambda>s. \<lparr>sp_Name = sc_PartName s, sp_RowLtHash = sc_RowLtHash s,
                                   sp_Rows = sc_RowCount s\<rparr>) scans))))"

section \<open>Literals\<close>

text \<open>
  How ClickHouse reads the body of a single-quoted literal: a backslash takes the next byte (the
  escapes of a backslash and of a quote stand for themselves), and a quote ends it.
\<close>

fun read_literal :: "string \<Rightarrow> (string \<times> string) option" where
  "read_literal [] = None"
| "read_literal (c # cs) =
     (if c = QUOTE then Some ([], cs)
      else if c = BACKSLASH
      then (case cs of [] \<Rightarrow> None
            | d # ds \<Rightarrow> map_option (\<lambda>(v, r). (d # v, r)) (read_literal ds))
      else map_option (\<lambda>(v, r). (c # v, r)) (read_literal cs))"

lemma ReplaceAll_simps [simp]:
  "ReplaceAll [] c r = []"
  "ReplaceAll (x # s) c r = (if x = c then r else [x]) @ ReplaceAll s c r"
  "ReplaceAll (s @ t) c r = ReplaceAll s c r @ ReplaceAll t c r"
  by (simp_all add: ReplaceAll_def)

lemma Escape_simps [simp]:
  "EscapeSQLString [] = []"
  "EscapeSQLString (x # s) =
     (if x = BACKSLASH then [BACKSLASH, BACKSLASH] else if x = QUOTE then [BACKSLASH, QUOTE] else [x]) @
     EscapeSQLString s"
  by (simp_all add: EscapeSQLString_def)

lemma read_escaped: "read_literal (EscapeSQLString s @ QUOTE # rest) = Some (s, rest)"
  by (induction s) auto

section \<open>Properties\<close>



end
