(* ===== verification/SNode_State.thy ===== *)
theory SNode_State
  imports LtHash Arbiter_Types
begin

text \<open>
  The storage node's durable promotion and accounting ledger (\<open>snode/state.go\<close>,
  the state-store parts of \<open>snode/registry.go\<close>, \<open>snode/rebuilt_inventory.go\<close> and
  \<open>snode/view.go\<close>).

  \<open>stateStore\<close> holds the state in memory and the contents of \<open>state.json\<close> (\<open>None\<close> while the
  file does not exist). Every write goes through \<open>persistStateLocked\<close>; the outcome of its file
  operations is an input: the write succeeds, fails before the rename (the file keeps its old
  contents), or fails after it, when the directory cannot be opened or synced (the file has the new
  contents, memory does not). A crash reopens the store from the file. The JSON encoding of the
  file is not modelled: the file holds the value. \<open>mu\<close> makes each method one step.
\<close>

section \<open>State\<close>

record partitionKey =
  pk_Table :: string
  pk_Partition :: string

record promotionSafePart =
  psp_Name :: string
  psp_PartitionID :: string
  psp_PartitionValue :: string
  psp_PhysHash :: string

record promotionIntent =
  pi_PromotionSeq :: u64
  pi_BasePartitionRoot :: string
  pi_PostPartitionRoot :: string
  pi_BaseSafeSnapshotID :: string
  pi_CandidatePartHashes :: "string list"
  pi_UnsafePartNames :: "string list"
  pi_SafePartsBefore :: "promotionSafePart list"

record ackedSafeInventory =
  inv_PromotionSeq :: u64
  inv_Parts :: "SafePartMapping list"
  inv_Rebuilt :: bool

record localState =
  Watermarks :: "(string, u64) fmap"
  LastAcks :: "(string, PromotionAck) fmap"
  BaseRoots :: "(string, string) fmap"
  BaseSnapshotIDs :: "(string, string) fmap"
  UnpromotedSums :: "(string, string) fmap"
  IntakeParts :: "(string, string) fmap"
  PromotedUnsafeParts :: "(string, string list) fmap"
  PromotionIntents :: "(string, promotionIntent) fmap"
  RegistrationSeq :: u64
  OwedCleanupAcks :: "(string, CleanupAck) fmap"
  AckedSafeInventories :: "(string, ackedSafeInventory) fmap"

record stateStore =
  st_mem :: localState
  st_disk :: "localState option"

datatype state_error =
    ErrPersist
  | ErrAccumulator lt_error
  | ErrIntentExists string string u64
  | ErrRefreshDifferentAck
  | ErrIntakeDifferentHash string
  | ErrIntakeRemovalMismatch string
  | ErrCleanupCarriesPromotion u64
  | ErrCleanupPartElsewhere string
  | ErrCleanupPartUnnamed
  | ErrCleanupPartHash string
  | ErrNotItsAcknowledgement
  | ErrPromotionUnresolved string "string list"
  | ErrForgetIntent
  | ErrForgetPromotedParts
  | ErrForgetUnpromoted
  | ErrForgetOwedAck CleanupAck
  | ErrRebuildIntentPending
  | ErrRebuildJournalBehind string string u64 u64

section \<open>Keys\<close>

definition key :: "string \<Rightarrow> string \<Rightarrow> string" where
  "key table prt = table @ [NUL] @ prt"

abbreviation pkey :: "partitionKey \<Rightarrow> string" where
  "pkey k \<equiv> key (pk_Table k) (pk_Partition k)"

definition intakePartKey :: "partitionKey \<Rightarrow> string \<Rightarrow> string" where
  "intakePartKey k partName = pkey k @ [NUL] @ partName"

definition cleanupAckKey :: "CleanupAck \<Rightarrow> string" where
  "cleanupAckKey ack =
     key (ca_TableID ack) (ca_PartitionID ack) @ [NUL] @ FormatUint (ca_PromotionSeq ack) @
     [NUL] @ FormatUint (ca_RejectedBlockSeq ack)"

definition splitKey :: "string \<Rightarrow> partitionKey \<times> bool" where
  "splitKey s = (case Cut NUL s of (table, prt, ok) \<Rightarrow>
     (\<lparr>pk_Table = table, pk_Partition = prt\<rparr>, ok))"

section \<open>Opening and persisting\<close>

definition newLocalState :: localState where
  "newLocalState =
     \<lparr>Watermarks = fmempty, LastAcks = fmempty, BaseRoots = fmempty, BaseSnapshotIDs = fmempty,
      UnpromotedSums = fmempty, IntakeParts = fmempty, PromotedUnsafeParts = fmempty,
      PromotionIntents = fmempty, RegistrationSeq = 0, OwedCleanupAcks = fmempty,
      AckedSafeInventories = fmempty\<rparr>"

text \<open>\<open>readLocalState\<close>: a missing file is an empty state.\<close>

definition readLocalState :: "localState option \<Rightarrow> localState" where
  "readLocalState file = (case file of None \<Rightarrow> newLocalState | Some s \<Rightarrow> s)"

definition openStateStore :: "localState option \<Rightarrow> stateStore" where
  "openStateStore file = \<lparr>st_mem = readLocalState file, st_disk = file\<rparr>"

datatype write_outcome = WriteOK | WriteFailed | WriteUnsynced

definition persistStateLocked ::
    "write_outcome \<Rightarrow> localState \<Rightarrow> stateStore \<Rightarrow> (state_error, unit) result \<times> stateStore" where
  "persistStateLocked w nxt st =
     (case w of
        WriteOK \<Rightarrow> (Inr (), st\<lparr>st_mem := nxt, st_disk := Some nxt\<rparr>)
      | WriteFailed \<Rightarrow> (Inl ErrPersist, st)
      | WriteUnsynced \<Rightarrow> (Inl ErrPersist, st\<lparr>st_disk := Some nxt\<rparr>))"

text \<open>
  The in-place methods change the map in memory first and then persist it, so a failed write leaves
  memory ahead of the file.
\<close>

definition persistInPlace ::
    "write_outcome \<Rightarrow> localState \<Rightarrow> stateStore \<Rightarrow> (state_error, unit) result \<times> stateStore" where
  "persistInPlace w s st = persistStateLocked w s (st\<lparr>st_mem := s\<rparr>)"

section \<open>Reads\<close>

definition Watermark :: "partitionKey \<Rightarrow> stateStore \<Rightarrow> u64" where
  "Watermark k st = fmget 0 (Watermarks (st_mem st)) (pkey k)"

definition LastAck :: "partitionKey \<Rightarrow> stateStore \<Rightarrow> PromotionAck option" where
  "LastAck k st = fmlookup (LastAcks (st_mem st)) (pkey k)"

definition BaseRoot :: "partitionKey \<Rightarrow> stateStore \<Rightarrow> string \<times> string" where
  "BaseRoot k st =
     (fmget [] (BaseRoots (st_mem st)) (pkey k), fmget [] (BaseSnapshotIDs (st_mem st)) (pkey k))"

definition UnpromotedSum :: "partitionKey \<Rightarrow> stateStore \<Rightarrow> string" where
  "UnpromotedSum k st = fmget [] (UnpromotedSums (st_mem st)) (pkey k)"

definition PendingPromotion :: "partitionKey \<Rightarrow> stateStore \<Rightarrow> promotionIntent option" where
  "PendingPromotion k st = fmlookup (PromotionIntents (st_mem st)) (pkey k)"

definition ackedSafeInventoryOf :: "string \<Rightarrow> localState \<Rightarrow> ackedSafeInventory option" where
  "ackedSafeInventoryOf ks s =
     (case fmlookup (AckedSafeInventories s) ks of
        Some ivt \<Rightarrow> Some ivt
      | None \<Rightarrow>
          (case fmlookup (LastAcks s) ks of
             Some ack \<Rightarrow>
               (if pa_Applied ack \<and> length (pa_SafePartitionParts ack) > 0
                then Some \<lparr>inv_PromotionSeq = pa_PromotionSeq ack,
                           inv_Parts = pa_SafePartitionParts ack, inv_Rebuilt = False\<rparr>
                else None)
           | None \<Rightarrow> None))"

definition AckedSafeInventory :: "partitionKey \<Rightarrow> stateStore \<Rightarrow> ackedSafeInventory option" where
  "AckedSafeInventory k st = ackedSafeInventoryOf (pkey k) (st_mem st)"

definition ackedInventoryPartitions :: "string \<Rightarrow> stateStore \<Rightarrow> string list" where
  "ackedInventoryPartitions table st =
     (let s = st_mem st in
      sorted_list_of_set (set
        (map (\<lambda>ks. pk_Partition (fst (splitKey ks)))
          (filter (\<lambda>ks. snd (splitKey ks) \<and> pk_Table (fst (splitKey ks)) = table \<and>
                        ackedSafeInventoryOf ks s \<noteq> None)
            (fmkeys (AckedSafeInventories s) @ fmkeys (LastAcks s))))))"

definition recordAckedSafeInventory :: "string \<Rightarrow> PromotionAck \<Rightarrow> localState \<Rightarrow> localState" where
  "recordAckedSafeInventory ks ack s =
     (if \<not> pa_Applied ack then s
      else if length (pa_SafePartitionParts ack) = 0
      then s\<lparr>AckedSafeInventories := fmdrop ks (AckedSafeInventories s)\<rparr>
      else s\<lparr>AckedSafeInventories := fmupd ks
               \<lparr>inv_PromotionSeq = pa_PromotionSeq ack, inv_Parts = pa_SafePartitionParts ack,
                inv_Rebuilt = False\<rparr> (AckedSafeInventories s)\<rparr>)"

section \<open>Promotion\<close>

definition promotionIntentCommandEqual :: "promotionIntent \<Rightarrow> promotionIntent \<Rightarrow> bool" where
  "promotionIntentCommandEqual a b \<longleftrightarrow>
     pi_PromotionSeq a = pi_PromotionSeq b \<and>
     pi_BasePartitionRoot a = pi_BasePartitionRoot b \<and>
     pi_PostPartitionRoot a = pi_PostPartitionRoot b \<and>
     pi_BaseSafeSnapshotID a = pi_BaseSafeSnapshotID b \<and>
     pi_CandidatePartHashes a = pi_CandidatePartHashes b \<and>
     pi_UnsafePartNames a = pi_UnsafePartNames b"

definition promotionIntentsEqual :: "promotionIntent \<Rightarrow> promotionIntent \<Rightarrow> bool" where
  "promotionIntentsEqual a b \<longleftrightarrow>
     promotionIntentCommandEqual a b \<and> pi_SafePartsBefore a = pi_SafePartsBefore b"

definition BeginPromotion ::
    "write_outcome \<Rightarrow> partitionKey \<Rightarrow> promotionIntent \<Rightarrow> stateStore \<Rightarrow>
     (state_error, unit) result \<times> stateStore" where
  "BeginPromotion w k intent st =
     (let ks = pkey k; s = st_mem st;
          nxt = s\<lparr>PromotionIntents := fmupd ks intent (PromotionIntents s)\<rparr>
      in case fmlookup (PromotionIntents s) ks of
           Some existing \<Rightarrow>
             (if promotionIntentsEqual existing intent then (Inr (), st)
              else if promotionIntentCommandEqual existing intent then persistStateLocked w nxt st
              else (Inl (ErrIntentExists (pk_Table k) (pk_Partition k) (pi_PromotionSeq existing)), st))
         | None \<Rightarrow> persistStateLocked w nxt st)"

text \<open>The part of \<open>RecordAck\<close> and \<open>RecordSettledNotApplied\<close> that writes the acknowledgement.\<close>

definition withAck ::
    "string \<Rightarrow> u64 \<Rightarrow> PromotionAck \<Rightarrow> string \<Rightarrow> string \<Rightarrow> localState \<Rightarrow> localState" where
  "withAck ks seq ack newBaseRoot newBaseSnapshotID s =
     s\<lparr>AckedSafeInventories :=
          (case ackedSafeInventoryOf ks s of
             Some ivt \<Rightarrow> fmupd ks ivt (AckedSafeInventories s)
           | None \<Rightarrow> AckedSafeInventories s),
        Watermarks := fmupd ks seq (Watermarks s),
        LastAcks := fmupd ks ack (LastAcks s),
        BaseRoots := fmupd ks newBaseRoot (BaseRoots s),
        BaseSnapshotIDs := fmupd ks newBaseSnapshotID (BaseSnapshotIDs s)\<rparr>"

definition RecordAck ::
    "write_outcome \<Rightarrow> partitionKey \<Rightarrow> u64 \<Rightarrow> PromotionAck \<Rightarrow> string \<Rightarrow> string \<Rightarrow> stateStore \<Rightarrow>
     (state_error, unit) result \<times> stateStore" where
  "RecordAck w k seq ack newBaseRoot newBaseSnapshotID st =
     persistStateLocked w (withAck (pkey k) seq ack newBaseRoot newBaseSnapshotID (st_mem st)) st"

definition RecordSettledNotApplied ::
    "write_outcome \<Rightarrow> partitionKey \<Rightarrow> u64 \<Rightarrow> PromotionAck \<Rightarrow> string \<Rightarrow> string \<Rightarrow> stateStore \<Rightarrow>
     (state_error, unit) result \<times> stateStore" where
  "RecordSettledNotApplied w k seq ack newBaseRoot newBaseSnapshotID st =
     (let ks = pkey k;
          nxt = withAck ks seq ack newBaseRoot newBaseSnapshotID (st_mem st);
          nxt' = (case fmlookup (PromotionIntents nxt) ks of
                    Some intent \<Rightarrow>
                      (if pi_PromotionSeq intent = seq
                       then nxt\<lparr>PromotionIntents := fmdrop ks (PromotionIntents nxt)\<rparr> else nxt)
                  | None \<Rightarrow> nxt)
      in persistStateLocked w nxt' st)"

definition RecordRefreshedAck ::
    "write_outcome \<Rightarrow> partitionKey \<Rightarrow> PromotionAck \<Rightarrow> stateStore \<Rightarrow>
     (state_error, unit) result \<times> stateStore" where
  "RecordRefreshedAck w k ack st =
     (let ks = pkey k; s = st_mem st in
      case fmlookup (LastAcks s) ks of
        None \<Rightarrow> (Inl ErrRefreshDifferentAck, st)
      | Some previous \<Rightarrow>
          (if pa_PromotionSeq previous \<noteq> pa_PromotionSeq ack \<or>
              fmget 0 (Watermarks s) ks \<noteq> pa_PromotionSeq ack \<or>
              pa_NodeID previous \<noteq> pa_NodeID ack \<or> pa_TableID previous \<noteq> pa_TableID ack \<or>
              pa_PartitionID previous \<noteq> pa_PartitionID ack \<or>
              pa_PostPartitionCommitment previous \<noteq> pa_PostPartitionCommitment ack \<or>
              pa_Applied previous \<noteq> pa_Applied ack
           then (Inl ErrRefreshDifferentAck, st)
           else
             (let nxt = s\<lparr>LastAcks := fmupd ks ack (LastAcks s)\<rparr>;
                  nxt' = (case ackedSafeInventoryOf ks s of
                            None \<Rightarrow> recordAckedSafeInventory ks ack nxt
                          | Some ivt \<Rightarrow>
                              (if inv_PromotionSeq ivt < pa_PromotionSeq ack
                               then recordAckedSafeInventory ks ack nxt else nxt))
              in persistStateLocked w nxt' st)))"

text \<open>The loop of \<open>RecordAppliedPromotion\<close> over the promoted part names.\<close>

fun addPromotedNames :: "string list \<Rightarrow> string list \<Rightarrow> string list" where
  "addPromotedNames existing [] = existing"
| "addPromotedNames existing (p # ps) =
     addPromotedNames (if p = [] \<or> p \<in> set existing then existing else existing @ [p]) ps"

definition RecordAppliedPromotion ::
    "'h :: ab_group_add lthash_lib \<Rightarrow> write_outcome \<Rightarrow> partitionKey \<Rightarrow> u64 \<Rightarrow> PromotionAck \<Rightarrow> string \<Rightarrow> string \<Rightarrow>
     string list \<Rightarrow> string list \<Rightarrow> stateStore \<Rightarrow> (state_error, unit) result \<times> stateStore" where
  "RecordAppliedPromotion L w k seq ack newBaseRoot newBaseSnapshotID partLtHashHexes unsafePartNames st =
     (let ks = pkey k; s = st_mem st in
      case rbind (parseAccumulatorHex L (fmget [] (UnpromotedSums s) ks))
             (\<lambda>acc. subHashes L acc partLtHashHexes) of
        Inl e \<Rightarrow> (Inl (ErrAccumulator e), st)
      | Inr acc \<Rightarrow>
          (let s1 = s\<lparr>UnpromotedSums := fmupd ks (accumulatorHex L acc) (UnpromotedSums s),
                      Watermarks := fmupd ks seq (Watermarks s),
                      LastAcks := fmupd ks ack (LastAcks s)\<rparr>;
               s2 = (recordAckedSafeInventory ks ack s1)
                      \<lparr>BaseRoots := fmupd ks newBaseRoot (BaseRoots s),
                       BaseSnapshotIDs := fmupd ks newBaseSnapshotID (BaseSnapshotIDs s)\<rparr>;
               s3 = (if length unsafePartNames > 0
                     then s2\<lparr>PromotedUnsafeParts := fmupd ks
                            (addPromotedNames (fmget [] (PromotedUnsafeParts s) ks) unsafePartNames)
                            (PromotedUnsafeParts s)\<rparr>
                     else s2);
               nxt = s3\<lparr>PromotionIntents := fmdrop ks (PromotionIntents s)\<rparr>
           in persistStateLocked w nxt st))"

section \<open>The unsafe read surface\<close>

definition forgetPromotedParts ::
    "partitionKey \<Rightarrow> string list \<Rightarrow> localState \<Rightarrow> bool \<times> localState" where
  "forgetPromotedParts k partNames s =
     (let ks = pkey k;
          existing = fmget [] (PromotedUnsafeParts s) ks;
          kept = filter (\<lambda>p. p \<notin> set partNames) existing
      in if length kept = length existing then (False, s)
         else if length kept = 0
         then (True, s\<lparr>PromotedUnsafeParts := fmdrop ks (PromotedUnsafeParts s)\<rparr>)
         else (True, s\<lparr>PromotedUnsafeParts := fmupd ks kept (PromotedUnsafeParts s)\<rparr>))"

definition PromotedUnsafePartsOf :: "string \<Rightarrow> stateStore \<Rightarrow> (state_error, string list) result" where
  "PromotedUnsafePartsOf table st =
     (let s = st_mem st; pre = table @ [NUL];
          pending = map (\<lambda>ks. TrimPrefix ks pre)
                      (filter (\<lambda>ks. HasPrefix ks pre) (fmkeys (PromotionIntents s)))
      in if length pending > 0 then Inl (ErrPromotionUnresolved table (sort pending))
         else Inr (sort (concat (map (fmget [] (PromotedUnsafeParts s))
                    (filter (\<lambda>ks. HasPrefix ks pre) (fmkeys (PromotedUnsafeParts s)))))))"

section \<open>Intake accounting\<close>

definition AddUnpromoted ::
    "'h :: ab_group_add lthash_lib \<Rightarrow> write_outcome \<Rightarrow> partitionKey \<Rightarrow> string \<Rightarrow> stateStore \<Rightarrow>
     (state_error, unit) result \<times> stateStore" where
  "AddUnpromoted L w k partLtHashHex st =
     (let ks = pkey k; s = st_mem st in
      case rbind (parseAccumulatorHex L (fmget [] (UnpromotedSums s) ks))
             (\<lambda>acc. addHashes L acc [partLtHashHex]) of
        Inl e \<Rightarrow> (Inl (ErrAccumulator e), st)
      | Inr acc \<Rightarrow>
          persistInPlace w
            (s\<lparr>UnpromotedSums := fmupd ks (accumulatorHex L acc) (UnpromotedSums s)\<rparr>) st)"

definition AddUnpromotedPart ::
    "'h :: ab_group_add lthash_lib \<Rightarrow> write_outcome \<Rightarrow> partitionKey \<Rightarrow> string \<Rightarrow> string \<Rightarrow> stateStore \<Rightarrow>
     (state_error, unit) result \<times> stateStore" where
  "AddUnpromotedPart L w k partName partLtHashHex st =
     (let partKey = intakePartKey k partName; ks = pkey k; s = st_mem st in
      case fmlookup (IntakeParts s) partKey of
        Some previous \<Rightarrow>
          (if previous = partLtHashHex then (Inr (), st)
           else (Inl (ErrIntakeDifferentHash partName), st))
      | None \<Rightarrow>
          (case rbind (parseAccumulatorHex L (fmget [] (UnpromotedSums s) ks))
                  (\<lambda>acc. addHashes L acc [partLtHashHex]) of
             Inl e \<Rightarrow> (Inl (ErrAccumulator e), st)
           | Inr acc \<Rightarrow>
               persistInPlace w
                 (s\<lparr>UnpromotedSums := fmupd ks (accumulatorHex L acc) (UnpromotedSums s),
                    IntakeParts := fmupd partKey partLtHashHex (IntakeParts s)\<rparr>) st))"

definition RemoveUnpromotedPart ::
    "'h :: ab_group_add lthash_lib \<Rightarrow> write_outcome \<Rightarrow> partitionKey \<Rightarrow> string \<Rightarrow> string \<Rightarrow> stateStore \<Rightarrow>
     (state_error, unit) result \<times> stateStore" where
  "RemoveUnpromotedPart L w k partName partLtHashHex st =
     (let partKey = intakePartKey k partName; ks = pkey k; s = st_mem st;
          previous = fmlookup (IntakeParts s) partKey in
      if previous = Some [] then (Inr (), st)
      else if previous \<noteq> None \<and> previous \<noteq> Some partLtHashHex
      then (Inl (ErrIntakeRemovalMismatch partName), st)
      else
        (case rbind (parseAccumulatorHex L (fmget [] (UnpromotedSums s) ks))
                (\<lambda>acc. subHashes L acc [partLtHashHex]) of
           Inl e \<Rightarrow> (Inl (ErrAccumulator e), st)
         | Inr acc \<Rightarrow>
             persistInPlace w
               (s\<lparr>UnpromotedSums := fmupd ks (accumulatorHex L acc) (UnpromotedSums s),
                  IntakeParts := fmupd partKey [] (IntakeParts s)\<rparr>) st))"

definition DrainUnpromoted ::
    "'h :: ab_group_add lthash_lib \<Rightarrow> write_outcome \<Rightarrow> partitionKey \<Rightarrow> string list \<Rightarrow> stateStore \<Rightarrow>
     (state_error, unit) result \<times> stateStore" where
  "DrainUnpromoted L w k partLtHashHexes st =
     (let ks = pkey k; s = st_mem st in
      case rbind (parseAccumulatorHex L (fmget [] (UnpromotedSums s) ks))
             (\<lambda>acc. subHashes L acc partLtHashHexes) of
        Inl e \<Rightarrow> (Inl (ErrAccumulator e), st)
      | Inr acc \<Rightarrow>
          persistInPlace w
            (s\<lparr>UnpromotedSums := fmupd ks (accumulatorHex L acc) (UnpromotedSums s)\<rparr>) st)"

section \<open>Cleanup\<close>

fun checkRejectedPartsLoop ::
    "partitionKey \<Rightarrow> PartRef list \<Rightarrow> localState \<Rightarrow> (state_error, unit) result" where
  "checkRejectedPartsLoop k [] s = Inr ()"
| "checkRejectedPartsLoop k (p # ps) s =
     (if pr_TableID p \<noteq> pk_Table k \<or> pr_PartitionID p \<noteq> pk_Partition k
      then Inl (ErrCleanupPartElsewhere (pr_PartName p))
      else if pr_PartName p = [] then Inl ErrCleanupPartUnnamed
      else (case fmlookup (IntakeParts s) (intakePartKey k (pr_PartName p)) of
              Some recorded \<Rightarrow>
                (if recorded \<noteq> [] \<and> recorded \<noteq> pr_PartRowLtHash p
                 then Inl (ErrCleanupPartHash (pr_PartName p))
                 else checkRejectedPartsLoop k ps s)
            | None \<Rightarrow> checkRejectedPartsLoop k ps s))"

definition checkRejectedParts ::
    "partitionKey \<Rightarrow> u64 \<Rightarrow> PartRef list \<Rightarrow> localState \<Rightarrow> (state_error, unit) result" where
  "checkRejectedParts k promotionSeq parts s =
     (if promotionSeq \<noteq> 0 then Inl (ErrCleanupCarriesPromotion promotionSeq)
      else checkRejectedPartsLoop k parts s)"

definition CheckRejectedParts ::
    "partitionKey \<Rightarrow> u64 \<Rightarrow> PartRef list \<Rightarrow> stateStore \<Rightarrow> (state_error, unit) result" where
  "CheckRejectedParts k promotionSeq parts st = checkRejectedParts k promotionSeq parts (st_mem st)"

fun removeRejectedParts ::
    "'h :: ab_group_add lthash_lib \<Rightarrow> partitionKey \<Rightarrow> PartRef list \<Rightarrow> bool \<Rightarrow> localState \<Rightarrow>
     (state_error, bool \<times> localState) result" where
  "removeRejectedParts L k [] changed s = Inr (changed, s)"
| "removeRejectedParts L k (p # ps) changed s =
     (let partKey = intakePartKey k (pr_PartName p); ks = pkey k in
      if fmget [] (IntakeParts s) partKey = [] then removeRejectedParts L k ps changed s
      else
        (case rbind (parseAccumulatorHex L (fmget [] (UnpromotedSums s) ks))
                (\<lambda>acc. subHashes L acc [pr_PartRowLtHash p]) of
           Inl e \<Rightarrow> Inl (ErrAccumulator e)
         | Inr acc \<Rightarrow>
             removeRejectedParts L k ps True
               (s\<lparr>UnpromotedSums := fmupd ks (accumulatorHex L acc) (UnpromotedSums s),
                  IntakeParts := fmupd partKey [] (IntakeParts s)\<rparr>)))"

definition RecordExecutedCleanup ::
    "'h :: ab_group_add lthash_lib \<Rightarrow> write_outcome \<Rightarrow> UnsafeCleanup \<Rightarrow> CleanupAck \<Rightarrow> stateStore \<Rightarrow>
     (state_error, unit) result \<times> stateStore" where
  "RecordExecutedCleanup L w cmd ack st =
     (if ca_TableID ack \<noteq> uc_TableID cmd \<or> ca_PartitionID ack \<noteq> uc_PartitionID cmd \<or>
         ca_PromotionSeq ack \<noteq> uc_PromotionSeq cmd \<or>
         ca_RejectedBlockSeq ack \<noteq> uc_RejectedBlockSeq cmd
      then (Inl ErrNotItsAcknowledgement, st)
      else
        (let s = st_mem st;
             k = \<lparr>pk_Table = uc_TableID cmd, pk_Partition = uc_PartitionID cmd\<rparr>;
             removed =
               (if uc_RejectedBlockSeq cmd \<noteq> 0
                then rbind (checkRejectedParts k (uc_PromotionSeq cmd) (uc_Parts cmd) s)
                       (\<lambda>_. removeRejectedParts L k (uc_Parts cmd) False s)
                else Inr (False, s))
         in case removed of
              Inl e \<Rightarrow> (Inl e, st)
            | Inr (changed, s1) \<Rightarrow>
                (let (forgot, s2) = forgetPromotedParts k (map pr_PartName (uc_Parts cmd)) s1;
                     ak = cleanupAckKey ack;
                     owes = (fmlookup (OwedCleanupAcks s2) ak = Some ack);
                     s3 = (if owes then s2
                           else s2\<lparr>OwedCleanupAcks := fmupd ak ack (OwedCleanupAcks s2)\<rparr>)
                 in if \<not> changed \<and> \<not> forgot \<and> owes then (Inr (), st)
                    else persistStateLocked w s3 st)))"

definition ClearOwedCleanupAck ::
    "write_outcome \<Rightarrow> CleanupAck \<Rightarrow> stateStore \<Rightarrow> (state_error, unit) result \<times> stateStore" where
  "ClearOwedCleanupAck w ack st =
     (let ak = cleanupAckKey ack; s = st_mem st in
      if fmlookup (OwedCleanupAcks s) ak \<noteq> Some ack then (Inr (), st)
      else persistStateLocked w (s\<lparr>OwedCleanupAcks := fmdrop ak (OwedCleanupAcks s)\<rparr>) st)"

definition OwedCleanupAcksOf :: "stateStore \<Rightarrow> CleanupAck list" where
  "OwedCleanupAcksOf st =
     (let owed = OwedCleanupAcks (st_mem st) in
      map (\<lambda>ak. the (fmlookup owed ak)) (fmkeys owed))"

definition owedCleanupAckOf :: "string \<Rightarrow> localState \<Rightarrow> CleanupAck option" where
  "owedCleanupAckOf table s =
     find (\<lambda>ack. ca_TableID ack = table)
       (map (\<lambda>ak. the (fmlookup (OwedCleanupAcks s) ak)) (fmkeys (OwedCleanupAcks s)))"

section \<open>Registration sequence\<close>

definition NextRegistrationSeq ::
    "write_outcome \<Rightarrow> u64 \<Rightarrow> stateStore \<Rightarrow> (state_error, u64) result \<times> stateStore" where
  "NextRegistrationSeq w nowMillis st =
     (let s = st_mem st; nxt = max (RegistrationSeq s + 1) nowMillis in
      case persistStateLocked w (s\<lparr>RegistrationSeq := nxt\<rparr>) st of
        (Inl e, st') \<Rightarrow> (Inl e, st')
      | (Inr _, st') \<Rightarrow> (Inr nxt, st'))"

section \<open>What a state operation promises\<close>

text \<open>
  Every method that writes plans the next state from the one in memory and then persists it.
  \<open>plan_of\<close> reads the plan off a run on a store whose file does not exist: an error, a result without
  a write, or a result and the state to write. \<open>cloned_op\<close> is the contract of the methods that build
  a cloned next state, \<open>inplace_op\<close> that of the methods that change memory first. Both promise
  \<open>store_op\<close>: whatever the outcome of the write, memory and file each hold their old state or the
  planned one, and success means the planned state is in both places.
\<close>

type_synonym 'a state_run = "write_outcome \<Rightarrow> stateStore \<Rightarrow> (state_error, 'a) result \<times> stateStore"
type_synonym 'a state_plan = "(state_error, 'a \<times> localState option) result"

definition plan_of :: "'a state_run \<Rightarrow> localState \<Rightarrow> 'a state_plan" where
  "plan_of run s =
     (case run WriteOK \<lparr>st_mem = s, st_disk = None\<rparr> of
        (Inl e, _) \<Rightarrow> Inl e
      | (Inr a, st') \<Rightarrow> Inr (a, st_disk st'))"

definition run_plan :: "bool \<Rightarrow> write_outcome \<Rightarrow> 'a state_plan \<Rightarrow> stateStore \<Rightarrow>
    (state_error, 'a) result \<times> stateStore" where
  "run_plan inplace w p st =
     (case p of
        Inl e \<Rightarrow> (Inl e, st)
      | Inr (a, None) \<Rightarrow> (Inr a, st)
      | Inr (a, Some s') \<Rightarrow>
          (let (r, st') = persistStateLocked w s' (if inplace then st\<lparr>st_mem := s'\<rparr> else st)
           in (rbind r (\<lambda>_. Inr a), st')))"

definition planned :: "'a state_run \<Rightarrow> localState \<Rightarrow> localState" where
  "planned run s =
     (case plan_of run s of Inr (a, Some s') \<Rightarrow> s' | _ \<Rightarrow> s)"

text \<open>A property of the state in memory and of the state a restart would read.\<close>

definition store_all :: "(localState \<Rightarrow> bool) \<Rightarrow> stateStore \<Rightarrow> bool" where
  "store_all P st \<longleftrightarrow> P (st_mem st) \<and> P (readLocalState (st_disk st))"

locale store_op =
  fixes run :: "'a state_run"
  assumes memory: "st_mem (snd (run w st)) \<in> {st_mem st, planned run (st_mem st)}"
    and on_file: "st_disk (snd (run w st)) \<in> {st_disk st, Some (planned run (st_mem st))}"
    and result: "fst (run w st) = Inr a \<Longrightarrow> plan_of run (st_mem st) \<in> {Inr (a, None), Inr (a, Some (planned run (st_mem st)))}"
    and success: "fst (run w st) = Inr a \<Longrightarrow>
      st_mem (snd (run w st)) = planned run (st_mem st) \<and>
      (st_disk (snd (run w st)) = Some (planned run (st_mem st)) \<or> snd (run w st) = st)"
    and refusal: "plan_of run (st_mem st) = Inl e \<Longrightarrow> run w st = (Inl e, st)"
begin

lemma preserves:
  assumes "store_all P st" and "P (st_mem st) \<Longrightarrow> P (planned run (st_mem st))"
  shows "store_all P (snd (run w st))"
  using assms memory [of w st] on_file [of w st]
  unfolding store_all_def readLocalState_def by (auto split: option.splits)

end

locale cloned_op =
  fixes run :: "'a state_run"
  assumes clones: "run w st = run_plan False w (plan_of run (st_mem st)) st"
begin

lemma error_keeps_memory: "fst (run w st) = Inl e \<Longrightarrow> st_mem (snd (run w st)) = st_mem st"
  by (subst (asm) clones, subst clones)
    (auto simp: run_plan_def persistStateLocked_def split: sum.splits option.splits write_outcome.splits)

end

locale inplace_op =
  fixes run :: "'a state_run"
  assumes inplace: "run w st = run_plan True w (plan_of run (st_mem st)) st"
begin

lemma memory_ahead: "st_mem (snd (run w st)) = planned run (st_mem st)"
  by (subst inplace)
    (auto simp: run_plan_def planned_def persistStateLocked_def
      split: sum.splits option.splits write_outcome.splits)

end

lemma run_plan_store_op:
  assumes "\<And>w st. run w st = run_plan b w (plan_of run (st_mem st)) st"
  shows "store_op run"
proof
  fix w st a e
  note run = assms [of w st]
  show "st_mem (snd (run w st)) \<in> {st_mem st, planned run (st_mem st)}"
    by (subst run) (auto simp: run_plan_def planned_def persistStateLocked_def
      split: sum.splits option.splits write_outcome.splits)
  show "st_disk (snd (run w st)) \<in> {st_disk st, Some (planned run (st_mem st))}"
    by (subst run) (auto simp: run_plan_def planned_def persistStateLocked_def
      split: sum.splits option.splits write_outcome.splits)
  show "fst (run w st) = Inr a \<Longrightarrow>
      plan_of run (st_mem st) \<in> {Inr (a, None), Inr (a, Some (planned run (st_mem st)))}"
    by (subst (asm) run) (auto simp: run_plan_def planned_def persistStateLocked_def
      split: sum.splits option.splits write_outcome.splits)
  show "fst (run w st) = Inr a \<Longrightarrow>
      st_mem (snd (run w st)) = planned run (st_mem st) \<and>
      (st_disk (snd (run w st)) = Some (planned run (st_mem st)) \<or> snd (run w st) = st)"
    by (subst (asm) run, subst (1 2 3) run) (auto simp: run_plan_def planned_def persistStateLocked_def
      split: sum.splits option.splits write_outcome.splits)
  show "plan_of run (st_mem st) = Inl e \<Longrightarrow> run w st = (Inl e, st)"
    by (subst run) (simp add: run_plan_def)
qed

sublocale cloned_op \<subseteq> store_op run
  by (rule run_plan_store_op) (rule clones)

sublocale inplace_op \<subseteq> store_op run
  by (rule run_plan_store_op) (rule inplace)

section \<open>The operations keep their contracts\<close>

lemmas plan_defs = plan_of_def run_plan_def persistStateLocked_def persistInPlace_def Let_def

interpretation begin_promotion: cloned_op "\<lambda>w. BeginPromotion w k intent" for k intent
  by unfold_locales
    (auto simp: BeginPromotion_def plan_defs split: option.splits write_outcome.splits)

interpretation record_ack: cloned_op "\<lambda>w. RecordAck w k seq ack r i" for k seq ack r i
  by unfold_locales (simp add: RecordAck_def plan_defs split: write_outcome.splits)

interpretation record_settled: cloned_op "\<lambda>w. RecordSettledNotApplied w k seq ack r i"
  for k seq ack r i
  by unfold_locales (simp add: RecordSettledNotApplied_def plan_defs split: write_outcome.splits)

interpretation record_refreshed: cloned_op "\<lambda>w. RecordRefreshedAck w k ack" for k ack
  by unfold_locales
    (auto simp: RecordRefreshedAck_def plan_defs split: option.splits write_outcome.splits)

interpretation record_applied: cloned_op "\<lambda>w. RecordAppliedPromotion L w k seq ack r i hs ns"
  for L :: "'h :: ab_group_add lthash_lib" and k seq ack r i hs ns
  by unfold_locales
    (simp add: RecordAppliedPromotion_def plan_defs split: sum.splits write_outcome.splits)

interpretation executed_cleanup: cloned_op "\<lambda>w. RecordExecutedCleanup L w cmd ack"
  for L :: "'h :: ab_group_add lthash_lib" and cmd ack
  by unfold_locales
    (simp add: RecordExecutedCleanup_def plan_defs split: sum.splits prod.splits write_outcome.splits)

interpretation clear_owed: cloned_op "\<lambda>w. ClearOwedCleanupAck w ack" for ack
  by unfold_locales (simp add: ClearOwedCleanupAck_def plan_defs split: write_outcome.splits)

interpretation next_seq: cloned_op "\<lambda>w. NextRegistrationSeq w now" for now
  by unfold_locales (simp add: NextRegistrationSeq_def plan_defs split: write_outcome.splits)

interpretation add_unpromoted: inplace_op "\<lambda>w. AddUnpromoted L w k h"
  for L :: "'h :: ab_group_add lthash_lib" and k h
  by unfold_locales (simp add: AddUnpromoted_def plan_defs split: sum.splits write_outcome.splits)

interpretation add_part: inplace_op "\<lambda>w. AddUnpromotedPart L w k n h"
  for L :: "'h :: ab_group_add lthash_lib" and k n h
  by unfold_locales
    (simp add: AddUnpromotedPart_def plan_defs split: option.splits sum.splits write_outcome.splits)

interpretation remove_part: inplace_op "\<lambda>w. RemoveUnpromotedPart L w k n h"
  for L :: "'h :: ab_group_add lthash_lib" and k n h
  by unfold_locales
    (simp add: RemoveUnpromotedPart_def plan_defs split: sum.splits write_outcome.splits)

interpretation drain: inplace_op "\<lambda>w. DrainUnpromoted L w k hs"
  for L :: "'h :: ab_group_add lthash_lib" and k hs
  by unfold_locales (simp add: DrainUnpromoted_def plan_defs split: sum.splits write_outcome.splits)

section \<open>Keys\<close>

text \<open>
  Table and partition ids never contain the NUL byte that joins them in a key.
\<close>

abbreviation plain :: "string \<Rightarrow> bool" where
  "plain s \<equiv> NUL \<notin> set s"

abbreviation plain_key :: "partitionKey \<Rightarrow> bool" where
  "plain_key k \<equiv> plain (pk_Table k) \<and> plain (pk_Partition k)"

lemma HasPrefix_join:
  assumes "plain a" "plain t"
  shows "HasPrefix (a @ NUL # b) (t @ [NUL]) \<longleftrightarrow> a = t"
proof
  assume "HasPrefix (a @ NUL # b) (t @ [NUL])"
  then obtain r where "a @ NUL # b = t @ NUL # r" by (auto simp: HasPrefix_iff)
  from join_inject [OF assms this] show "a = t" ..
qed (auto simp: HasPrefix_iff)

lemma key_inject [simp]:
  assumes "plain t" "plain t'"
  shows "key t p = key t' p' \<longleftrightarrow> t = t' \<and> p = p'"
  using join_inject [OF assms, of p p'] by (auto simp: key_def)

lemma pkey_inject [simp]:
  assumes "plain_key k" "plain_key k'"
  shows "pkey k = pkey k' \<longleftrightarrow> k = k'"
  using assms by (cases k; cases k') auto

lemma splitKey_key [simp]: "plain t \<Longrightarrow> splitKey (key t p) = (\<lparr>pk_Table = t, pk_Partition = p\<rparr>, True)"
  by (simp add: splitKey_def key_def Cut_append)

lemma HasPrefix_key [simp]:
  "plain t \<Longrightarrow> plain table \<Longrightarrow> HasPrefix (key t p) (table @ [NUL]) \<longleftrightarrow> t = table"
  by (simp add: key_def HasPrefix_join)

lemma intakePartKey_eq: "intakePartKey k n = key (pk_Table k) (pk_Partition k @ NUL # n)"
  by (simp add: intakePartKey_def key_def)

lemma HasPrefix_intake_table [simp]:
  "plain (pk_Table k) \<Longrightarrow> plain table \<Longrightarrow>
   HasPrefix (intakePartKey k n) (table @ [NUL]) \<longleftrightarrow> pk_Table k = table"
  by (simp add: intakePartKey_eq)

lemma intakePartKey_inject [simp]:
  assumes "plain_key k" "plain_key k'"
  shows "intakePartKey k n = intakePartKey k' n' \<longleftrightarrow> k = k' \<and> n = n'"
proof
  assume eq: "intakePartKey k n = intakePartKey k' n'"
  then have t: "pk_Table k = pk_Table k'" and
    "pk_Partition k @ NUL # n = pk_Partition k' @ NUL # n'"
    using assms by (simp_all add: intakePartKey_eq)
  moreover from this(2) have "pk_Partition k = pk_Partition k' \<and> n = n'"
    using assms by (intro join_inject) auto
  ultimately show "k = k' \<and> n = n'" by simp
qed simp

lemma cleanupAckKey_inject:
  assumes "plain (ca_TableID a)" "plain (ca_PartitionID a)" "plain (ca_TableID b)" "plain (ca_PartitionID b)"
  shows "cleanupAckKey a = cleanupAckKey b \<longleftrightarrow>
    ca_TableID a = ca_TableID b \<and> ca_PartitionID a = ca_PartitionID b \<and>
    ca_PromotionSeq a = ca_PromotionSeq b \<and> ca_RejectedBlockSeq a = ca_RejectedBlockSeq b"
proof
  assume "cleanupAckKey a = cleanupAckKey b"
  then have eq: "ca_TableID a @ NUL # (ca_PartitionID a @ NUL #
      (FormatUint (ca_PromotionSeq a) @ NUL # FormatUint (ca_RejectedBlockSeq a))) =
      ca_TableID b @ NUL # (ca_PartitionID b @ NUL #
      (FormatUint (ca_PromotionSeq b) @ NUL # FormatUint (ca_RejectedBlockSeq b)))"
    by (simp add: cleanupAckKey_def key_def)
  note 1 = join_inject [OF assms(1,3) eq]
  note 2 = join_inject [OF assms(2,4) conjunct2 [OF 1]]
  note 3 = join_inject [OF FormatUint_no_NUL FormatUint_no_NUL conjunct2 [OF 2]]
  from 1 2 3 show "ca_TableID a = ca_TableID b \<and> ca_PartitionID a = ca_PartitionID b \<and>
    ca_PromotionSeq a = ca_PromotionSeq b \<and> ca_RejectedBlockSeq a = ca_RejectedBlockSeq b"
    by simp
qed (simp add: cleanupAckKey_def)

section \<open>Owed acknowledgements\<close>

lemma owedCleanupAckOf_None:
  "owedCleanupAckOf table s = None \<longleftrightarrow>
     (\<forall>ak ack. fmlookup (OwedCleanupAcks s) ak = Some ack \<longrightarrow> ca_TableID ack \<noteq> table)"
  by (auto simp: owedCleanupAckOf_def find_None_iff fmlookup_dom_iff)
    (metis fmdomI option.sel)+

end
