(* ===== verification/SNode_Purge.thy ===== *)
theory SNode_Purge
  imports SNode_State
begin

text \<open>
  The state-store half of the purge gate and of forgetting a dropped table
  (\<open>snode/registry.go\<close>: \<open>quiescent\<close>, \<open>ForgetTable\<close>), and the journal writer of an owner rebuild
  (\<open>snode/rebuilt_inventory.go\<close>).

  The loops over the state's maps run in key order here. Go leaves the order open; it can only
  matter when an accumulator entry does not parse, which \<open>SNode_Ledger\<close> excludes on every reachable
  state.
\<close>

section \<open>The purge gate\<close>

abbreviation prefixed :: "string \<Rightarrow> (string, 'v) fmap \<Rightarrow> string list" where
  "prefixed table m \<equiv> filter (\<lambda>ks. HasPrefix ks (table @ [NUL])) (fmkeys m)"

text \<open>The loop over the unpromoted sums: \<open>Inr False\<close> at the first one that is not zero.\<close>

fun sumsZero :: "'h :: ab_group_add lthash_lib \<Rightarrow> string list \<Rightarrow> (state_error, bool) result" where
  "sumsZero L [] = Inr True"
| "sumsZero L (sm # sums) =
     (case parseAccumulatorHex L sm of
        Inl e \<Rightarrow> Inl (ErrAccumulator e)
      | Inr acc \<Rightarrow> if lt_Bytes L acc \<noteq> lt_Bytes L 0 then Inr False else sumsZero L sums)"

definition quiescent ::
    "'h :: ab_group_add lthash_lib \<Rightarrow> string \<Rightarrow> stateStore \<Rightarrow> (state_error, bool) result" where
  "quiescent L table st =
     (let s = st_mem st in
      if prefixed table (PromotionIntents s) \<noteq> [] then Inr False
      else if (\<exists>ks \<in> set (prefixed table (PromotedUnsafeParts s)).
                 length (fmget [] (PromotedUnsafeParts s) ks) > 0) then Inr False
      else rbind (sumsZero L (map (fmget [] (UnpromotedSums s)) (prefixed table (UnpromotedSums s))))
             (\<lambda>zero. if \<not> zero then Inr False
                     else Inr (owedCleanupAckOf table s = None)))"

abbreviation forgetMap :: "string \<Rightarrow> (string, 'v) fmap \<Rightarrow> (string, 'v) fmap" where
  "forgetMap table m \<equiv> fmfilter (\<lambda>ks. \<not> HasPrefix ks (table @ [NUL])) m"

definition ForgetTable ::
    "'h :: ab_group_add lthash_lib \<Rightarrow> write_outcome \<Rightarrow> string \<Rightarrow> stateStore \<Rightarrow>
     (state_error, unit) result \<times> stateStore" where
  "ForgetTable L w table st =
     (let s = st_mem st in
      if prefixed table (PromotionIntents s) \<noteq> [] then (Inl ErrForgetIntent, st)
      else if (\<exists>ks \<in> set (prefixed table (PromotedUnsafeParts s)).
                 length (fmget [] (PromotedUnsafeParts s) ks) > 0) then (Inl ErrForgetPromotedParts, st)
      else
        (case sumsZero L (map (fmget [] (UnpromotedSums s)) (prefixed table (UnpromotedSums s))) of
           Inl e \<Rightarrow> (Inl e, st)
         | Inr zero \<Rightarrow>
             (if \<not> zero then (Inl ErrForgetUnpromoted, st)
              else
                (case owedCleanupAckOf table s of
                   Some ack \<Rightarrow> (Inl (ErrForgetOwedAck ack), st)
                 | None \<Rightarrow>
                     (let changed =
                            (prefixed table (BaseRoots s) \<noteq> [] \<or>
                             prefixed table (BaseSnapshotIDs s) \<noteq> [] \<or>
                             prefixed table (UnpromotedSums s) \<noteq> [] \<or>
                             prefixed table (LastAcks s) \<noteq> [] \<or>
                             prefixed table (IntakeParts s) \<noteq> [] \<or>
                             prefixed table (PromotedUnsafeParts s) \<noteq> [] \<or>
                             prefixed table (AckedSafeInventories s) \<noteq> []);
                          nxt = s\<lparr>BaseRoots := forgetMap table (BaseRoots s),
                                  BaseSnapshotIDs := forgetMap table (BaseSnapshotIDs s),
                                  UnpromotedSums := forgetMap table (UnpromotedSums s),
                                  LastAcks := forgetMap table (LastAcks s),
                                  IntakeParts := forgetMap table (IntakeParts s),
                                  PromotedUnsafeParts := forgetMap table (PromotedUnsafeParts s),
                                  AckedSafeInventories := forgetMap table (AckedSafeInventories s)\<rparr>
                      in if \<not> changed then (Inr (), st) else persistStateLocked w nxt st)))))"

interpretation forget_table: cloned_op "\<lambda>w. ForgetTable L w table"
  for L :: "'h :: ab_group_add lthash_lib" and table
  by unfold_locales
    (auto simp: ForgetTable_def plan_defs split: option.splits sum.splits write_outcome.splits)

section \<open>The journal of an owner rebuild\<close>

text \<open>\<open>Parts\<close> is an option: the check tells a nil slice from an empty one.\<close>

record RebuiltSafeInventory =
  ri_TableID :: string
  ri_PartitionID :: string
  ri_PublishSeq :: u64
  ri_Parts :: "SafePartMapping list option"

definition sameMappings :: "SafePartMapping list \<Rightarrow> SafePartMapping list \<Rightarrow> bool" where
  "sameMappings a b \<longleftrightarrow> length a = length b \<and> consume (counts a) b \<noteq> None"

definition checkRebuild :: "RebuiltSafeInventory list \<Rightarrow> localState \<Rightarrow> (state_error, unit) result" where
  "checkRebuild inventories s =
     (if fmkeys (PromotionIntents s) \<noteq> [] then Inl ErrRebuildIntentPending
      else case find (\<lambda>ri. fmget 0 (Watermarks s) (key (ri_TableID ri) (ri_PartitionID ri)) < ri_PublishSeq ri)
                  inventories of
             Some ri \<Rightarrow> Inl (ErrRebuildJournalBehind (ri_TableID ri) (ri_PartitionID ri)
                         (fmget 0 (Watermarks s) (key (ri_TableID ri) (ri_PartitionID ri))) (ri_PublishSeq ri))
           | None \<Rightarrow> Inr ())"

definition CheckRebuildJournal ::
    "localState option \<Rightarrow> RebuiltSafeInventory list \<Rightarrow> (state_error, bool list) result" where
  "CheckRebuildJournal stateFile inventories =
     (let s = readLocalState stateFile in
      rbind (checkRebuild inventories s)
        (\<lambda>_. Inr (map (\<lambda>ri.
           case fmlookup (AckedSafeInventories s) (key (ri_TableID ri) (ri_PartitionID ri)) of
             None \<Rightarrow> False
           | Some got \<Rightarrow> inv_Rebuilt got \<and> inv_PromotionSeq got = ri_PublishSeq ri \<and>
               (case ri_Parts ri of None \<Rightarrow> True | Some ps \<Rightarrow> sameMappings (inv_Parts got) ps))
           inventories)))"

definition rebuiltEntry :: "RebuiltSafeInventory \<Rightarrow> ackedSafeInventory" where
  "rebuiltEntry ri =
     \<lparr>inv_PromotionSeq = ri_PublishSeq ri,
      inv_Parts = (case ri_Parts ri of None \<Rightarrow> [] | Some ps \<Rightarrow> ps), inv_Rebuilt = True\<rparr>"

text \<open>The store the writer opens is its own; only the file outlives the call.\<close>

definition RecordRebuiltSafeInventories ::
    "write_outcome \<Rightarrow> localState option \<Rightarrow> RebuiltSafeInventory list \<Rightarrow>
     (state_error, unit) result \<times> localState option" where
  "RecordRebuiltSafeInventories w stateFile inventories =
     (case CheckRebuildJournal stateFile inventories of
        Inl e \<Rightarrow> (Inl e, stateFile)
      | Inr _ \<Rightarrow>
          (let st = openStateStore stateFile; s = st_mem st in
           case checkRebuild inventories s of
             Inl e \<Rightarrow> (Inl e, stateFile)
           | Inr _ \<Rightarrow>
               (let nxt = s\<lparr>AckedSafeInventories :=
                       foldl (\<lambda>m ri. fmupd (key (ri_TableID ri) (ri_PartitionID ri)) (rebuiltEntry ri) m)
                         (AckedSafeInventories s) inventories\<rparr>;
                    (r, st') = persistStateLocked w nxt st
                in (r, st_disk st'))))"

section \<open>Quiescence\<close>

lemma prefixed_empty:
  "prefixed table m = [] \<longleftrightarrow> (\<forall>ks. HasPrefix ks (table @ [NUL]) \<longrightarrow> fmlookup m ks = None)"
  by (auto simp: filter_empty_conv fmlookup_dom_iff)

lemma prefixed_fmget:
  "(\<exists>ks \<in> set (prefixed table m). length (fmget [] m ks) > 0) \<longleftrightarrow>
     (\<exists>ks. HasPrefix ks (table @ [NUL]) \<and> fmget [] m ks \<noteq> [])"
  by (auto simp: fmlookup_dom_iff fmget_def split: option.splits)

lemma forgetMap_idle: "prefixed table m = [] \<Longrightarrow> forgetMap table m = m"
  by (rule fmap_ext) (auto simp: prefixed_empty fmlookup_filter)

lemma gate_chain:
  "(if A then Inr False else if B then Inr False
    else rbind r (\<lambda>z. if \<not> z then Inr False else Inr C)) = Inr True \<longleftrightarrow>
   \<not> A \<and> \<not> B \<and> r = Inr True \<and> C"
  by (cases r) auto

text \<open>No work of any kind still references the table.\<close>

definition idle :: "'h :: ab_group_add lthash_lib \<Rightarrow> string \<Rightarrow> localState \<Rightarrow> bool" where
  "idle L table s \<longleftrightarrow>
     (\<forall>ks. HasPrefix ks (table @ [NUL]) \<longrightarrow>
        fmlookup (PromotionIntents s) ks = None \<and> fmget [] (PromotedUnsafeParts s) ks = [] \<and>
        parses L (fmget [] (UnpromotedSums s) ks) \<and> denotes L (fmget [] (UnpromotedSums s) ks) = 0) \<and>
     (\<forall>ak ack. fmlookup (OwedCleanupAcks s) ak = Some ack \<longrightarrow> ca_TableID ack \<noteq> table)"

text \<open>The state \<open>ForgetTable\<close> leaves.\<close>

definition forgotten :: "string \<Rightarrow> localState \<Rightarrow> localState" where
  "forgotten table s =
     s\<lparr>BaseRoots := forgetMap table (BaseRoots s),
       BaseSnapshotIDs := forgetMap table (BaseSnapshotIDs s),
       UnpromotedSums := forgetMap table (UnpromotedSums s),
       LastAcks := forgetMap table (LastAcks s),
       IntakeParts := forgetMap table (IntakeParts s),
       PromotedUnsafeParts := forgetMap table (PromotedUnsafeParts s),
       AckedSafeInventories := forgetMap table (AckedSafeInventories s)\<rparr>"

text \<open>What that leaves of each map, entry by entry.\<close>

definition table_forgotten :: "string \<Rightarrow> localState \<Rightarrow> localState \<Rightarrow> bool" where
  "table_forgotten table s s' \<longleftrightarrow>
     Watermarks s' = Watermarks s \<and> OwedCleanupAcks s' = OwedCleanupAcks s \<and>
     PromotionIntents s' = PromotionIntents s \<and> RegistrationSeq s' = RegistrationSeq s \<and>
     (\<forall>t p. plain t \<longrightarrow>
        fmlookup (BaseRoots s') (key t p) = (if t = table then None else fmlookup (BaseRoots s) (key t p)) \<and>
        fmlookup (BaseSnapshotIDs s') (key t p) = (if t = table then None else fmlookup (BaseSnapshotIDs s) (key t p)) \<and>
        fmlookup (UnpromotedSums s') (key t p) = (if t = table then None else fmlookup (UnpromotedSums s) (key t p)) \<and>
        fmlookup (LastAcks s') (key t p) = (if t = table then None else fmlookup (LastAcks s) (key t p)) \<and>
        fmlookup (IntakeParts s') (key t p) = (if t = table then None else fmlookup (IntakeParts s) (key t p)) \<and>
        fmlookup (PromotedUnsafeParts s') (key t p) =
          (if t = table then None else fmlookup (PromotedUnsafeParts s) (key t p)) \<and>
        fmlookup (AckedSafeInventories s') (key t p) =
          (if t = table then None else fmlookup (AckedSafeInventories s) (key t p)))"

lemma forgotten_frame: "plain table \<Longrightarrow> table_forgotten table s (forgotten table s)"
  by (simp add: table_forgotten_def forgotten_def)

context lthash
begin

lemma Bytes_inject [simp]: "lt_Bytes L a = lt_Bytes L b \<longleftrightarrow> a = b"
  by (metis FromBytes_Bytes option.inject)

lemma sumsZero_True:
  "sumsZero L sums = Inr True \<longleftrightarrow> (\<forall>x \<in> set sums. parses L x \<and> denotes L x = 0)"
proof (induction sums)
  case (Cons x sums)
  show ?case
  proof (cases "parseAccumulatorHex L x")
    case (Inr acc)
    with parse_InrD [OF Inr] Cons.IH show ?thesis by simp
  qed (simp add: parses_def)
qed simp

lemma sums_idle:
  "sumsZero L (map (fmget [] m) (prefixed table m)) = Inr True \<longleftrightarrow>
     (\<forall>ks. HasPrefix ks (table @ [NUL]) \<longrightarrow> parses L (fmget [] m ks) \<and> denotes L (fmget [] m ks) = 0)"
  by (auto simp: sumsZero_True fmlookup_dom_iff fmget_def split: option.splits)

lemma quiescent_idle: "quiescent L table st = Inr True \<longleftrightarrow> idle L table (st_mem st)"
proof -
  let ?s = "st_mem st"
  have "quiescent L table st = Inr True \<longleftrightarrow>
      prefixed table (PromotionIntents ?s) = [] \<and>
      \<not> (\<exists>ks \<in> set (prefixed table (PromotedUnsafeParts ?s)). length (fmget [] (PromotedUnsafeParts ?s) ks) > 0) \<and>
      sumsZero L (map (fmget [] (UnpromotedSums ?s)) (prefixed table (UnpromotedSums ?s))) = Inr True \<and>
      owedCleanupAckOf table ?s = None"
    unfolding quiescent_def Let_def gate_chain not_not ..
  then show ?thesis
    unfolding prefixed_empty prefixed_fmget sums_idle owedCleanupAckOf_None idle_def by blast
qed

lemma ForgetTable_ok:
  "fst (ForgetTable L w table st) = Inr () \<Longrightarrow> idle L table (st_mem st)"
  unfolding quiescent_idle [symmetric] quiescent_def ForgetTable_def Let_def
  by (auto split: if_splits sum.splits option.splits)

lemma ForgetTable_idle:
  assumes "idle L table (st_mem st)"
  shows "plan_of (\<lambda>w. ForgetTable L w table) (st_mem st) \<in>
    {Inr ((), Some (forgotten table (st_mem st))), Inr ((), None)} \<and>
    planned (\<lambda>w. ForgetTable L w table) (st_mem st) = forgotten table (st_mem st)"
proof -
  let ?s = "st_mem st"
  let ?work = "prefixed table (BaseRoots ?s) \<noteq> [] \<or> prefixed table (BaseSnapshotIDs ?s) \<noteq> [] \<or>
    prefixed table (UnpromotedSums ?s) \<noteq> [] \<or> prefixed table (LastAcks ?s) \<noteq> [] \<or>
    prefixed table (IntakeParts ?s) \<noteq> [] \<or> prefixed table (PromotedUnsafeParts ?s) \<noteq> [] \<or>
    prefixed table (AckedSafeInventories ?s) \<noteq> []"
  from assms have intents: "prefixed table (PromotionIntents ?s) = []"
    and parts: "\<not> (\<exists>ks \<in> set (prefixed table (PromotedUnsafeParts ?s)). length (fmget [] (PromotedUnsafeParts ?s) ks) > 0)"
    and sums: "sumsZero L (map (fmget [] (UnpromotedSums ?s)) (prefixed table (UnpromotedSums ?s))) = Inr True"
    and owed: "owedCleanupAckOf table ?s = None"
    unfolding prefixed_empty prefixed_fmget sums_idle owedCleanupAckOf_None idle_def by blast+
  have plan: "plan_of (\<lambda>w. ForgetTable L w table) ?s =
      Inr ((), if ?work then Some (forgotten table ?s) else None)"
    unfolding plan_of_def ForgetTable_def Let_def
    by (simp only: intents parts sums owed stateStore.simps if_False sum.case option.case simp_thms)
      (simp add: persistStateLocked_def forgotten_def)
  have "\<not> ?work \<Longrightarrow> forgotten table ?s = ?s"
    unfolding forgotten_def by (simp only: de_Morgan_disj not_not forgetMap_idle) simp
  with plan show ?thesis by (auto simp: planned_def)
qed

lemma ForgetTable_good:
  assumes "idle L table (st_mem st)"
  shows "fst (ForgetTable L WriteOK table st) = Inr ()"
  using ForgetTable_idle [OF assms] by (subst forget_table.clones)
    (auto simp: run_plan_def persistStateLocked_def)

end

section \<open>Rebuilt inventories\<close>

lemma sameMappings_iff: "sameMappings a b \<longleftrightarrow> mset a = mset b"
proof
  assume "sameMappings a b"
  then have len: "length a = length b" and sub: "mset b \<subseteq># mset a"
    by (auto simp: sameMappings_def counts_eq consume_count split: if_splits)
  have "size (mset a) = size (mset b)" using len by simp
  with sub show "mset a = mset b"
    by (metis mset_subset_size nless_le subset_mset.nless_le)
next
  assume "mset a = mset b"
  then show "sameMappings a b"
    using mset_eq_length by (auto simp: sameMappings_def counts_eq consume_count)
qed

lemma rebuilt_lookup:
  "fmlookup (foldl (\<lambda>m ri. fmupd (key (ri_TableID ri) (ri_PartitionID ri)) (rebuiltEntry ri) m) m ris) ks =
     (case find (\<lambda>ri. key (ri_TableID ri) (ri_PartitionID ri) = ks) (rev ris) of
        Some ri \<Rightarrow> Some (rebuiltEntry ri) | None \<Rightarrow> fmlookup m ks)"
proof (induction ris rule: rev_induct)
  case (snoc ri ris)
  then show ?case by (auto split: option.splits)
qed simp

lemma find_distinct:
  assumes "distinct (map f xs)" "x \<in> set xs"
  shows "find (\<lambda>y. f y = f x) xs = Some x"
  using assms by (induction xs) (auto simp: rev_image_eqI)

lemma checkRebuild_frame:
  "Watermarks s' = Watermarks s \<Longrightarrow> PromotionIntents s' = PromotionIntents s \<Longrightarrow>
   checkRebuild ris s' = checkRebuild ris s"
  by (simp add: checkRebuild_def cong: option.case_cong)

text \<open>What the writer does when it does not refuse.\<close>

lemma RecordRebuilt_run:
  assumes "checkRebuild ris (readLocalState file) = Inr ()"
  shows "RecordRebuiltSafeInventories w file ris =
    (case w of
       WriteOK \<Rightarrow> (Inr (), Some (readLocalState file\<lparr>AckedSafeInventories :=
          foldl (\<lambda>m ri. fmupd (key (ri_TableID ri) (ri_PartitionID ri)) (rebuiltEntry ri) m)
            (AckedSafeInventories (readLocalState file)) ris\<rparr>))
     | WriteFailed \<Rightarrow> (Inl ErrPersist, file)
     | WriteUnsynced \<Rightarrow> (Inl ErrPersist, Some (readLocalState file\<lparr>AckedSafeInventories :=
          foldl (\<lambda>m ri. fmupd (key (ri_TableID ri) (ri_PartitionID ri)) (rebuiltEntry ri) m)
            (AckedSafeInventories (readLocalState file)) ris\<rparr>)))"
  using assms
  by (simp add: RecordRebuiltSafeInventories_def CheckRebuildJournal_def openStateStore_def Let_def
      persistStateLocked_def split: write_outcome.split)

lemma RecordRebuilt_ok:
  assumes "RecordRebuiltSafeInventories w f ris = (Inr (), f')"
  shows "checkRebuild ris (readLocalState f) = Inr () \<and> w = WriteOK"
proof (cases "checkRebuild ris (readLocalState f)")
  case (Inr u)
  then have c: "checkRebuild ris (readLocalState f) = Inr ()" by simp
  from assms RecordRebuilt_run [OF c, of w] c show ?thesis by (cases w) auto
next
  case (Inl e)
  with assms show ?thesis by (simp add: RecordRebuiltSafeInventories_def CheckRebuildJournal_def Let_def)
qed

section \<open>Properties\<close>

text \<open>
  C16. The purge gate and forgetting agree. \<open>quiescent\<close> answers true exactly when no promotion
  intent, no promoted part awaiting cleanup, no unpromoted rows and no owed cleanup acknowledgement
  of the table is left; \<open>ForgetTable\<close> with a good write succeeds exactly then; and when it succeeds,
  in memory and after a restart, every base, sum, acknowledgement and inventory of the table is
  gone, those of every other table and all watermarks are as before.
\<close>

theorem ForgetTable_iff_quiescent:
  assumes "lthash L" and "plain table"
  shows "(quiescent L table st = Inr True \<longleftrightarrow> idle L table (st_mem st)) \<and>
    (fst (ForgetTable L WriteOK table st) = Inr () \<longleftrightarrow> idle L table (st_mem st)) \<and>
    (fst (ForgetTable L w table st) = Inr () \<longrightarrow>
       table_forgotten table (st_mem st) (st_mem (snd (ForgetTable L w table st))) \<and>
       (st_disk (snd (ForgetTable L w table st)) = Some (st_mem (snd (ForgetTable L w table st))) \<or>
        snd (ForgetTable L w table st) = st))"
proof (intro conjI impI)
  show "quiescent L table st = Inr True \<longleftrightarrow> idle L table (st_mem st)"
    by (rule lthash.quiescent_idle) fact
  show "fst (ForgetTable L WriteOK table st) = Inr () \<longleftrightarrow> idle L table (st_mem st)"
    using lthash.ForgetTable_ok [OF assms(1), of WriteOK table st]
      lthash.ForgetTable_good [OF assms(1), of table st] by blast
next
  assume ok: "fst (ForgetTable L w table st) = Inr ()"
  then have mem: "st_mem (snd (ForgetTable L w table st)) = forgotten table (st_mem st)"
    using forget_table.success
      conjunct2 [OF lthash.ForgetTable_idle [OF assms(1) lthash.ForgetTable_ok [OF assms(1) ok]]]
    by metis
  show "table_forgotten table (st_mem st) (st_mem (snd (ForgetTable L w table st)))"
    unfolding mem using assms(2) by (rule forgotten_frame)
  show "st_disk (snd (ForgetTable L w table st)) = Some (st_mem (snd (ForgetTable L w table st))) \<or>
      snd (ForgetTable L w table st) = st"
    using forget_table.success [OF ok] by metis
qed

definition purge_demo :: stateStore where
  "purge_demo = openStateStore (Some (newLocalState
     \<lparr>Watermarks := fmupd (key ''t'' ''p'') 7 fmempty,
      BaseRoots := fmupd (key ''u'' ''p'') ''0x2000'' (fmupd (key ''t'' ''p'') ''0xab00'' fmempty),
      UnpromotedSums := fmupd (key ''u'' ''p'') ''0x2000'' (fmupd (key ''t'' ''p'') ''0x0000'' fmempty)\<rparr>))"

lemma purge_demo_idle: "idle lane_lib ''t'' (st_mem purge_demo)"
  by (auto simp: idle_def purge_demo_def openStateStore_def readLocalState_def newLocalState_def
      denotes_def parses_def lane_parse key_def HasPrefix_def)

theorem ForgetTable_iff_quiescent_witness:
  "lthash lane_lib \<and> quiescent lane_lib ''t'' purge_demo = Inr True \<and>
   fst (ForgetTable lane_lib WriteOK ''t'' purge_demo) = Inr () \<and>
   fmlookup (BaseRoots (st_mem (snd (ForgetTable lane_lib WriteOK ''t'' purge_demo)))) (key ''t'' ''p'') = None \<and>
   fmlookup (BaseRoots (st_mem (snd (ForgetTable lane_lib WriteOK ''t'' purge_demo)))) (key ''u'' ''p'') =
     Some ''0x2000''"
proof -
  have "plain ''t''" by simp
  note spec = ForgetTable_iff_quiescent [OF lane.lthash_axioms this, of purge_demo WriteOK]
  with purge_demo_idle have ok: "fst (ForgetTable lane_lib WriteOK ''t'' purge_demo) = Inr ()" by blast
  with spec have "table_forgotten ''t'' (st_mem purge_demo)
      (st_mem (snd (ForgetTable lane_lib WriteOK ''t'' purge_demo)))" by blast
  then show ?thesis using spec ok purge_demo_idle lane.lthash_axioms
    by (simp add: table_forgotten_def purge_demo_def openStateStore_def readLocalState_def)
qed

abbreviation rebuilt_key :: "RebuiltSafeInventory \<Rightarrow> string" where
  "rebuilt_key ri \<equiv> key (ri_TableID ri) (ri_PartitionID ri)"

lemma rebuilt_map:
  fixes a :: "(string, ackedSafeInventory) fmap" and ris :: "RebuiltSafeInventory list"
  defines "m \<equiv> foldl (\<lambda>m ri. fmupd (rebuilt_key ri) (rebuiltEntry ri) m) a ris"
  shows "distinct (map rebuilt_key ris) \<Longrightarrow> ri \<in> set ris \<Longrightarrow> fmlookup m (rebuilt_key ri) = Some (rebuiltEntry ri)"
    and "ks \<notin> rebuilt_key ` set ris \<Longrightarrow> fmlookup m ks = fmlookup a ks"
proof -
  show "fmlookup m (rebuilt_key ri) = Some (rebuiltEntry ri)" if "distinct (map rebuilt_key ris)" "ri \<in> set ris"
    unfolding m_def rebuilt_lookup using that by (subst find_distinct) (simp_all add: rev_map [symmetric])
  assume "ks \<notin> rebuilt_key ` set ris"
  then have "find (\<lambda>ri. rebuilt_key ri = ks) (rev ris) = None" by (auto simp: find_None_iff)
  then show "fmlookup m ks = fmlookup a ks" unfolding m_def rebuilt_lookup by simp
qed

lemma CheckRebuild_recorded:
  assumes "checkRebuild ris (readLocalState f) = Inr ()"
    and "\<And>ri. ri \<in> set ris \<Longrightarrow> fmlookup (AckedSafeInventories (readLocalState f)) (rebuilt_key ri) = Some (rebuiltEntry ri)"
  shows "CheckRebuildJournal f ris = Inr (replicate (length ris) True)"
proof -
  have "map (\<lambda>ri. case fmlookup (AckedSafeInventories (readLocalState f)) (rebuilt_key ri) of None \<Rightarrow> False
      | Some got \<Rightarrow> inv_Rebuilt got \<and> inv_PromotionSeq got = ri_PublishSeq ri \<and>
          (case ri_Parts ri of None \<Rightarrow> True | Some ps \<Rightarrow> sameMappings (inv_Parts got) ps)) ris = map (\<lambda>_. True) ris"
    by (rule map_cong) (simp_all add: assms(2) rebuiltEntry_def sameMappings_iff split: option.split)
  with assms(1) show ?thesis unfolding CheckRebuildJournal_def Let_def by (simp add: map_replicate_const)
qed

text \<open>
  C18. The journal writer of an owner rebuild. It writes nothing when it refuses: a pending intent,
  or a watermark below the arbiter's publish sequence. When it succeeds the precheck of a later run
  finds every inventory in place, names included, and nothing but those partitions' inventories has
  changed.
\<close>

theorem RecordRebuilt_then_Check:
  assumes "distinct (map (\<lambda>ri. key (ri_TableID ri) (ri_PartitionID ri)) ris)"
    and "RecordRebuiltSafeInventories w f ris = (r, f')"
  shows "(CheckRebuildJournal f ris = Inl e \<longrightarrow> r = Inl e \<and> f' = f) \<and>
    (r = Inr () \<longrightarrow>
       CheckRebuildJournal f' ris = Inr (replicate (length ris) True) \<and>
       (\<forall>ri \<in> set ris. ri_PublishSeq ri \<le>
          fmget 0 (Watermarks (readLocalState f')) (key (ri_TableID ri) (ri_PartitionID ri))) \<and>
       (\<exists>m. readLocalState f' = readLocalState f\<lparr>AckedSafeInventories := m\<rparr> \<and>
          (\<forall>ks. ks \<notin> (\<lambda>ri. key (ri_TableID ri) (ri_PartitionID ri)) ` set ris \<longrightarrow>
             fmlookup m ks = fmlookup (AckedSafeInventories (readLocalState f)) ks)))"
proof (intro conjI impI)
  assume "CheckRebuildJournal f ris = Inl e"
  then show "r = Inl e" "f' = f" using assms(2) by (auto simp: RecordRebuiltSafeInventories_def)
next
  assume "r = Inr ()"
  with assms(2) RecordRebuilt_ok have c: "checkRebuild ris (readLocalState f) = Inr ()"
    and w: "w = WriteOK" by blast+
  let ?m = "foldl (\<lambda>m ri. fmupd (rebuilt_key ri) (rebuiltEntry ri) m) (AckedSafeInventories (readLocalState f)) ris"
  have "f' = Some (readLocalState f\<lparr>AckedSafeInventories := ?m\<rparr>)"
    using RecordRebuilt_run [OF c, of w] assms(2) w by simp
  then have s': "readLocalState f' = readLocalState f\<lparr>AckedSafeInventories := ?m\<rparr>"
    by (simp add: readLocalState_def)
  have c': "checkRebuild ris (readLocalState f') = Inr ()"
    using c by (subst checkRebuild_frame [of _ "readLocalState f"]) (simp_all add: s')
  show "CheckRebuildJournal f' ris = Inr (replicate (length ris) True)"
    by (rule CheckRebuild_recorded [OF c']) (simp add: s' rebuilt_map(1) [OF assms(1)])
  show "\<forall>ri \<in> set ris. ri_PublishSeq ri \<le> fmget 0 (Watermarks (readLocalState f')) (rebuilt_key ri)"
    using c' by (auto simp: checkRebuild_def find_None_iff split: if_splits option.splits)
  show "\<exists>m. readLocalState f' = readLocalState f\<lparr>AckedSafeInventories := m\<rparr> \<and>
      (\<forall>ks. ks \<notin> rebuilt_key ` set ris \<longrightarrow> fmlookup m ks = fmlookup (AckedSafeInventories (readLocalState f)) ks)"
    using s' rebuilt_map(2) by blast
qed

definition rebuilt_demo :: RebuiltSafeInventory where
  "rebuilt_demo = \<lparr>ri_TableID = ''t'', ri_PartitionID = ''p'', ri_PublishSeq = 7, ri_Parts = Some []\<rparr>"

theorem RecordRebuilt_then_Check_witness:
  "\<exists>f'. RecordRebuiltSafeInventories WriteOK (st_disk purge_demo) [rebuilt_demo] = (Inr (), f') \<and>
     CheckRebuildJournal f' [rebuilt_demo] = Inr [True]"
proof -
  have c: "checkRebuild [rebuilt_demo] (readLocalState (st_disk purge_demo)) = Inr ()"
    by (simp add: checkRebuild_def rebuilt_demo_def purge_demo_def openStateStore_def readLocalState_def
        newLocalState_def fmkeys_def sorted_list_of_fset.rep_eq)
  note run = RecordRebuilt_run [OF c, of WriteOK, simplified write_outcome.case]
  from RecordRebuilt_then_Check [OF _ run] run show ?thesis by simp
qed

end
