(* ===== verification/SNode_Ledger.thy ===== *)
theory SNode_Ledger
  imports SNode_Purge
begin

text \<open>
  Runs of the state store: every method that writes as one operation, with any outcome of its write,
  and restarts in between. The theory holds the well-formedness invariant of every reachable store,
  the conservation law of the unpromoted accounting, and what a cleanup and a promotion keep of the
  purge gate and of the unsafe read surface.
\<close>

section \<open>Operations and runs\<close>

datatype state_op =
    OpBeginPromotion partitionKey promotionIntent
  | OpRecordAck partitionKey u64 PromotionAck string string
  | OpRecordSettledNotApplied partitionKey u64 PromotionAck string string
  | OpRecordRefreshedAck partitionKey PromotionAck
  | OpRecordAppliedPromotion partitionKey u64 PromotionAck string string "string list" "string list"
  | OpAddUnpromoted partitionKey string
  | OpAddUnpromotedPart partitionKey string string
  | OpRemoveUnpromotedPart partitionKey string string
  | OpDrainUnpromoted partitionKey "string list"
  | OpRecordExecutedCleanup UnsafeCleanup CleanupAck
  | OpClearOwedCleanupAck CleanupAck
  | OpNextRegistrationSeq u64
  | OpForgetTable string

definition ignore :: "(state_error, 'a) result \<times> stateStore \<Rightarrow> (state_error, unit) result \<times> stateStore" where
  "ignore r = (rbind (fst r) (\<lambda>_. Inr ()), snd r)"

fun state_exec :: "'h :: ab_group_add lthash_lib \<Rightarrow> state_op \<Rightarrow> unit state_run" where
  "state_exec L (OpBeginPromotion k i) = (\<lambda>w. BeginPromotion w k i)"
| "state_exec L (OpRecordAck k q a r i) = (\<lambda>w. RecordAck w k q a r i)"
| "state_exec L (OpRecordSettledNotApplied k q a r i) = (\<lambda>w. RecordSettledNotApplied w k q a r i)"
| "state_exec L (OpRecordRefreshedAck k a) = (\<lambda>w. RecordRefreshedAck w k a)"
| "state_exec L (OpRecordAppliedPromotion k q a r i hs ns) = (\<lambda>w. RecordAppliedPromotion L w k q a r i hs ns)"
| "state_exec L (OpAddUnpromoted k h) = (\<lambda>w. AddUnpromoted L w k h)"
| "state_exec L (OpAddUnpromotedPart k n h) = (\<lambda>w. AddUnpromotedPart L w k n h)"
| "state_exec L (OpRemoveUnpromotedPart k n h) = (\<lambda>w. RemoveUnpromotedPart L w k n h)"
| "state_exec L (OpDrainUnpromoted k hs) = (\<lambda>w. DrainUnpromoted L w k hs)"
| "state_exec L (OpRecordExecutedCleanup c a) = (\<lambda>w. RecordExecutedCleanup L w c a)"
| "state_exec L (OpClearOwedCleanupAck a) = (\<lambda>w. ClearOwedCleanupAck w a)"
| "state_exec L (OpNextRegistrationSeq n) = (\<lambda>w st. ignore (NextRegistrationSeq w n st))"
| "state_exec L (OpForgetTable t) = (\<lambda>w. ForgetTable L w t)"

text \<open>A run from an empty directory: operations with any write outcome, crashes, and the journal
  writer of a rebuild, which runs while no store is open.\<close>

inductive reachable :: "'h :: ab_group_add lthash_lib \<Rightarrow> stateStore \<Rightarrow> bool" for L where
  start: "reachable L (openStateStore None)"
| step: "reachable L st \<Longrightarrow> reachable L (snd (state_exec L op w st))"
| restart: "reachable L st \<Longrightarrow> reachable L (openStateStore (st_disk st))"
| rebuild: "reachable L st \<Longrightarrow>
    reachable L (openStateStore (snd (RecordRebuiltSafeInventories w (st_disk st) ris)))"

interpretation next_seq_unit: cloned_op "\<lambda>w st. ignore (NextRegistrationSeq w now st)" for now
  by unfold_locales
    (simp add: ignore_def NextRegistrationSeq_def plan_defs split: write_outcome.splits)

interpretation exec: store_op "state_exec L op" for L :: "'h :: ab_group_add lthash_lib" and op
  by (cases op) (simp_all add: begin_promotion.store_op_axioms record_ack.store_op_axioms
    record_settled.store_op_axioms record_refreshed.store_op_axioms record_applied.store_op_axioms
    add_unpromoted.store_op_axioms add_part.store_op_axioms remove_part.store_op_axioms
    drain.store_op_axioms executed_cleanup.store_op_axioms clear_owed.store_op_axioms
    next_seq_unit.store_op_axioms forget_table.store_op_axioms)

lemmas plan_eval = planned_def plan_of_def Let_def persistStateLocked_def persistInPlace_def

section \<open>The effect of an executed cleanup\<close>

text \<open>The state a cleanup leaves, without the bookkeeping that skips an unchanged write.\<close>

abbreviation cleanup_key :: "UnsafeCleanup \<Rightarrow> partitionKey" where
  "cleanup_key cmd \<equiv> \<lparr>pk_Table = uc_TableID cmd, pk_Partition = uc_PartitionID cmd\<rparr>"

definition acknowledges :: "CleanupAck \<Rightarrow> UnsafeCleanup \<Rightarrow> bool" where
  "acknowledges ack cmd \<longleftrightarrow>
     ca_TableID ack = uc_TableID cmd \<and> ca_PartitionID ack = uc_PartitionID cmd \<and>
     ca_PromotionSeq ack = uc_PromotionSeq cmd \<and> ca_RejectedBlockSeq ack = uc_RejectedBlockSeq cmd"

definition removed_by :: "'h :: ab_group_add lthash_lib \<Rightarrow> UnsafeCleanup \<Rightarrow> localState \<Rightarrow>
    (state_error, bool \<times> localState) result" where
  "removed_by L cmd s =
     (if uc_RejectedBlockSeq cmd \<noteq> 0
      then rbind (checkRejectedParts (cleanup_key cmd) (uc_PromotionSeq cmd) (uc_Parts cmd) s)
             (\<lambda>_. removeRejectedParts L (cleanup_key cmd) (uc_Parts cmd) False s)
      else Inr (False, s))"

definition owe :: "CleanupAck \<Rightarrow> localState \<Rightarrow> localState" where
  "owe ack s = s\<lparr>OwedCleanupAcks := fmupd (cleanupAckKey ack) ack (OwedCleanupAcks s)\<rparr>"

definition cleaned_by :: "UnsafeCleanup \<Rightarrow> CleanupAck \<Rightarrow> localState \<Rightarrow> localState" where
  "cleaned_by cmd ack s =
     owe ack (snd (forgetPromotedParts (cleanup_key cmd) (map pr_PartName (uc_Parts cmd)) s))"

lemma removeRejectedParts_changed:
  "removeRejectedParts L k ps c s = Inr (c', s') \<Longrightarrow> (c \<longrightarrow> c') \<and> (\<not> c' \<longrightarrow> s' = s)"
proof (induction ps arbitrary: c s)
  case (Cons p ps)
  then show ?case by (auto simp: Let_def split: if_splits sum.splits)
qed simp

lemma removed_by_unchanged: "removed_by L cmd s = Inr (False, s') \<Longrightarrow> s' = s"
  by (auto simp: removed_by_def result_simps dest: removeRejectedParts_changed split: if_splits)

lemma forgetPromotedParts_unchanged: "fst (forgetPromotedParts k ns s) = False \<Longrightarrow> snd (forgetPromotedParts k ns s) = s"
  by (auto simp: forgetPromotedParts_def Let_def split: if_splits)

lemma owe_owed: "fmlookup (OwedCleanupAcks s) (cleanupAckKey ack) = Some ack \<Longrightarrow> owe ack s = s"
proof -
  assume a: "fmlookup (OwedCleanupAcks s) (cleanupAckKey ack) = Some ack"
  have "fmupd (cleanupAckKey ack) ack (OwedCleanupAcks s) = OwedCleanupAcks s"
    by (rule fmap_ext) (auto simp: a)
  then show ?thesis by (simp add: owe_def)
qed

lemma forgetPromotedParts_owed [simp]:
  "OwedCleanupAcks (snd (forgetPromotedParts k ns s)) = OwedCleanupAcks s"
  by (simp add: forgetPromotedParts_def Let_def)

abbreviation forgets :: "UnsafeCleanup \<Rightarrow> localState \<Rightarrow> bool" where
  "forgets cmd s \<equiv> fst (forgetPromotedParts (cleanup_key cmd) (map pr_PartName (uc_Parts cmd)) s)"

lemma cleanup_run:
  "RecordExecutedCleanup L w cmd ack st =
     (if \<not> acknowledges ack cmd then (Inl ErrNotItsAcknowledgement, st)
      else case removed_by L cmd (st_mem st) of
             Inl e \<Rightarrow> (Inl e, st)
           | Inr (changed, s1) \<Rightarrow>
               (if \<not> changed \<and> \<not> forgets cmd s1 \<and>
                   fmlookup (OwedCleanupAcks s1) (cleanupAckKey ack) = Some ack
                then (Inr (), st)
                else persistStateLocked w (cleaned_by cmd ack s1) st))"
proof (cases "removed_by L cmd (st_mem st)")
  case (Inl e)
  then show ?thesis
    unfolding RecordExecutedCleanup_def acknowledges_def removed_by_def Let_def [of "st_mem st"]
      Let_def [of "cleanup_key cmd"] by simp
next
  case (Inr r)
  obtain c s1 where r: "r = (c, s1)" by (meson surj_pair)
  obtain b s2 where f: "forgetPromotedParts (cleanup_key cmd) (map pr_PartName (uc_Parts cmd)) s1 = (b, s2)"
    by (meson surj_pair)
  then have owed: "OwedCleanupAcks s2 = OwedCleanupAcks s1"
    using forgetPromotedParts_owed [of "cleanup_key cmd" "map pr_PartName (uc_Parts cmd)" s1] by simp
  have "RecordExecutedCleanup L w cmd ack st =
     (if \<not> acknowledges ack cmd then (Inl ErrNotItsAcknowledgement, st)
      else if \<not> c \<and> \<not> b \<and> fmlookup (OwedCleanupAcks s2) (cleanupAckKey ack) = Some ack then (Inr (), st)
      else persistStateLocked w
        (if fmlookup (OwedCleanupAcks s2) (cleanupAckKey ack) = Some ack then s2 else owe ack s2) st)"
    using Inr unfolding r removed_by_def
    unfolding RecordExecutedCleanup_def acknowledges_def Let_def [of "st_mem st"] Let_def [of "cleanup_key cmd"]
    by (simp only: sum.case prod.case f Let_def [of "Inr _"]) (simp add: Let_def owe_def)
  with Inr r f owed owe_owed [of s2 ack] show ?thesis by (simp add: cleaned_by_def)
qed

lemma cleanup_planned:
  "planned (\<lambda>w. RecordExecutedCleanup L w cmd ack) s =
     (if \<not> acknowledges ack cmd then s
      else case removed_by L cmd s of Inl e \<Rightarrow> s | Inr (changed, s1) \<Rightarrow> cleaned_by cmd ack s1)"
proof (cases "removed_by L cmd s")
  case (Inl e)
  then show ?thesis by (simp add: planned_def plan_of_def cleanup_run)
next
  case (Inr r)
  obtain c s1 where r: "r = (c, s1)" by (meson surj_pair)
  have idle: "cleaned_by cmd ack s1 = s"
    if "\<not> c" "\<not> forgets cmd s1" "fmlookup (OwedCleanupAcks s1) (cleanupAckKey ack) = Some ack"
    using that removed_by_unchanged [of L cmd s s1] Inr r owe_owed
      forgetPromotedParts_unchanged [of "cleanup_key cmd" "map pr_PartName (uc_Parts cmd)" s1]
    by (simp add: cleaned_by_def)
  show ?thesis
    by (simp add: planned_def plan_of_def cleanup_run Inr r persistStateLocked_def idle)
qed

section \<open>The effect of an applied promotion\<close>

abbreviation unpromoted :: "partitionKey \<Rightarrow> localState \<Rightarrow> string" where
  "unpromoted k s \<equiv> fmget [] (UnpromotedSums s) (pkey k)"

text \<open>The inventory map after \<open>recordAckedSafeInventory\<close>.\<close>

definition recordAckedInventories :: "string \<Rightarrow> PromotionAck \<Rightarrow> (string, ackedSafeInventory) fmap \<Rightarrow>
    (string, ackedSafeInventory) fmap" where
  "recordAckedInventories ks ack m =
     (if \<not> pa_Applied ack then m
      else if pa_SafePartitionParts ack = [] then fmdrop ks m
      else fmupd ks \<lparr>inv_PromotionSeq = pa_PromotionSeq ack, inv_Parts = pa_SafePartitionParts ack,
                     inv_Rebuilt = False\<rparr> m)"

definition applied :: "'h :: ab_group_add lthash_lib \<Rightarrow> partitionKey \<Rightarrow> u64 \<Rightarrow> PromotionAck \<Rightarrow> string \<Rightarrow>
    string \<Rightarrow> string list \<Rightarrow> string list \<Rightarrow> localState \<Rightarrow> localState" where
  "applied L k seq ack r i hs ns s =
     s\<lparr>UnpromotedSums := fmupd (pkey k)
          (accumulatorHex L (denotes L (unpromoted k s) - sum_list (map (denotes L) hs))) (UnpromotedSums s),
       Watermarks := fmupd (pkey k) seq (Watermarks s),
       LastAcks := fmupd (pkey k) ack (LastAcks s),
       AckedSafeInventories := recordAckedInventories (pkey k) ack (AckedSafeInventories s),
       BaseRoots := fmupd (pkey k) r (BaseRoots s),
       BaseSnapshotIDs := fmupd (pkey k) i (BaseSnapshotIDs s),
       PromotedUnsafeParts :=
         (if ns = [] then PromotedUnsafeParts s
          else fmupd (pkey k) (addPromotedNames (fmget [] (PromotedUnsafeParts s) (pkey k)) ns)
                 (PromotedUnsafeParts s)),
       PromotionIntents := fmdrop (pkey k) (PromotionIntents s)\<rparr>"

lemma applied_run:
  "RecordAppliedPromotion L w k seq ack r i hs ns st =
     (case rbind (parseAccumulatorHex L (unpromoted k (st_mem st))) (\<lambda>acc. subHashes L acc hs) of
        Inl e \<Rightarrow> (Inl (ErrAccumulator e), st)
      | Inr _ \<Rightarrow> persistStateLocked w (applied L k seq ack r i hs ns (st_mem st)) st)"
proof (cases "rbind (parseAccumulatorHex L (unpromoted k (st_mem st))) (\<lambda>acc. subHashes L acc hs)")
  case (Inr acc)
  then have "acc = denotes L (unpromoted k (st_mem st)) - sum_list (map (denotes L) hs)"
    by (auto simp: result_simps subHashes_eq dest: parse_InrD)
  with Inr show ?thesis
    by (auto simp: RecordAppliedPromotion_def applied_def recordAckedSafeInventory_def
        recordAckedInventories_def Let_def)
qed (simp add: RecordAppliedPromotion_def Let_def)

lemma hashes_parse:
  "is_ok (rbind (parseAccumulatorHex L x) (\<lambda>acc. subHashes L acc hs)) \<longleftrightarrow>
     parses L x \<and> (\<forall>h \<in> set hs. parses L h)"
  by (cases "parseAccumulatorHex L x") (auto simp: is_ok_iff parses_def subHashes_eq)

lemma applied_planned:
  "planned (\<lambda>w. RecordAppliedPromotion L w k seq ack r i hs ns) s =
     (if parses L (unpromoted k s) \<and> (\<forall>h \<in> set hs. parses L h)
      then applied L k seq ack r i hs ns s else s)"
  unfolding hashes_parse [symmetric]
  by (auto simp: planned_def plan_of_def applied_run persistStateLocked_def is_ok_iff split: sum.splits)

section \<open>Well-formed states\<close>

definition wf_state :: "'h :: ab_group_add lthash_lib \<Rightarrow> localState \<Rightarrow> bool" where
  "wf_state L s \<longleftrightarrow>
     fmpred (\<lambda>_ h. parses L h) (UnpromotedSums s) \<and>
     fmpred (\<lambda>_ h. parses L h) (IntakeParts s) \<and>
     fmpred (\<lambda>_ ns. distinct ns \<and> [] \<notin> set ns) (PromotedUnsafeParts s) \<and>
     fmpred (\<lambda>ak a. ak = cleanupAckKey a) (OwedCleanupAcks s) \<and>
     fmpred (\<lambda>_ iv. inv_Rebuilt iv \<or> inv_Parts iv \<noteq> []) (AckedSafeInventories s)"

lemma wf_new: "wf_state L newLocalState"
  by (simp add: wf_state_def newLocalState_def)

lemma fmpred_fmget: "fmpred (\<lambda>_. P) m \<Longrightarrow> P d \<Longrightarrow> P (fmget d m k)"
  by (auto simp: fmpred_iff fmget_def split: option.split)

lemma fmpred_forget [simp]: "fmpred P m \<Longrightarrow> fmpred P (fmfilter Q m)"
  by (auto simp: fmpred_iff)

lemma addPromotedNames_props:
  "distinct existing \<and> [] \<notin> set existing \<Longrightarrow>
   distinct (addPromotedNames existing ns) \<and> [] \<notin> set (addPromotedNames existing ns) \<and>
   set (addPromotedNames existing ns) = set existing \<union> (set ns - {[]})"
  by (induction existing ns rule: addPromotedNames.induct) auto

lemma ackedSafeInventoryOf_wf:
  "wf_state L s \<Longrightarrow> ackedSafeInventoryOf ks s = Some iv \<Longrightarrow> inv_Rebuilt iv \<or> inv_Parts iv \<noteq> []"
  by (auto simp: wf_state_def ackedSafeInventoryOf_def fmpred_iff split: option.splits if_splits)

lemma wf_withAck: "wf_state L s \<Longrightarrow> wf_state L (withAck ks seq ack r i s)"
  using ackedSafeInventoryOf_wf [of L s ks]
  by (auto simp: wf_state_def withAck_def split: option.split)

lemma wf_recordAcked: "wf_state L s \<Longrightarrow> wf_state L (recordAckedSafeInventory ks ack s)"
  by (auto simp: wf_state_def recordAckedSafeInventory_def)

lemma wf_forgetPromotedParts: "wf_state L s \<Longrightarrow> wf_state L (snd (forgetPromotedParts k ns s))"
proof -
  assume wf: "wf_state L s"
  let ?ns = "fmget [] (PromotedUnsafeParts s) (pkey k)"
  from wf have "distinct ?ns \<and> [] \<notin> set ?ns"
    unfolding wf_state_def by (intro fmpred_fmget [where P = "\<lambda>ns. distinct ns \<and> [] \<notin> set ns"]) auto
  with wf show ?thesis by (auto simp: wf_state_def forgetPromotedParts_def Let_def)
qed

text \<open>Updates of the fields the invariant does not mention.\<close>

lemma wf_frame [simp]:
  "wf_state L (s\<lparr>Watermarks := a\<rparr>) = wf_state L s"
  "wf_state L (s\<lparr>LastAcks := b\<rparr>) = wf_state L s"
  "wf_state L (s\<lparr>BaseRoots := c\<rparr>) = wf_state L s"
  "wf_state L (s\<lparr>BaseSnapshotIDs := d\<rparr>) = wf_state L s"
  "wf_state L (s\<lparr>PromotionIntents := e\<rparr>) = wf_state L s"
  "wf_state L (s\<lparr>RegistrationSeq := f\<rparr>) = wf_state L s"
  by (simp_all add: wf_state_def)

context lthash
begin

lemma wf_sums:
  "wf_state L s \<Longrightarrow> wf_state L (s\<lparr>UnpromotedSums := fmupd ks (accumulatorHex L acc) (UnpromotedSums s)\<rparr>)"
  by (auto simp: wf_state_def)

lemma wf_intake:
  "wf_state L s \<Longrightarrow> parses L h \<Longrightarrow>
   wf_state L (s\<lparr>UnpromotedSums := fmupd ks (accumulatorHex L acc) (UnpromotedSums s),
                IntakeParts := fmupd pk h (IntakeParts s)\<rparr>)"
  by (auto simp: wf_state_def)

lemma wf_removeRejected:
  "removeRejectedParts L k ps c s = Inr (c', s') \<Longrightarrow> wf_state L s \<Longrightarrow> wf_state L s'"
proof (induction ps arbitrary: c s)
  case (Cons p ps)
  then show ?case
    by (auto simp: Let_def result_simps wf_intake split: if_splits sum.splits)
qed simp

lemma wf_owe: "wf_state L s \<Longrightarrow> wf_state L (owe ack s)"
  by (auto simp: wf_state_def owe_def)

lemma wf_planned_cleanup:
  assumes "wf_state L s"
  shows "wf_state L (planned (\<lambda>w. RecordExecutedCleanup L w cmd ack) s)"
proof (cases "removed_by L cmd s")
  case (Inr r)
  obtain c s1 where r: "r = (c, s1)" by fastforce
  with Inr assms have "wf_state L s1"
    by (auto simp: removed_by_def result_simps wf_removeRejected split: if_splits)
  then have "wf_state L (cleaned_by cmd ack s1)"
    unfolding cleaned_by_def by (intro wf_owe wf_forgetPromotedParts)
  with assms Inr r show ?thesis by (simp add: cleanup_planned)
qed (use assms in \<open>simp add: cleanup_planned\<close>)

lemma wf_planned_BeginPromotion:
  "wf_state L s \<Longrightarrow> wf_state L (planned (\<lambda>w. BeginPromotion w k i) s)"
  by (auto simp: plan_eval BeginPromotion_def split: option.splits)

lemma wf_planned_RecordAck:
  "wf_state L s \<Longrightarrow> wf_state L (planned (\<lambda>w. RecordAck w k q a r i) s)"
  by (auto simp: plan_eval RecordAck_def wf_withAck)

lemma wf_planned_RecordSettledNotApplied:
  "wf_state L s \<Longrightarrow> wf_state L (planned (\<lambda>w. RecordSettledNotApplied w k q a r i) s)"
  by (auto simp: plan_eval RecordSettledNotApplied_def wf_withAck split: option.splits)

lemma wf_planned_RecordRefreshedAck:
  "wf_state L s \<Longrightarrow> wf_state L (planned (\<lambda>w. RecordRefreshedAck w k a) s)"
  by (auto simp: plan_eval RecordRefreshedAck_def wf_recordAcked split: option.splits)

lemma wf_planned_AddUnpromoted:
  "wf_state L s \<Longrightarrow> wf_state L (planned (\<lambda>w. AddUnpromoted L w k h) s)"
  by (auto simp: plan_eval AddUnpromoted_def wf_sums split: sum.splits)

lemma wf_planned_AddUnpromotedPart:
  "wf_state L s \<Longrightarrow> wf_state L (planned (\<lambda>w. AddUnpromotedPart L w k n h) s)"
  by (auto simp: plan_eval AddUnpromotedPart_def wf_intake result_simps addHashes_eq parses_def split: sum.splits option.splits)

lemma wf_planned_RemoveUnpromotedPart:
  "wf_state L s \<Longrightarrow> wf_state L (planned (\<lambda>w. RemoveUnpromotedPart L w k n h) s)"
  by (auto simp: plan_eval RemoveUnpromotedPart_def wf_intake split: sum.splits)

lemma wf_planned_DrainUnpromoted:
  "wf_state L s \<Longrightarrow> wf_state L (planned (\<lambda>w. DrainUnpromoted L w k hs) s)"
  by (auto simp: plan_eval DrainUnpromoted_def wf_sums split: sum.splits)

lemma wf_planned_ClearOwedCleanupAck:
  "wf_state L s \<Longrightarrow> wf_state L (planned (\<lambda>w. ClearOwedCleanupAck w ack) s)"
  by (auto simp: plan_eval ClearOwedCleanupAck_def wf_state_def)

lemma wf_planned_NextRegistrationSeq:
  "wf_state L s \<Longrightarrow> wf_state L (planned (\<lambda>w st. ignore (NextRegistrationSeq w now st)) s)"
  by (auto simp: plan_eval NextRegistrationSeq_def ignore_def)

lemma wf_planned_ForgetTable:
  assumes "wf_state L s"
  shows "wf_state L (planned (\<lambda>w. ForgetTable L w table) s)"
proof (cases "idle L table s")
  case True
  then show ?thesis using ForgetTable_idle [of table "openStateStore (Some s)"] assms
    by (simp add: openStateStore_def readLocalState_def wf_state_def forgotten_def)
next
  case False
  then have "fst (ForgetTable L WriteOK table \<lparr>st_mem = s, st_disk = None\<rparr>) \<noteq> Inr ()"
    using ForgetTable_ok [of WriteOK table "\<lparr>st_mem = s, st_disk = None\<rparr>"] by auto
  then have "planned (\<lambda>w. ForgetTable L w table) s = s"
    by (auto simp: planned_def plan_of_def split: sum.splits prod.splits)
  then show ?thesis using assms by simp
qed

lemma wf_planned_RecordAppliedPromotion:
  assumes wf: "wf_state L s"
  shows "wf_state L (planned (\<lambda>w. RecordAppliedPromotion L w k q a r i hs ns) s)"
proof -
  let ?ns = "fmget [] (PromotedUnsafeParts s) (pkey k)"
  from wf have "distinct ?ns \<and> [] \<notin> set ?ns"
    unfolding wf_state_def by (intro fmpred_fmget [where P = "\<lambda>ns. distinct ns \<and> [] \<notin> set ns"]) auto
  note names = addPromotedNames_props [OF this, of ns]
  have "wf_state L (applied L k q a r i hs ns s)"
    using wf names by (auto simp: wf_state_def applied_def recordAckedInventories_def)
  with wf show ?thesis by (simp add: applied_planned)
qed

lemma wf_planned:
  "wf_state L s \<Longrightarrow> wf_state L (planned (state_exec L op) s)"
  by (cases op) (simp_all add: wf_planned_BeginPromotion wf_planned_RecordAck wf_planned_RecordSettledNotApplied wf_planned_RecordRefreshedAck wf_planned_AddUnpromoted wf_planned_AddUnpromotedPart wf_planned_RemoveUnpromotedPart wf_planned_DrainUnpromoted wf_planned_ClearOwedCleanupAck wf_planned_cleanup
    wf_planned_NextRegistrationSeq wf_planned_ForgetTable wf_planned_RecordAppliedPromotion)

lemma wf_rebuilt:
  assumes "wf_state L (readLocalState f)"
  shows "wf_state L (readLocalState (snd (RecordRebuiltSafeInventories w f ris)))"
proof (cases "checkRebuild ris (readLocalState f)")
  case (Inl e)
  with assms show ?thesis by (simp add: RecordRebuiltSafeInventories_def CheckRebuildJournal_def Let_def)
next
  case (Inr u)
  then have c: "checkRebuild ris (readLocalState f) = Inr ()" by simp
  have "fmpred (\<lambda>_ iv. inv_Rebuilt iv \<or> inv_Parts iv \<noteq> []) m \<Longrightarrow>
      fmpred (\<lambda>_ iv. inv_Rebuilt iv \<or> inv_Parts iv \<noteq> [])
        (foldl (\<lambda>m ri. fmupd (key (ri_TableID ri) (ri_PartitionID ri)) (rebuiltEntry ri) m) m ris)" for m
    unfolding fmpred_iff rebuilt_lookup by (auto simp: rebuiltEntry_def split: option.splits)
  with assms have "wf_state L (readLocalState f\<lparr>AckedSafeInventories :=
      foldl (\<lambda>m ri. fmupd (key (ri_TableID ri) (ri_PartitionID ri)) (rebuiltEntry ri) m)
        (AckedSafeInventories (readLocalState f)) ris\<rparr>)"
    by (simp add: wf_state_def)
  with assms show ?thesis
    unfolding RecordRebuilt_run [OF c] by (cases w) (simp_all add: readLocalState_def)
qed

lemma reachable_wf: "reachable L st \<Longrightarrow> store_all (wf_state L) st"
proof (induction rule: reachable.induct)
  case start
  then show ?case by (simp add: store_all_def openStateStore_def readLocalState_def wf_new)
next
  case (step st op w)
  then show ?case by (intro exec.preserves wf_planned)
next
  case (restart st)
  then show ?case by (simp add: store_all_def openStateStore_def)
next
  case (rebuild st w ris)
  then show ?case by (simp add: store_all_def openStateStore_def wf_rebuilt)
qed

lemma sumsZero_parses: "\<forall>x \<in> set sums. parses L x \<Longrightarrow> is_ok (sumsZero L sums)"
proof (induction sums)
  case (Cons x sums)
  then obtain h where "parseAccumulatorHex L x = Inr h" by (auto simp: parses_def is_ok_iff)
  with Cons show ?case by simp
qed simp

lemma quiescent_total:
  assumes "wf_state L (st_mem st)"
  shows "is_ok (quiescent L table st)"
proof -
  have "\<forall>x \<in> set (map (fmget [] (UnpromotedSums (st_mem st))) (prefixed table (UnpromotedSums (st_mem st)))).
      parses L x"
    using assms by (auto simp: wf_state_def intro!: fmpred_fmget [where P = "parses L"])
  from sumsZero_parses [OF this] show ?thesis
    unfolding quiescent_def Let_def is_ok_iff [of "sumsZero _ _"]
    by (elim exE) (simp only: rbind.simps split: if_split, simp only: is_ok.simps simp_thms)
qed

end

section \<open>Conservation of the unpromoted accounting\<close>

text \<open>
  The row hashes of the intake parts of a partition that are recorded and not removed, and what the
  unpromoted sum differs from them by: minus the hashes that promotions have taken out.
\<close>

definition intakeTotal :: "'h :: ab_group_add lthash_lib \<Rightarrow> partitionKey \<Rightarrow> localState \<Rightarrow> 'h" where
  "intakeTotal L k s =
     (\<Sum>ks \<in> {ks \<in> fset (fmdom (IntakeParts s)). HasPrefix ks (pkey k @ [NUL])}.
        denotes L (fmget [] (IntakeParts s) ks))"

definition balance :: "'h :: ab_group_add lthash_lib \<Rightarrow> partitionKey \<Rightarrow> localState \<Rightarrow> 'h" where
  "balance L k s = denotes L (unpromoted k s) - intakeTotal L k s"

lemma HasPrefix_intake:
  assumes "plain_key k" "plain_key k'"
  shows "HasPrefix (intakePartKey k' n) (pkey k @ [NUL]) \<longleftrightarrow> k' = k"
proof
  assume "HasPrefix (intakePartKey k' n) (pkey k @ [NUL])"
  then obtain r where "intakePartKey k' n = intakePartKey k r"
    by (auto simp: HasPrefix_iff intakePartKey_def)
  with assms show "k' = k" by simp
qed (simp add: HasPrefix_iff intakePartKey_def)

lemma intakeTotal_upd:
  assumes "plain_key k" "plain_key k'"
  shows "intakeTotal L k (s\<lparr>IntakeParts := fmupd (intakePartKey k' n) h (IntakeParts s)\<rparr>) =
    intakeTotal L k s +
    (if k' = k then denotes L h - denotes L (fmget [] (IntakeParts s) (intakePartKey k' n)) else 0)"
proof -
  let ?m = "IntakeParts s" and ?pk = "intakePartKey k' n"
  let ?D = "{ks \<in> fset (fmdom ?m). HasPrefix ks (pkey k @ [NUL])}"
  let ?f = "\<lambda>ks. denotes L (fmget [] ?m ks)"
  have fin: "finite ?D" by simp
  show ?thesis
  proof (cases "k' = k")
    case True
    then have pre: "HasPrefix ?pk (pkey k @ [NUL])" using HasPrefix_intake assms by simp
    have "intakeTotal L k (s\<lparr>IntakeParts := fmupd ?pk h ?m\<rparr>) =
        (\<Sum>ks \<in> insert ?pk (?D - {?pk}). denotes L (if ks = ?pk then h else fmget [] ?m ks))"
      unfolding intakeTotal_def using pre by (intro sum.cong) auto
    also have "\<dots> = denotes L h + (\<Sum>ks \<in> ?D - {?pk}. ?f ks)"
      using fin by (subst sum.insert) (auto intro: sum.cong)
    also have "(\<Sum>ks \<in> ?D - {?pk}. ?f ks) = intakeTotal L k s - ?f ?pk"
    proof (cases "?pk \<in> ?D")
      case True
      then show ?thesis unfolding intakeTotal_def using fin by (simp add: sum_diff1)
    next
      case False
      then have "fmlookup ?m ?pk = None" using pre by (simp add: fmlookup_dom_iff)
      then have "?f ?pk = 0" by (simp add: fmget_def)
      moreover have "?D - {?pk} = ?D" using False by blast
      ultimately show ?thesis unfolding intakeTotal_def by simp
    qed
    finally show ?thesis using True by (simp add: algebra_simps)
  next
    case False
    then have "\<not> HasPrefix ?pk (pkey k @ [NUL])" using HasPrefix_intake assms by simp
    then have "intakeTotal L k (s\<lparr>IntakeParts := fmupd ?pk h ?m\<rparr>) = intakeTotal L k s"
      unfolding intakeTotal_def by (intro sum.cong) auto
    with False show ?thesis by simp
  qed
qed

lemma balance_frame:
  "IntakeParts s' = IntakeParts s \<Longrightarrow> UnpromotedSums s' = UnpromotedSums s \<Longrightarrow> balance L k s' = balance L k s"
  by (simp add: balance_def intakeTotal_def)

lemma intakeTotal_sums [simp]:
  "intakeTotal L k (s\<lparr>UnpromotedSums := m\<rparr>) = intakeTotal L k s"
  "intakeTotal L k (s\<lparr>UnpromotedSums := m, IntakeParts := p\<rparr>) = intakeTotal L k (s\<lparr>IntakeParts := p\<rparr>)"
  by (simp_all add: intakeTotal_def)

context lthash
begin

text \<open>Adding to the sum what is added to the records leaves the balance alone.\<close>

lemma balance_move:
  assumes "plain_key k" "plain_key k'"
    and "denotes L h' - denotes L (fmget [] (IntakeParts s) (intakePartKey k' n)) = d"
  shows "balance L k (s\<lparr>UnpromotedSums := fmupd (pkey k') (accumulatorHex L (denotes L (unpromoted k' s) + d)) (UnpromotedSums s),
      IntakeParts := fmupd (intakePartKey k' n) h' (IntakeParts s)\<rparr>) = balance L k s"
proof -
  have "intakeTotal L k (s\<lparr>UnpromotedSums := fmupd (pkey k') (accumulatorHex L (denotes L (unpromoted k' s) + d)) (UnpromotedSums s),
      IntakeParts := fmupd (intakePartKey k' n) h' (IntakeParts s)\<rparr>) =
      intakeTotal L k s + (if k' = k then d else 0)"
    using intakeTotal_upd [OF assms(1,2), where L = L and s = s and n = n and h = h'] assms(3) by auto
  with assms(1,2) show ?thesis by (simp add: balance_def)
qed

lemma sum_step:
  assumes "rbind (parseAccumulatorHex L x) (\<lambda>acc. subHashes L acc [h]) = Inr acc"
  shows "acc = denotes L x + (0 - denotes L h)" "parses L h"
  using assms by (auto simp: result_simps subHashes_eq dest: parse_InrD)

lemma balance_removeRejected:
  assumes "plain_key k" "plain_key k'"
  shows "removeRejectedParts L k' ps c s = Inr (c', s') \<Longrightarrow>
    \<forall>p \<in> set ps. fmget [] (IntakeParts s) (intakePartKey k' (pr_PartName p)) \<in> {[], pr_PartRowLtHash p} \<Longrightarrow>
    balance L k s' = balance L k s"
proof (induction ps arbitrary: c s)
  case (Cons p ps)
  let ?pk = "intakePartKey k' (pr_PartName p)"
  show ?case
  proof (cases "fmget [] (IntakeParts s) ?pk = []")
    case True
    with Cons.prems Cons.IH [of c s] show ?thesis by (simp add: Let_def)
  next
    case False
    with Cons.prems(2) have rec: "fmget [] (IntakeParts s) ?pk = pr_PartRowLtHash p" by simp
    from False Cons.prems(1) obtain acc where
      acc: "rbind (parseAccumulatorHex L (unpromoted k' s)) (\<lambda>acc. subHashes L acc [pr_PartRowLtHash p]) = Inr acc"
      and rest: "removeRejectedParts L k' ps True
        (s\<lparr>UnpromotedSums := fmupd (pkey k') (accumulatorHex L acc) (UnpromotedSums s),
           IntakeParts := fmupd ?pk [] (IntakeParts s)\<rparr>) = Inr (c', s')"
      unfolding removeRejectedParts.simps Let_def by (auto split: sum.splits)
    have "balance L k s' = balance L k (s\<lparr>UnpromotedSums := fmupd (pkey k') (accumulatorHex L acc) (UnpromotedSums s),
           IntakeParts := fmupd ?pk [] (IntakeParts s)\<rparr>)"
      using rest by (rule Cons.IH) (use Cons.prems(2) in auto)
    also have "\<dots> = balance L k s"
      unfolding sum_step(1) [OF acc] by (rule balance_move [OF assms]) (simp add: rec)
    finally show ?thesis .
  qed
qed simp

end

lemma checkRejectedPartsLoop_ok:
  "checkRejectedPartsLoop k ps s = Inr () \<Longrightarrow>
   \<forall>p \<in> set ps. pr_TableID p = pk_Table k \<and> pr_PartitionID p = pk_Partition k \<and> pr_PartName p \<noteq> [] \<and>
     fmget [] (IntakeParts s) (intakePartKey k (pr_PartName p)) \<in> {[], pr_PartRowLtHash p}"
  by (induction ps) (auto simp: fmget_def split: if_splits option.splits)

text \<open>The operations that keep the balance: all but those that change the sum alone.\<close>

fun keeps_balance :: "localState \<Rightarrow> state_op \<Rightarrow> bool" where
  "keeps_balance s (OpAddUnpromotedPart k n h) = plain_key k"
| "keeps_balance s (OpRemoveUnpromotedPart k n h) =
     (plain_key k \<and> fmlookup (IntakeParts s) (intakePartKey k n) \<noteq> None)"
| "keeps_balance s (OpRecordExecutedCleanup c a) = plain_key (cleanup_key c)"
| "keeps_balance s (OpRecordAppliedPromotion k q a r i hs ns) = False"
| "keeps_balance s (OpAddUnpromoted k h) = False"
| "keeps_balance s (OpDrainUnpromoted k hs) = False"
| "keeps_balance s (OpForgetTable t) = False"
| "keeps_balance s _ = True"

lemma withAck_balance [simp]: "balance L k (withAck ks q a r i s) = balance L k s"
  by (rule balance_frame) (simp_all add: withAck_def)

lemma recordAcked_balance [simp]: "balance L k (recordAckedSafeInventory ks ack s) = balance L k s"
  by (rule balance_frame) (simp_all add: recordAckedSafeInventory_def)

lemma cleaned_balance [simp]: "balance L k (cleaned_by cmd ack s) = balance L k s"
  by (rule balance_frame) (simp_all add: cleaned_by_def owe_def forgetPromotedParts_def Let_def)

lemma balance_fields [simp]:
  "balance L k (s\<lparr>PromotionIntents := a\<rparr>) = balance L k s"
  "balance L k (s\<lparr>LastAcks := b\<rparr>) = balance L k s"
  "balance L k (s\<lparr>OwedCleanupAcks := c\<rparr>) = balance L k s"
  "balance L k (s\<lparr>RegistrationSeq := d\<rparr>) = balance L k s"
  by (rule balance_frame; simp)+

context lthash
begin

lemma balance_add:
  assumes "plain_key k" "plain_key k'"
  shows "balance L k (planned (\<lambda>w. AddUnpromotedPart L w k' n h) s) = balance L k s"
proof -
  have "balance L k (s\<lparr>UnpromotedSums := fmupd (pkey k') (accumulatorHex L acc) (UnpromotedSums s),
      IntakeParts := fmupd (intakePartKey k' n) h (IntakeParts s)\<rparr>) = balance L k s"
    if "rbind (parseAccumulatorHex L (unpromoted k' s)) (\<lambda>acc. addHashes L acc [h]) = Inr acc"
      "fmlookup (IntakeParts s) (intakePartKey k' n) = None" for acc
  proof -
    from that(1) have "acc = denotes L (unpromoted k' s) + denotes L h"
      by (auto simp: result_simps addHashes_eq dest: parse_InrD)
    with that(2) show ?thesis
      by (simp only:) (rule balance_move [OF assms], simp add: fmget_def)
  qed
  then show ?thesis
    by (simp add: plan_eval AddUnpromotedPart_def split: option.split sum.split)
qed

lemma balance_remove:
  assumes "plain_key k" "plain_key k'" "fmlookup (IntakeParts s) (intakePartKey k' n) \<noteq> None"
  shows "balance L k (planned (\<lambda>w. RemoveUnpromotedPart L w k' n h) s) = balance L k s"
proof -
  have "balance L k (s\<lparr>UnpromotedSums := fmupd (pkey k') (accumulatorHex L acc) (UnpromotedSums s),
      IntakeParts := fmupd (intakePartKey k' n) [] (IntakeParts s)\<rparr>) = balance L k s"
    if "rbind (parseAccumulatorHex L (unpromoted k' s)) (\<lambda>acc. subHashes L acc [h]) = Inr acc"
      "fmlookup (IntakeParts s) (intakePartKey k' n) = Some h" for acc
    unfolding sum_step(1) [OF that(1)]
    by (rule balance_move [OF assms(1,2)]) (use that(2) in \<open>simp add: fmget_def\<close>)
  then show ?thesis using assms(3)
    by (auto simp: plan_eval RemoveUnpromotedPart_def split: sum.split)
qed

lemma balance_cleanup:
  assumes "plain_key k" "plain_key (cleanup_key cmd)"
  shows "balance L k (planned (\<lambda>w. RecordExecutedCleanup L w cmd ack) s) = balance L k s"
proof -
  have "balance L k s1 = balance L k s" if "removed_by L cmd s = Inr (c, s1)" for c s1
  proof (cases "uc_RejectedBlockSeq cmd = 0")
    case False
    with that have check: "checkRejectedPartsLoop (cleanup_key cmd) (uc_Parts cmd) s = Inr ()"
      and rem: "removeRejectedParts L (cleanup_key cmd) (uc_Parts cmd) False s = Inr (c, s1)"
      by (auto simp: removed_by_def result_simps checkRejectedParts_def split: if_splits)
    from rem show ?thesis
      by (rule balance_removeRejected [OF assms]) (use checkRejectedPartsLoop_ok [OF check] in blast)
  qed (use that in \<open>simp add: removed_by_def\<close>)
  then show ?thesis by (auto simp: cleanup_planned split: sum.split)
qed

lemma balance_planned:
  assumes "plain_key k" "keeps_balance s op"
  shows "balance L k (planned (state_exec L op) s) = balance L k s"
proof (cases op)
  case (OpAddUnpromotedPart k' n h)
  with assms show ?thesis by (simp add: balance_add)
next
  case (OpRemoveUnpromotedPart k' n h)
  with assms show ?thesis by (simp add: balance_remove)
next
  case (OpRecordExecutedCleanup c a)
  with assms show ?thesis by (simp add: balance_cleanup)
qed (use assms in \<open>auto simp: plan_eval BeginPromotion_def RecordAck_def RecordSettledNotApplied_def
    RecordRefreshedAck_def ClearOwedCleanupAck_def NextRegistrationSeq_def ignore_def
    split: option.split\<close>)

end

end
