(* ===== verification/SNode_Safety.thy ===== *)
theory SNode_Safety
  imports SNode_Ledger
begin

text \<open>
  What the state store guarantees across write failures and crashes: well-formedness of every
  reachable store, the accounting of intake, promotion and cleanup, the closed read surface of an
  unresolved promotion, the hold of an owed acknowledgement on the purge gate, and the registration
  sequence.
\<close>

section \<open>Reachable stores\<close>

text \<open>
  C12. Every store reachable from an empty directory, through any operations with any write outcomes,
  crashes and rebuilds, is well formed in memory and in the file: accumulators and intake hashes
  parse, the promoted part names of a partition are distinct and not empty, an owed acknowledgement
  is filed under its own key, and an inventory that is not a rebuilt one is not empty. In particular
  the purge gate never fails on a malformed accumulator.
\<close>

theorem reachable_store_wf:
  assumes "lthash L" and "reachable L st"
  shows "store_all (wf_state L) st \<and> is_ok (quiescent L table st)"
  using lthash.reachable_wf [OF assms] lthash.quiescent_total [OF assms(1), of st table]
  by (simp add: store_all_def)

definition demo_key :: partitionKey where
  "demo_key = \<lparr>pk_Table = ''t'', pk_Partition = ''p''\<rparr>"

text \<open>One part taken in: its hash is the unpromoted sum of the partition.\<close>

definition demo_store :: stateStore where
  "demo_store = snd (AddUnpromotedPart lane_lib WriteOK demo_key ''a'' ''0xab00'' (openStateStore None))"

lemma demo_store_eq:
  "demo_store = openStateStore (Some (newLocalState
     \<lparr>UnpromotedSums := fmupd (key ''t'' ''p'') ''0xab00'' fmempty,
      IntakeParts := fmupd (intakePartKey demo_key ''a'') ''0xab00'' fmempty\<rparr>))"
  by (simp add: demo_store_def demo_key_def AddUnpromotedPart_def openStateStore_def readLocalState_def
      newLocalState_def persistInPlace_def persistStateLocked_def lane_parse lane_hex Let_def)

theorem reachable_store_wf_witness:
  "reachable lane_lib demo_store \<and> store_all (wf_state lane_lib) demo_store \<and>
   is_ok (quiescent lane_lib ''t'' demo_store) \<and> quiescent lane_lib ''t'' demo_store \<noteq> Inr True"
proof -
  have r: "reachable lane_lib demo_store"
    using reachable.step [OF reachable.start, where op = "OpAddUnpromotedPart demo_key ''a'' ''0xab00''" and w = WriteOK]
    by (simp add: demo_store_def)
  have "\<not> idle lane_lib ''t'' (st_mem demo_store)"
    by (auto simp: idle_def demo_store_eq openStateStore_def readLocalState_def newLocalState_def
        denotes_def lane_parse intro!: exI [of _ "key ''t'' ''p''"]) (simp_all add: key_def HasPrefix_def)
  then have "quiescent lane_lib ''t'' demo_store \<noteq> Inr True"
    by (simp add: lane.quiescent_idle)
  with r reachable_store_wf [OF lane.lthash_axioms r, of "''t''"] show ?thesis by simp
qed

section \<open>Accounting\<close>

text \<open>Runs that take parts in and remove or clean them up, promotions apart.\<close>

inductive intake_run :: "'h :: ab_group_add lthash_lib \<Rightarrow> stateStore \<Rightarrow> bool" for L where
  start: "intake_run L (openStateStore None)"
| step: "intake_run L st \<Longrightarrow> keeps_balance (st_mem st) op \<Longrightarrow> intake_run L (snd (state_exec L op w st))"
| restart: "intake_run L st \<Longrightarrow> intake_run L (openStateStore (st_disk st))"

lemma balance_new: "balance L k newLocalState = 0"
  by (simp add: balance_def intakeTotal_def newLocalState_def)

lemma intake_run_balance:
  assumes "lthash L" "plain_key k"
  shows "intake_run L st \<Longrightarrow> store_all (\<lambda>s. balance L k s = 0) st"
proof (induction rule: intake_run.induct)
  case start
  show ?case by (simp add: store_all_def openStateStore_def readLocalState_def balance_new)
next
  case (step st op w)
  from step.IH show ?case
    by (rule exec.preserves) (simp add: lthash.balance_planned [OF assms(1,2) step.hyps(2)])
next
  case (restart st)
  then show ?case by (simp add: store_all_def openStateStore_def)
qed



lemma set_addPromotedNames: "set (addPromotedNames existing ns) = set existing \<union> (set ns - {[]})"
  by (induction existing ns rule: addPromotedNames.induct) auto

text \<open>
  C8. Recording an applied promotion is atomic and subtracts once. When it succeeds, memory and
  file hold the same state, in which exactly the candidate hashes have left the partition's sum, the
  watermark and base are the promotion's, the intent is gone, and every promoted part is excluded
  from unsafe reads; other partitions are as before. When it fails, memory is unchanged and the file
  holds the old state or the complete new one.
\<close>

theorem RecordAppliedPromotion_atomic:
  assumes "lthash L" and "plain_key k"
    and "RecordAppliedPromotion L w k seq ack r i hs ns st = (res, st')"
  shows "(res = Inr () \<longrightarrow>
      st_disk st' = Some (st_mem st') \<and>
      denotes L (UnpromotedSum k st') = denotes L (UnpromotedSum k st) - sum_list (map (denotes L) hs) \<and>
      Watermark k st' = seq \<and> LastAck k st' = Some ack \<and> BaseRoot k st' = (r, i) \<and>
      PendingPromotion k st' = None \<and>
      set (fmget [] (PromotedUnsafeParts (st_mem st')) (pkey k)) =
        set (fmget [] (PromotedUnsafeParts (st_mem st)) (pkey k)) \<union> (set ns - {[]}) \<and>
      (\<forall>k'. plain_key k' \<and> k' \<noteq> k \<longrightarrow>
         UnpromotedSum k' st' = UnpromotedSum k' st \<and> Watermark k' st' = Watermark k' st \<and>
         PendingPromotion k' st' = PendingPromotion k' st)) \<and>
    (res \<noteq> Inr () \<longrightarrow> st_mem st' = st_mem st \<and>
      st_disk st' \<in> {st_disk st, Some (applied L k seq ack r i hs ns (st_mem st))})"
proof -
  have other: "pkey k' \<noteq> pkey k" if "plain_key k'" "k' \<noteq> k" for k'
    using pkey_inject [OF that(1) assms(2)] that(2) by blast
  show ?thesis
  proof (cases "rbind (parseAccumulatorHex L (unpromoted k (st_mem st))) (\<lambda>acc. subHashes L acc hs)")
    case (Inl e)
    with assms(3) show ?thesis by (auto simp: applied_run)
  next
    case (Inr acc)
    with assms(3) have run: "persistStateLocked w (applied L k seq ack r i hs ns (st_mem st)) st = (res, st')"
      by (simp add: applied_run)
    show ?thesis
    proof (cases w)
      case WriteOK
      with run have st': "res = Inr ()" "st_mem st' = applied L k seq ack r i hs ns (st_mem st)"
        "st_disk st' = Some (st_mem st')" by (auto simp: persistStateLocked_def)
      with other show ?thesis
        by (auto simp: applied_def UnpromotedSum_def Watermark_def LastAck_def BaseRoot_def
            PendingPromotion_def set_addPromotedNames lthash.denotes_accumulatorHex [OF assms(1)])
    qed (use run in \<open>auto simp: persistStateLocked_def\<close>)
  qed
qed

definition demo_ack :: PromotionAck where
  "demo_ack = \<lparr>pa_NodeID = ''n'', pa_PromotionSeq = 5, pa_TableID = ''t'', pa_PartitionID = ''p'',
     pa_PostPartitionCommitment = ''0xab00'', pa_Parts = [],
     pa_SafePartitionParts = [\<lparr>sm_PartRowLtHash = ''0xab00'', sm_SafePartName = ''s'', sm_PartPhysHash = ''h''\<rparr>],
     pa_Applied = True, pa_Detail = []\<rparr>"

definition demo_promoted :: "(state_error, unit) result \<times> stateStore" where
  "demo_promoted = RecordAppliedPromotion lane_lib WriteOK demo_key 5 demo_ack ''0xab00'' ''snap''
     [''0xab00''] [''a''] demo_store"

theorem RecordAppliedPromotion_atomic_witness:
  "fst demo_promoted = Inr () \<and> denotes lane_lib (UnpromotedSum demo_key (snd demo_promoted)) = 0 \<and>
   Watermark demo_key (snd demo_promoted) = 5"
proof -
  have k: "plain_key demo_key" by (simp add: demo_key_def)
  have ok: "fst demo_promoted = Inr ()"
    by (simp add: demo_promoted_def applied_run demo_store_eq demo_key_def openStateStore_def
        readLocalState_def lane_parse persistStateLocked_def)
  have "denotes lane_lib (UnpromotedSum demo_key demo_store) = 171" "denotes lane_lib ''0xab00'' = 171"
    by (simp_all add: UnpromotedSum_def demo_store_eq demo_key_def openStateStore_def readLocalState_def
        denotes_def lane_parse)
  moreover have "RecordAppliedPromotion lane_lib WriteOK demo_key 5 demo_ack ''0xab00'' ''snap''
      [''0xab00''] [''a''] demo_store = (fst demo_promoted, snd demo_promoted)"
    by (simp add: demo_promoted_def)
  note RecordAppliedPromotion_atomic [OF lane.lthash_axioms k this]
  ultimately show ?thesis using ok by simp
qed

section \<open>The unsafe read surface\<close>

lemma PromotedUnsafePartsOf_Inr:
  assumes "PromotedUnsafePartsOf table st = Inr out"
  shows "(\<forall>ks. HasPrefix ks (table @ [NUL]) \<longrightarrow> fmlookup (PromotionIntents (st_mem st)) ks = None) \<and>
    set out = (\<Union>ks \<in> {ks. HasPrefix ks (table @ [NUL])}. set (fmget [] (PromotedUnsafeParts (st_mem st)) ks)) \<and>
    sorted out"
proof -
  let ?s = "st_mem st"
  from assms have none: "filter (\<lambda>ks. HasPrefix ks (table @ [NUL])) (fmkeys (PromotionIntents ?s)) = []"
    and out: "out = sort (concat (map (fmget [] (PromotedUnsafeParts ?s)) (prefixed table (PromotedUnsafeParts ?s))))"
    by (auto simp: PromotedUnsafePartsOf_def Let_def split: if_splits)
  have "set out = (\<Union>ks \<in> {ks. HasPrefix ks (table @ [NUL])}. set (fmget [] (PromotedUnsafeParts ?s) ks))"
  proof -
    have "fmget [] (PromotedUnsafeParts ?s) ks = []" if "ks \<notin> fset (fmdom (PromotedUnsafeParts ?s))" for ks
      using that by (simp add: fmget_def fmdom_notD)
    then show ?thesis unfolding out by (auto, fastforce)
  qed
  with none out show ?thesis unfolding prefixed_empty [symmetric] by simp
qed

text \<open>A promoted part is off the unsafe read surface: reads of its table are refused, or the part
  is among the excluded names.\<close>

definition covered :: "partitionKey \<Rightarrow> string list \<Rightarrow> localState \<Rightarrow> bool" where
  "covered k ns s \<longleftrightarrow> fmlookup (PromotionIntents s) (pkey k) \<noteq> None \<or>
     set ns - {[]} \<subseteq> set (fmget [] (PromotedUnsafeParts s) (pkey k))"

lemma covered_read:
  assumes "plain_key k" "covered k ns (st_mem st)" "PromotedUnsafePartsOf (pk_Table k) st = Inr out"
  shows "set ns - {[]} \<subseteq> set out"
proof -
  have "HasPrefix (pkey k) (pk_Table k @ [NUL])" using assms(1) by simp
  with PromotedUnsafePartsOf_Inr [OF assms(3)] assms(2) show ?thesis by (auto simp: covered_def)
qed

text \<open>The operations that may take a name off the exclusion: a cleanup that names the part, and
  forgetting the whole table. A settled not-applied promotion resolves its own intent only.\<close>

fun uncovers :: "partitionKey \<Rightarrow> string list \<Rightarrow> state_op \<Rightarrow> bool" where
  "uncovers k ns (OpRecordExecutedCleanup c a) =
     (cleanup_key c = k \<and> set (map pr_PartName (uc_Parts c)) \<inter> set ns \<noteq> {} \<or> \<not> plain_key (cleanup_key c))"
| "uncovers k ns (OpForgetTable t) = (t = pk_Table k \<or> \<not> plain t)"
| "uncovers k ns (OpRecordSettledNotApplied k' q a r i) = (k' = k \<or> \<not> plain_key k')"
| "uncovers k ns (OpRecordAppliedPromotion k' q a r i hs ns') =
     (k' = k \<and> \<not> set ns - {[]} \<subseteq> set ns' \<or> \<not> plain_key k')"
| "uncovers k ns _ = False"

lemma covered_frame:
  "PromotionIntents s' = PromotionIntents s \<Longrightarrow> PromotedUnsafeParts s' = PromotedUnsafeParts s \<Longrightarrow>
   covered k ns s \<Longrightarrow> covered k ns s'"
  by (simp add: covered_def)

lemma covered_applied:
  assumes "plain_key k" "\<not> uncovers k ns (OpRecordAppliedPromotion k' q a r i hs ns')" "covered k ns s"
  shows "covered k ns (applied L k' q a r i hs ns' s)"
proof (cases "k' = k")
  case True
  with assms show ?thesis by (auto simp: covered_def applied_def set_addPromotedNames)
next
  case False
  with assms have "pkey k \<noteq> pkey k'" by (simp add: pkey_inject del: key_inject)
  with assms show ?thesis by (auto simp: covered_def applied_def)
qed

lemma removed_by_frame:
  assumes "removed_by L cmd s = Inr (c, s1)"
  shows "PromotionIntents s1 = PromotionIntents s \<and> PromotedUnsafeParts s1 = PromotedUnsafeParts s \<and>
    OwedCleanupAcks s1 = OwedCleanupAcks s \<and> RegistrationSeq s1 = RegistrationSeq s \<and> Watermarks s1 = Watermarks s"
proof -
  have "removeRejectedParts L k ps c0 s = Inr (c, s1) \<Longrightarrow> ?thesis" for k ps c0
  proof (induction ps arbitrary: c0 s)
    case (Cons p ps)
    then show ?case by (auto simp: Let_def split: if_splits sum.splits)
  qed simp
  with assms show ?thesis by (auto simp: removed_by_def result_simps split: if_splits)
qed

lemma covered_cleaned:
  assumes "plain_key k" "\<not> uncovers k ns (OpRecordExecutedCleanup c a)" "covered k ns s"
  shows "covered k ns (cleaned_by c a s)"
proof (cases "cleanup_key c = k")
  case True
  with assms show ?thesis
    by (auto simp: covered_def cleaned_by_def owe_def forgetPromotedParts_def Let_def filter_empty_conv) blast
next
  case False
  with assms have "pkey k \<noteq> pkey (cleanup_key c)" by (metis pkey_inject uncovers.simps(1))
  with assms show ?thesis
    by (auto simp: covered_def cleaned_by_def owe_def forgetPromotedParts_def Let_def)
qed

lemma covered_planned:
  assumes k: "plain_key k" and op: "\<not> uncovers k ns op" and cov: "covered k ns s"
  shows "covered k ns (planned (state_exec L op) s)"
proof (cases op)
  case (OpRecordAppliedPromotion k' q a r i hs ns')
  with op have "covered k ns (applied L k' q a r i hs ns' s)"
    by (intro covered_applied [OF k _ cov]) simp
  with OpRecordAppliedPromotion cov show ?thesis by (simp add: applied_planned)
next
  case (OpRecordExecutedCleanup c a)
  have "covered k ns (cleaned_by c a s1)" if "removed_by L c s = Inr (b, s1)" for b s1
    using covered_cleaned [OF k, of ns c a s1] covered_frame [OF _ _ cov, of s1] removed_by_frame [OF that]
      op OpRecordExecutedCleanup by blast
  with OpRecordExecutedCleanup cov show ?thesis by (simp add: cleanup_planned split: sum.split prod.split)
next
  case (OpForgetTable t)
  then show ?thesis using assms
    by (auto simp: plan_eval ForgetTable_def covered_def split: option.splits sum.splits)
next
  case (OpRecordSettledNotApplied k' q a r i)
  with op k have "pkey k \<noteq> pkey k'" by (metis pkey_inject uncovers.simps(3))
  with OpRecordSettledNotApplied cov show ?thesis
    by (auto simp: plan_eval RecordSettledNotApplied_def withAck_def covered_def split: option.splits)
qed (use cov in \<open>auto simp: plan_eval covered_def BeginPromotion_def RecordAck_def withAck_def
    RecordRefreshedAck_def recordAckedSafeInventory_def ClearOwedCleanupAck_def AddUnpromoted_def
    AddUnpromotedPart_def RemoveUnpromotedPart_def DrainUnpromoted_def
    NextRegistrationSeq_def ignore_def split: option.split sum.split\<close>)

section \<open>Sequences of operations and restarts\<close>

datatype state_event = Exec state_op write_outcome | Restart

fun events :: "'h :: ab_group_add lthash_lib \<Rightarrow> state_event list \<Rightarrow> stateStore \<Rightarrow> stateStore" where
  "events L [] st = st"
| "events L (Exec op w # evs) st = events L evs (snd (state_exec L op w st))"
| "events L (Restart # evs) st = events L evs (openStateStore (st_disk st))"

lemma events_preserve:
  assumes "\<And>op w s. Exec op w \<in> set evs \<Longrightarrow> P s \<Longrightarrow> P (planned (state_exec L op) s)"
  shows "store_all P st \<Longrightarrow> store_all P (events L evs st)"
  using assms
proof (induction L evs st rule: events.induct)
  case (2 L op w evs st)
  have "store_all P (snd (state_exec L op w st))"
    using 2(2) by (rule exec.preserves) (use 2(3) in auto)
  then have "store_all P (events L evs (snd (state_exec L op w st)))"
    by (rule 2(1)) (use 2(3) in auto)
  then show ?case by simp
next
  case (3 L evs st)
  then show ?case by (simp add: store_all_def openStateStore_def)
qed simp


definition demo_intent :: promotionIntent where
  "demo_intent = \<lparr>pi_PromotionSeq = 5, pi_BasePartitionRoot = [], pi_PostPartitionRoot = ''0xab00'',
     pi_BaseSafeSnapshotID = [], pi_CandidatePartHashes = [''0xab00''], pi_UnsafePartNames = [''a''],
     pi_SafePartsBefore = []\<rparr>"

definition demo_pending :: stateStore where
  "demo_pending = snd (BeginPromotion WriteOK demo_key demo_intent demo_store)"

lemma demo_pending_covered: "store_all (covered demo_key [''a'']) demo_pending"
  by (simp add: store_all_def demo_pending_def BeginPromotion_def demo_store_eq openStateStore_def
      readLocalState_def newLocalState_def persistStateLocked_def covered_def Let_def)


section \<open>Owed cleanup acknowledgements\<close>

definition held_by :: "CleanupAck \<Rightarrow> localState \<Rightarrow> bool" where
  "held_by ack s \<longleftrightarrow> (\<exists>a. fmlookup (OwedCleanupAcks s) (cleanupAckKey ack) = Some a \<and> ca_TableID a = ca_TableID ack)"

abbreviation plain_ack :: "CleanupAck \<Rightarrow> bool" where
  "plain_ack a \<equiv> plain (ca_TableID a) \<and> plain (ca_PartitionID a)"

lemma held_not_idle: "held_by ack s \<Longrightarrow> \<not> idle L (ca_TableID ack) s"
  by (auto simp: held_by_def idle_def)

lemma held_owe: "held_by ack (owe ack s)"
  by (simp add: held_by_def owe_def)

text \<open>Only the arbiter's acceptance releases the hold.\<close>

fun releases :: "CleanupAck \<Rightarrow> state_op \<Rightarrow> bool" where
  "releases ack (OpClearOwedCleanupAck a) = (cleanupAckKey a = cleanupAckKey ack)"
| "releases ack (OpRecordExecutedCleanup c a) = (\<not> plain_ack a)"
| "releases ack _ = False"

lemma held_cleaned:
  assumes "plain_ack ack" "plain_ack a" "held_by ack s"
  shows "held_by ack (cleaned_by c a s)"
  using assms cleanupAckKey_inject [of a ack]
  by (auto simp: held_by_def cleaned_by_def owe_def)

lemma held_planned:
  assumes "plain_ack ack" "\<not> releases ack op" "held_by ack s"
  shows "held_by ack (planned (state_exec L op) s)"
proof (cases op)
  case (OpRecordExecutedCleanup c a)
  have "held_by ack (cleaned_by c a s1)" if "removed_by L c s = Inr (b, s1)" for b s1
    using removed_by_frame [OF that] assms OpRecordExecutedCleanup
    by (intro held_cleaned) (auto simp: held_by_def)
  with OpRecordExecutedCleanup assms(3) show ?thesis by (simp add: cleanup_planned split: sum.split prod.split)
next
  case (OpRecordAppliedPromotion k q a r i hs ns)
  with assms(3) show ?thesis by (simp add: applied_planned applied_def held_by_def)
qed (use assms in \<open>auto simp: plan_eval held_by_def BeginPromotion_def RecordAck_def withAck_def
    RecordRefreshedAck_def recordAckedSafeInventory_def ClearOwedCleanupAck_def AddUnpromoted_def
    AddUnpromotedPart_def RemoveUnpromotedPart_def DrainUnpromoted_def RecordSettledNotApplied_def
    NextRegistrationSeq_def ignore_def ForgetTable_def split: option.split sum.split\<close>)

text \<open>
  C10. No crash opens the purge gate on an unacknowledged cleanup. Journaling an executed cleanup
  keeps the gate shut whatever the write's outcome, in memory and in the file; once it succeeded the
  acknowledgement is owed; and while it is owed, through any operations and restarts except the one
  that clears it, the table is not quiescent and cannot be forgotten.
\<close>

theorem owed_ack_holds_purge_gate:
  assumes "lthash L" and "plain_ack ack" and "acknowledges ack cmd"
  shows "(store_all (\<lambda>s. \<not> idle L (uc_TableID cmd) s) st \<longrightarrow>
      store_all (\<lambda>s. \<not> idle L (uc_TableID cmd) s) (snd (RecordExecutedCleanup L w cmd ack st))) \<and>
    (fst (RecordExecutedCleanup L w cmd ack st) = Inr () \<longrightarrow>
      held_by ack (st_mem (snd (RecordExecutedCleanup L w cmd ack st)))) \<and>
    (store_all (held_by ack) st \<and> (\<forall>op w. Exec op w \<in> set evs \<longrightarrow> \<not> releases ack op) \<longrightarrow>
      store_all (held_by ack) (events L evs st) \<and>
      quiescent L (uc_TableID cmd) (events L evs st) \<noteq> Inr True \<and>
      fst (ForgetTable L w (uc_TableID cmd) (events L evs st)) \<noteq> Inr ())"
proof (intro conjI impI)
  have table: "uc_TableID cmd = ca_TableID ack" using assms(3) by (simp add: acknowledges_def)
  have owed: "held_by ack (cleaned_by cmd ack s)" for s by (simp add: cleaned_by_def held_owe)
  then have plan: "planned (\<lambda>w. RecordExecutedCleanup L w cmd ack) s = s \<or>
      held_by ack (planned (\<lambda>w. RecordExecutedCleanup L w cmd ack) s)" for s
    by (auto simp: cleanup_planned split: sum.split)
  assume "store_all (\<lambda>s. \<not> idle L (uc_TableID cmd) s) st"
  then show "store_all (\<lambda>s. \<not> idle L (uc_TableID cmd) s) (snd (RecordExecutedCleanup L w cmd ack st))"
    by (rule executed_cleanup.preserves) (use plan [of "st_mem st"] held_not_idle table in metis)
next
  assume ok: "fst (RecordExecutedCleanup L w cmd ack st) = Inr ()"
  have mem: "st_mem (snd (RecordExecutedCleanup L w cmd ack st)) =
      planned (\<lambda>w. RecordExecutedCleanup L w cmd ack) (st_mem st)"
    using executed_cleanup.success [OF ok] by blast
  from ok assms(3) obtain c s1 where "removed_by L cmd (st_mem st) = Inr (c, s1)"
    by (auto simp: cleanup_run split: sum.splits)
  with assms(3) show "held_by ack (st_mem (snd (RecordExecutedCleanup L w cmd ack st)))"
    unfolding mem by (simp add: cleanup_planned cleaned_by_def held_owe)
next
  assume a: "store_all (held_by ack) st \<and> (\<forall>op w. Exec op w \<in> set evs \<longrightarrow> \<not> releases ack op)"
  have all: "store_all (held_by ack) (events L evs st)"
    using conjunct1 [OF a] by (rule events_preserve [rotated]) (use a held_planned [OF assms(2)] in blast)
  then show "store_all (held_by ack) (events L evs st)" .
  then have busy: "\<not> idle L (uc_TableID cmd) (st_mem (events L evs st))"
    using held_not_idle [of ack "st_mem (events L evs st)" L] assms(3)
    by (simp add: store_all_def acknowledges_def)
  show "quiescent L (uc_TableID cmd) (events L evs st) \<noteq> Inr True"
    using busy by (simp add: lthash.quiescent_idle [OF assms(1)])
  show "fst (ForgetTable L w (uc_TableID cmd) (events L evs st)) \<noteq> Inr ()"
    using busy lthash.ForgetTable_ok [OF assms(1)] by blast
qed

definition demo_cleanup :: UnsafeCleanup where
  "demo_cleanup = \<lparr>uc_TableID = ''t'', uc_PartitionID = ''p'', uc_PromotionSeq = 5,
     uc_Parts = [], uc_RejectedBlockSeq = 0\<rparr>"

definition demo_cleanup_ack :: CleanupAck where
  "demo_cleanup_ack = \<lparr>ca_NodeID = ''n'', ca_PromotionSeq = 5, ca_TableID = ''t'', ca_PartitionID = ''p'',
     ca_RejectedBlockSeq = 0\<rparr>"

definition demo_cleaned :: stateStore where
  "demo_cleaned = snd (RecordExecutedCleanup lane_lib WriteOK demo_cleanup demo_cleanup_ack (openStateStore None))"

theorem owed_ack_holds_purge_gate_witness:
  "store_all (held_by demo_cleanup_ack) demo_cleaned \<and>
   quiescent lane_lib ''t'' (events lane_lib [Exec (OpForgetTable ''t'') WriteOK, Restart] demo_cleaned) \<noteq> Inr True"
proof -
  have ack: "plain_ack demo_cleanup_ack" "acknowledges demo_cleanup_ack demo_cleanup"
    by (simp_all add: demo_cleanup_ack_def demo_cleanup_def acknowledges_def)
  have held: "store_all (held_by demo_cleanup_ack) demo_cleaned"
    using ack(2) by (simp add: demo_cleaned_def cleanup_run removed_by_def demo_cleanup_def openStateStore_def
        readLocalState_def newLocalState_def persistStateLocked_def store_all_def cleaned_by_def held_owe)
  with owed_ack_holds_purge_gate [OF lane.lthash_axioms ack, of demo_cleaned WriteOK
      "[Exec (OpForgetTable ''t'') WriteOK, Restart]"]
  show ?thesis by (simp add: demo_cleanup_def del: events.simps)
qed

section \<open>The registration sequence\<close>

lemma registration_planned:
  assumes "\<And>now. op \<noteq> OpNextRegistrationSeq now"
  shows "RegistrationSeq (planned (state_exec L op) s) = RegistrationSeq s"
proof (cases op)
  case (OpRecordExecutedCleanup c a)
  then show ?thesis
    by (auto simp: cleanup_planned cleaned_by_def owe_def forgetPromotedParts_def Let_def
        dest: removed_by_frame split: sum.split)
next
  case (OpRecordAppliedPromotion k q a r i hs ns)
  then show ?thesis by (simp add: applied_planned applied_def)
qed (use assms in \<open>auto simp: plan_eval BeginPromotion_def RecordAck_def withAck_def
    RecordRefreshedAck_def recordAckedSafeInventory_def ClearOwedCleanupAck_def AddUnpromoted_def
    AddUnpromotedPart_def RemoveUnpromotedPart_def DrainUnpromoted_def RecordSettledNotApplied_def
    ForgetTable_def split: option.split sum.split\<close>)

lemma NextRegistrationSeq_ok:
  "NextRegistrationSeq w now st = (Inr n, st') \<Longrightarrow>
     n = max (RegistrationSeq (st_mem st) + 1) now \<and> store_all (\<lambda>s. RegistrationSeq s = n) st'"
  by (auto simp: NextRegistrationSeq_def persistStateLocked_def Let_def store_all_def readLocalState_def
      split: write_outcome.splits)

text \<open>
  C17. A registration sequence is never reused. Each one handed out is at least the clock's
  milliseconds, and a later one, after any other operations, failed writes and crashes, is strictly
  larger, as long as the 64-bit counter has not reached its end.
\<close>

theorem registration_seq_increases:
  assumes "NextRegistrationSeq w now st = (Inr n, st')"
    and "\<forall>op w' now'. Exec op w' \<in> set evs \<longrightarrow> op \<noteq> OpNextRegistrationSeq now'"
    and "NextRegistrationSeq w2 now2 (events L evs st') = (Inr n2, st2)"
    and "n \<noteq> - 1"
  shows "now \<le> n \<and> n < n2"
proof -
  from NextRegistrationSeq_ok [OF assms(1)] have n: "now \<le> n" "store_all (\<lambda>s. RegistrationSeq s = n) st'"
    by auto
  have "store_all (\<lambda>s. RegistrationSeq s = n) (events L evs st')"
    using n(2) by (rule events_preserve [rotated]) (use assms(2) registration_planned in metis)
  with NextRegistrationSeq_ok [OF assms(3)] have "n2 = max (n + 1) now2" by (simp add: store_all_def)
  moreover have "n < n + 1" using assms(4) inc_less_eq_triv_imp [of n] by (meson not_le)
  ultimately show ?thesis using n(1) by (simp add: less_max_iff_disj)
qed

theorem registration_seq_increases_witness:
  "\<exists>st' st2. NextRegistrationSeq WriteOK 100 demo_store = (Inr 100, st') \<and>
     NextRegistrationSeq WriteOK 40 (events lane_lib [Restart] st') = (Inr 101, st2) \<and> (100 :: u64) < 101"
proof -
  obtain st' where 1: "NextRegistrationSeq WriteOK 100 demo_store = (Inr 100, st')"
    by (simp add: NextRegistrationSeq_def persistStateLocked_def demo_store_eq openStateStore_def
        readLocalState_def newLocalState_def Let_def)
  have "RegistrationSeq (st_mem (events lane_lib [Restart] st')) = 100"
    using NextRegistrationSeq_ok [OF 1] by (simp add: store_all_def openStateStore_def)
  then obtain st2 where 2: "NextRegistrationSeq WriteOK 40 (events lane_lib [Restart] st') = (Inr 101, st2)"
    by (simp add: NextRegistrationSeq_def persistStateLocked_def Let_def)
  from registration_seq_increases [OF 1 _ 2] 1 2 show ?thesis by auto
qed

section \<open>Acknowledgements and the audit reference\<close>

text \<open>
  C19. A promotion acknowledgement that applied nothing keeps the owner audit's reference. Journaling
  a refusal or a settled not-applied answer moves the watermark and the last acknowledgement and
  leaves the partition's acknowledged inventory as it was, even where a state written before the
  inventories were recorded holds it only in the last acknowledgement; the settled answer drops the
  intent of that promotion, and of no other.
\<close>

theorem not_applied_ack_keeps_inventory:
  assumes "\<not> pa_Applied ack"
  shows "(fst (RecordAck w k seq ack r i st) = Inr () \<longrightarrow>
      AckedSafeInventory k (snd (RecordAck w k seq ack r i st)) = AckedSafeInventory k st \<and>
      Watermark k (snd (RecordAck w k seq ack r i st)) = seq \<and>
      LastAck k (snd (RecordAck w k seq ack r i st)) = Some ack \<and>
      PendingPromotion k (snd (RecordAck w k seq ack r i st)) = PendingPromotion k st) \<and>
    (fst (RecordSettledNotApplied w k seq ack r i st) = Inr () \<longrightarrow>
      AckedSafeInventory k (snd (RecordSettledNotApplied w k seq ack r i st)) = AckedSafeInventory k st \<and>
      Watermark k (snd (RecordSettledNotApplied w k seq ack r i st)) = seq \<and>
      PendingPromotion k (snd (RecordSettledNotApplied w k seq ack r i st)) =
        (case PendingPromotion k st of
           Some p \<Rightarrow> if pi_PromotionSeq p = seq then None else Some p | None \<Rightarrow> None))"
proof -
  have keep: "ackedSafeInventoryOf (pkey k) (withAck (pkey k) seq ack r i s) = ackedSafeInventoryOf (pkey k) s" for s
    using assms by (auto simp: ackedSafeInventoryOf_def withAck_def split: option.splits)
  have drop_intent: "ackedSafeInventoryOf (pkey k) (s\<lparr>PromotionIntents := m\<rparr>) = ackedSafeInventoryOf (pkey k) s" for s m
    by (simp add: ackedSafeInventoryOf_def split: option.split)
  show ?thesis
    by (auto simp: RecordAck_def RecordSettledNotApplied_def persistStateLocked_def Let_def
        AckedSafeInventory_def keep drop_intent Watermark_def LastAck_def PendingPromotion_def
        split: write_outcome.splits option.splits) (auto simp: withAck_def)
qed

text \<open>A refused promotion of the partition promoted above.\<close>

definition demo_refusal :: PromotionAck where
  "demo_refusal = demo_ack\<lparr>pa_PromotionSeq := 6, pa_Applied := False, pa_SafePartitionParts := []\<rparr>"

theorem not_applied_ack_keeps_inventory_witness:
  "\<not> pa_Applied demo_refusal \<and>
   AckedSafeInventory demo_key (snd (RecordAck WriteOK demo_key 6 demo_refusal ''0xab00'' ''snap'' (snd demo_promoted))) =
     AckedSafeInventory demo_key (snd demo_promoted)"
proof -
  have n: "\<not> pa_Applied demo_refusal" by (simp add: demo_refusal_def)
  have "fst (RecordAck WriteOK demo_key 6 demo_refusal ''0xab00'' ''snap'' (snd demo_promoted)) = Inr ()"
    by (simp add: RecordAck_def persistStateLocked_def)
  with n not_applied_ack_keeps_inventory [OF n, of WriteOK demo_key 6 "''0xab00''" "''snap''" "snd demo_promoted"]
  show ?thesis by blast
qed

section \<open>A retried intake\<close>

text \<open>
  C25. A failed intake write is not made good by its retry. \<open>AddUnpromotedPart\<close> changes memory before
  it persists; when the write fails, the caller's retry finds the part recorded in memory and
  returns success without writing, so the part is acknowledged to the caller while the file, and the
  store after a restart, know nothing of it.
\<close>

theorem AddUnpromotedPart_retry_not_durable:
  assumes "fmlookup (IntakeParts (st_mem st)) (intakePartKey k n) = None"
    and "parses L (unpromoted k (st_mem st))" and "parses L h"
    and "st1 = snd (AddUnpromotedPart L WriteFailed k n h st)"
  shows "fst (AddUnpromotedPart L WriteFailed k n h st) = Inl ErrPersist \<and>
    AddUnpromotedPart L w k n h st1 = (Inr (), st1) \<and>
    st_disk st1 = st_disk st \<and> st_mem st1 \<noteq> st_mem st"
proof -
  obtain acc where acc: "rbind (parseAccumulatorHex L (unpromoted k (st_mem st))) (\<lambda>acc. addHashes L acc [h]) = Inr acc"
    using assms(2,3) by (auto simp: parses_iff)
  have run: "AddUnpromotedPart L WriteFailed k n h st =
      (Inl ErrPersist, st\<lparr>st_mem := (st_mem st)\<lparr>UnpromotedSums := fmupd (pkey k) (accumulatorHex L acc) (UnpromotedSums (st_mem st)),
         IntakeParts := fmupd (intakePartKey k n) h (IntakeParts (st_mem st))\<rparr>\<rparr>)"
    unfolding AddUnpromotedPart_def Let_def assms(1) option.case acc sum.case
    by (simp add: persistInPlace_def persistStateLocked_def)
  have "IntakeParts (st_mem st1) \<noteq> IntakeParts (st_mem st)"
    using assms(1) by (metis (no_types, lifting) run assms(4) fmupd_lookup localState.select_convs(6)
        localState.ext_inject localState.surjective localState.update_convs(5,6) option.distinct(1)
        snd_conv stateStore.select_convs(1) stateStore.surjective stateStore.update_convs(1))
  then have "st_mem st1 \<noteq> st_mem st" by metis
  then show ?thesis unfolding assms(4) run
    by (simp add: AddUnpromotedPart_def Let_def)
qed

theorem AddUnpromotedPart_retry_not_durable_witness:
  "let st1 = snd (AddUnpromotedPart lane_lib WriteFailed demo_key ''a'' ''0xab00'' (openStateStore None)) in
   AddUnpromotedPart lane_lib WriteOK demo_key ''a'' ''0xab00'' st1 = (Inr (), st1) \<and> st_disk st1 = None"
  using AddUnpromotedPart_retry_not_durable [OF _ _ _ refl, of "openStateStore None" demo_key "''a''" lane_lib "''0xab00''" WriteOK]
  by (simp add: Let_def openStateStore_def readLocalState_def newLocalState_def parses_def lane_parse)

section \<open>A retried intent\<close>

text \<open>
  C24. A repeated intent is not always durable. \<open>BeginPromotion\<close> answers an intent equal to the one in memory without
  writing. When the write of a not-applied answer fails after the rename, memory keeps the intent while the file has the answer
  in its place; the next promotion of the same command then passes \<open>BeginPromotion\<close>, whatever the disk does, and
  goes on to its REPLACE with no intent in the file. A crash there reopens a journal that says the command was not applied.
\<close>

theorem BeginPromotion_repeat_not_durable:
  assumes "PendingPromotion k st = Some i" "pi_PromotionSeq i = seq" "st_disk st = Some (st_mem st)"
    and "st1 = snd (RecordSettledNotApplied WriteUnsynced k seq ack root snap st)"
  shows "BeginPromotion wo k i st1 = (Inr (), st1) \<and> PendingPromotion k (openStateStore (st_disk st1)) = None \<and>
    LastAck k (openStateStore (st_disk st1)) = Some ack"
  using assms
  by (simp add: RecordSettledNotApplied_def Let_def withAck_def PendingPromotion_def persistStateLocked_def BeginPromotion_def
      promotionIntentsEqual_def promotionIntentCommandEqual_def openStateStore_def readLocalState_def LastAck_def)

theorem BeginPromotion_repeat_not_durable_witness:
  "let st = snd (BeginPromotion WriteOK demo_key demo_intent (openStateStore None));
       st1 = snd (RecordSettledNotApplied WriteUnsynced demo_key 5 demo_ack [] [] st)
   in BeginPromotion WriteFailed demo_key demo_intent st1 = (Inr (), st1) \<and>
      PendingPromotion demo_key (openStateStore (st_disk st1)) = None"
  using BeginPromotion_repeat_not_durable [OF _ _ _ refl, of demo_key "snd (BeginPromotion WriteOK demo_key demo_intent (openStateStore None))"
      demo_intent 5 WriteFailed demo_ack "[]" "[]"]
  by (simp add: Let_def BeginPromotion_def openStateStore_def readLocalState_def newLocalState_def persistStateLocked_def PendingPromotion_def
      demo_intent_def)

end
