(* ===== verification/SNode_Match.thy ===== *)
theory SNode_Match
  imports Chparts SNode_Safety
begin

text \<open>
  The decisions a promotion takes on what it scanned: which attached parts are candidates
  (\<open>snode/promote_subset.go\<close>), the refusals of duplicated rows and the intent
  (\<open>snode/promote_replace.go\<close>), the complete inventory of the replaced partition
  (\<open>snode/promote_match.go\<close>) and the match of a stored acknowledgement with a redelivered command
  (\<open>snode/promote.go\<close>). The statements around them are in \<open>SNode_Promote\<close>.
\<close>

section \<open>Candidates\<close>

record shadowPart =
  sh_Name :: string
  sh_RowLtHash :: string

datatype promote_error =
    ErrCandidateHashEmpty string
  | ErrCandidateHash string
  | ErrShadowHash string
  | ErrCandidatesMissing "string list"
  | ErrDuplicateCandidate string
  | ErrDuplicateShadowHash string
  | ErrSafeScanUnknown string
  | ErrSafeHashInvalid string
  | ErrSafeDuplicateHash string
  | ErrSafeScanOmitted
  | ErrSafeClosure
  | ErrCandidateInvalid string
  | ErrCandidateRepeated string
  | ErrCandidateAbsent string
  | ErrAckIdentity
  | ErrAckCandidates
  | ErrAckHashes
  | ErrAckPostRoot
  | ErrEmptyPartName
  | ErrBasePartsVanished "string list"
  | ErrShadowScanEmptyHash string
  | ErrShadowScanOmitted string
  | ErrShadowScanUnrequested
  | ErrShadowInventory
  | ErrRoot lt_error

definition candidateHashes :: "PromoteSafePartition \<Rightarrow> string list" where
  "candidateHashes cmd = sort (map pr_PartRowLtHash (ps_CandidateParts cmd))"

text \<open>The canonical hashes \<open>candidateMultiset\<close> counts, in the order of the command.\<close>

fun candidateKeys :: "'h :: ab_group_add lthash_lib \<Rightarrow> PartRef list \<Rightarrow> (promote_error, string list) result" where
  "candidateKeys L [] = Inr []"
| "candidateKeys L (cp # cps) =
     (if pr_PartRowLtHash cp = [] then Inl (ErrCandidateHashEmpty (pr_PartName cp))
      else case parseAccumulatorHex L (pr_PartRowLtHash cp) of
             Inl _ \<Rightarrow> Inl (ErrCandidateHash (pr_PartName cp))
           | Inr h \<Rightarrow> rbind (candidateKeys L cps) (\<lambda>ks. Inr (accumulatorHex L h # ks)))"

definition candidateMultiset ::
    "'h :: ab_group_add lthash_lib \<Rightarrow> PromoteSafePartition \<Rightarrow> (promote_error, string counter) result" where
  "candidateMultiset L cmd = rbind (candidateKeys L (ps_CandidateParts cmd)) (\<lambda>ks. Inr (counts ks))"

text \<open>The loop of \<open>matchShadowCandidates\<close> over the sorted shadow: kept, dropped, and what is still
  wanted.\<close>

fun matchLoop :: "'h :: ab_group_add lthash_lib \<Rightarrow> string counter \<Rightarrow> shadowPart list \<Rightarrow>
    (promote_error, string list \<times> string list \<times> string counter) result" where
  "matchLoop L want [] = Inr ([], [], want)"
| "matchLoop L want (p # ps) =
     (if sh_RowLtHash p = []
      then rbind (matchLoop L want ps) (\<lambda>(keep, dropped, w). Inr (keep, sh_Name p # dropped, w))
      else case parseAccumulatorHex L (sh_RowLtHash p) of
             Inl _ \<Rightarrow> Inl (ErrShadowHash (sh_Name p))
           | Inr h \<Rightarrow>
               (let k = accumulatorHex L h in
                if want k > 0
                then rbind (matchLoop L (want(k := want k - 1)) ps)
                       (\<lambda>(keep, dropped, w). Inr (sh_Name p # keep, dropped, w))
                else rbind (matchLoop L want ps)
                       (\<lambda>(keep, dropped, w). Inr (keep, sh_Name p # dropped, w))))"

text \<open>The candidates that no shadow part matched: each still wanted copy, once.\<close>

fun missingLoop :: "string counter \<Rightarrow> (string \<times> string) list \<Rightarrow> string list" where
  "missingLoop want [] = []"
| "missingLoop want ((name, k) # cps) =
     (if want k > 0 then name # missingLoop (want(k := want k - 1)) cps else missingLoop want cps)"

definition matchShadowCandidates ::
    "'h :: ab_group_add lthash_lib \<Rightarrow> PromoteSafePartition \<Rightarrow> shadowPart list \<Rightarrow>
     (promote_error, string list \<times> string list) result" where
  "matchShadowCandidates L cmd shadow =
     rbind (candidateKeys L (ps_CandidateParts cmd)) (\<lambda>ks.
     rbind (matchLoop L (counts ks) (sort_key sh_Name shadow)) (\<lambda>(keep, dropped, want).
     let missing = missingLoop want (zip (map pr_PartName (ps_CandidateParts cmd)) ks) in
     if missing \<noteq> [] then Inl (ErrCandidatesMissing missing) else Inr (keep, dropped)))"

definition refuseDuplicateCandidates ::
    "'h :: ab_group_add lthash_lib \<Rightarrow> PromoteSafePartition \<Rightarrow> (promote_error, unit) result" where
  "refuseDuplicateCandidates L cmd =
     rbind (candidateKeys L (ps_CandidateParts cmd)) (\<lambda>ks.
     case find (\<lambda>(cp, k). counts ks k > 1) (zip (ps_CandidateParts cmd) ks) of
       Some (cp, k) \<Rightarrow> Inl (ErrDuplicateCandidate (pr_PartName cp))
     | None \<Rightarrow> Inr ())"

fun duplicateShadowLoop :: "string list \<Rightarrow> shadowPart list \<Rightarrow> (promote_error, unit) result" where
  "duplicateShadowLoop seen [] = Inr ()"
| "duplicateShadowLoop seen (p # ps) =
     (if sh_RowLtHash p \<in> set seen then Inl (ErrDuplicateShadowHash (sh_Name p))
      else duplicateShadowLoop (sh_RowLtHash p # seen) ps)"

definition duplicateShadowPartHash :: "shadowPart list \<Rightarrow> (promote_error, unit) result" where
  "duplicateShadowPartHash parts = duplicateShadowLoop [] parts"

section \<open>The intent\<close>

definition promotionIntentFor :: "PromoteSafePartition \<Rightarrow> string \<Rightarrow> Part list \<Rightarrow> promotionIntent" where
  "promotionIntentFor cmd post safeBefore =
     \<lparr>pi_PromotionSeq = ps_PromotionSeq cmd,
      pi_BasePartitionRoot = ps_BasePartitionRoot cmd,
      pi_PostPartitionRoot = post,
      pi_BaseSafeSnapshotID = ps_BaseSafeSnapshotID cmd,
      pi_CandidatePartHashes = candidateHashes cmd,
      pi_UnsafePartNames = map pr_PartName (ps_CandidateParts cmd),
      pi_SafePartsBefore =
        map (\<lambda>p. \<lparr>psp_Name = pt_Name p, psp_PartitionID = pt_PartitionID p,
                  psp_PartitionValue = pt_PartitionValue p, psp_PhysHash = pt_PhysHash p\<rparr>) safeBefore\<rparr>"

definition promotionIntentMatchesCommand :: "promotionIntent \<Rightarrow> PromoteSafePartition \<Rightarrow> string \<Rightarrow> bool" where
  "promotionIntentMatchesCommand intent cmd post \<longleftrightarrow>
     pi_PromotionSeq intent = ps_PromotionSeq cmd \<and>
     pi_BasePartitionRoot intent = ps_BasePartitionRoot cmd \<and>
     pi_PostPartitionRoot intent = post \<and>
     pi_BaseSafeSnapshotID intent = ps_BaseSafeSnapshotID cmd \<and>
     pi_CandidatePartHashes intent = candidateHashes cmd \<and>
     pi_UnsafePartNames intent = map pr_PartName (ps_CandidateParts cmd)"

definition samePromotionSafeParts :: "promotionSafePart list \<Rightarrow> Part list \<Rightarrow> bool" where
  "samePromotionSafeParts before current \<longleftrightarrow>
     length before = length current \<and>
     list_all2 (\<lambda>b c. psp_Name b = pt_Name c \<and> psp_PhysHash b = pt_PhysHash c) before current"

section \<open>The inventory of the replaced partition\<close>

record safePartMappings =
  mp_Candidates :: "SafePartMapping list"
  mp_Partition :: "SafePartMapping list"

text \<open>The loop over the scans: the inventory, by hash, the active parts not seen yet, and the sum.\<close>

fun scanLoop :: "'h :: ab_group_add lthash_lib \<Rightarrow> PartScanResult list \<Rightarrow> (string, Part) fmap \<Rightarrow>
    (string, SafePartMapping) fmap \<Rightarrow> 'h \<Rightarrow>
    (promote_error, SafePartMapping list \<times> (string, Part) fmap \<times> (string, SafePartMapping) fmap \<times> 'h) result" where
  "scanLoop L [] infos byHash sm = Inr ([], infos, byHash, sm)"
| "scanLoop L (scan # scans) infos byHash sm =
     (case fmlookup infos (sc_PartName scan) of
        None \<Rightarrow> Inl (ErrSafeScanUnknown (sc_PartName scan))
      | Some info \<Rightarrow>
          (if pt_PhysHash info = [] then Inl (ErrSafeScanUnknown (sc_PartName scan))
           else case parseAccumulatorHex L (sc_RowLtHash scan) of
                  Inl _ \<Rightarrow> Inl (ErrSafeHashInvalid (sc_PartName scan))
                | Inr h \<Rightarrow>
                    (if sc_RowLtHash scan = [] then Inl (ErrSafeHashInvalid (sc_PartName scan))
                     else let k = accumulatorHex L h in
                       if fmlookup byHash k \<noteq> None then Inl (ErrSafeDuplicateHash k)
                       else let mapping = \<lparr>sm_PartRowLtHash = k, sm_SafePartName = sc_PartName scan,
                                           sm_PartPhysHash = pt_PhysHash info\<rparr> in
                         rbind (scanLoop L scans (fmdrop (sc_PartName scan) infos)
                                  (fmupd k mapping byHash) (sm + h))
                           (\<lambda>(out, rest). Inr (mapping # out, rest)))))"

fun candidateLoop :: "'h :: ab_group_add lthash_lib \<Rightarrow> PartRef list \<Rightarrow> string list \<Rightarrow>
    (string, SafePartMapping) fmap \<Rightarrow> (promote_error, SafePartMapping list) result" where
  "candidateLoop L [] seen byHash = Inr []"
| "candidateLoop L (cp # cps) seen byHash =
     (case parseAccumulatorHex L (pr_PartRowLtHash cp) of
        Inl _ \<Rightarrow> Inl (ErrCandidateInvalid (pr_PartName cp))
      | Inr h \<Rightarrow>
          (if pr_PartRowLtHash cp = [] then Inl (ErrCandidateInvalid (pr_PartName cp))
           else let k = accumulatorHex L h in
             if k \<in> set seen then Inl (ErrCandidateRepeated (pr_PartRowLtHash cp))
             else case fmlookup byHash k of
                    None \<Rightarrow> Inl (ErrCandidateAbsent (pr_PartRowLtHash cp))
                  | Some mapping \<Rightarrow>
                      rbind (candidateLoop L cps (k # seen) byHash)
                        (\<lambda>out. Inr (mapping\<lparr>sm_PartRowLtHash := pr_PartRowLtHash cp\<rparr> # out))))"

text \<open>\<open>safeMappings\<close> after its two queries: the partition's active parts and their scans.\<close>

definition inventoryOf :: "'h :: ab_group_add lthash_lib \<Rightarrow> Part list \<Rightarrow> PartScanResult list \<Rightarrow>
    PromoteSafePartition \<Rightarrow> string \<Rightarrow> (promote_error, safePartMappings) result" where
  "inventoryOf L after scans cmd post =
     rbind (scanLoop L scans (foldl (\<lambda>m p. fmupd (pt_Name p) p m) fmempty after) fmempty 0)
       (\<lambda>(inventory, infos, byHash, sm).
     if fmkeys infos \<noteq> [] then Inl ErrSafeScanOmitted
     else case parseAccumulatorHex L post of
            Inl _ \<Rightarrow> Inl ErrSafeClosure
          | Inr expected \<Rightarrow>
              (if sm \<noteq> expected then Inl ErrSafeClosure
               else rbind (candidateLoop L (ps_CandidateParts cmd) [] byHash)
                      (\<lambda>cs. Inr \<lparr>mp_Candidates = cs, mp_Partition = inventory\<rparr>)))"

section \<open>A stored acknowledgement\<close>

fun ackHashes :: "'h :: ab_group_add lthash_lib \<Rightarrow> SafePartMapping list \<Rightarrow> string list \<Rightarrow>
    (promote_error, string list) result" where
  "ackHashes L [] hs = Inr hs"
| "ackHashes L (p # ps) hs =
     (case parseAccumulatorHex L (sm_PartRowLtHash p) of
        Inl _ \<Rightarrow> Inl ErrAckHashes
      | Inr h \<Rightarrow>
          (if sm_PartRowLtHash p = [] \<or> accumulatorHex L h \<in> set hs then Inl ErrAckHashes
           else ackHashes L ps (accumulatorHex L h # hs)))"

fun ackCandidates :: "'h :: ab_group_add lthash_lib \<Rightarrow> PartRef list \<Rightarrow> string list \<Rightarrow>
    (promote_error, unit) result" where
  "ackCandidates L [] hs = Inr ()"
| "ackCandidates L (p # ps) hs =
     (case parseAccumulatorHex L (pr_PartRowLtHash p) of
        Inl _ \<Rightarrow> Inl ErrAckCandidates
      | Inr h \<Rightarrow>
          (if pr_PartRowLtHash p = [] \<or> accumulatorHex L h \<notin> set hs then Inl ErrAckCandidates
           else ackCandidates L ps (removeAll (accumulatorHex L h) hs)))"

definition legacyAckMatchesCommand ::
    "'h :: ab_group_add lthash_lib \<Rightarrow> PromotionAck \<Rightarrow> PromoteSafePartition \<Rightarrow> (promote_error, unit) result" where
  "legacyAckMatchesCommand L ack cmd =
     (if pa_TableID ack \<noteq> ps_TableID cmd \<or> pa_PartitionID ack \<noteq> ps_PartitionID cmd \<or>
         pa_PromotionSeq ack \<noteq> ps_PromotionSeq cmd then Inl ErrAckIdentity
      else if length (pa_Parts ack) \<noteq> length (ps_CandidateParts cmd) then Inl ErrAckCandidates
      else rbind (ackHashes L (pa_Parts ack) []) (\<lambda>hs.
           rbind (ackCandidates L (ps_CandidateParts cmd) hs) (\<lambda>_.
           case lthashCombineHexAll L (ps_BasePartitionRoot cmd) (candidateHashes cmd) of
             Inl _ \<Rightarrow> Inl ErrAckPostRoot
           | Inr post \<Rightarrow> if post \<noteq> pa_PostPartitionCommitment ack then Inl ErrAckPostRoot else Inr ())))"

section \<open>Matching\<close>

definition canon :: "'h :: ab_group_add lthash_lib \<Rightarrow> string \<Rightarrow> string" where
  "canon L s = accumulatorHex L (denotes L s)"

abbreviation valid_hash :: "'h :: ab_group_add lthash_lib \<Rightarrow> string \<Rightarrow> bool" where
  "valid_hash L s \<equiv> s \<noteq> [] \<and> parses L s"

lemma candidateKeys_eq:
  "candidateKeys L cps = Inr ks \<longleftrightarrow>
     (\<forall>cp \<in> set cps. valid_hash L (pr_PartRowLtHash cp)) \<and> ks = map (\<lambda>p. canon L (pr_PartRowLtHash p)) cps"
proof (induction cps arbitrary: ks)
  case (Cons cp cps)
  show ?case
  proof (cases "parseAccumulatorHex L (pr_PartRowLtHash cp)")
    case (Inr h)
    with parse_InrD [OF Inr] show ?thesis by (auto simp: result_simps Cons.IH canon_def)
  qed (auto simp: parses_def)
qed auto

text \<open>What the loop keeps is what \<open>claim\<close> takes of the parts with rows.\<close>

lemma matchLoop_spec:
  "matchLoop L (\<lambda>x. int (count M x)) ps = Inr (keep, dropped, w) \<Longrightarrow>
     \<exists>kept. subseq kept ps \<and> keep = map sh_Name kept \<and> (\<forall>p \<in> set kept. valid_hash L (sh_RowLtHash p)) \<and>
       mset keep + mset dropped = mset (map sh_Name ps) \<and>
       mset (map (\<lambda>p. canon L (sh_RowLtHash p)) kept) \<subseteq># M \<and>
       w = (\<lambda>x. int (count (M - mset (map (\<lambda>p. canon L (sh_RowLtHash p)) kept)) x)) \<and>
       M - mset (map (\<lambda>p. canon L (sh_RowLtHash p)) kept) =
       M - mset (map (\<lambda>p. canon L (sh_RowLtHash p)) (filter (\<lambda>p. sh_RowLtHash p \<noteq> []) ps))"
proof (induction ps arbitrary: M keep dropped w)
  case (Cons p ps)
  show ?case
  proof (cases "sh_RowLtHash p = []")
    case True
    with Cons.prems obtain d where "matchLoop L (\<lambda>x. int (count M x)) ps = Inr (keep, d, w)" "dropped = sh_Name p # d"
      by (auto simp: result_simps)
    from Cons.IH [OF this(1)] this(2) True show ?thesis by auto
  next
    case False
    with Cons.prems obtain h where h: "parseAccumulatorHex L (sh_RowLtHash p) = Inr h"
      by (cases "parseAccumulatorHex L (sh_RowLtHash p)") auto
    let ?k = "accumulatorHex L h"
    have k: "canon L (sh_RowLtHash p) = ?k" "parses L (sh_RowLtHash p)" using parse_InrD [OF h] by (simp_all add: canon_def)
    show ?thesis
    proof (cases "?k \<in># M")
      case True
      then have upd: "(\<lambda>x. int (count M x))(?k := int (count M ?k) - 1) = (\<lambda>x. int (count (M - {#?k#}) x))"
        by (auto simp: fun_eq_iff)
      from Cons.prems False True obtain k' where
        rest: "matchLoop L (\<lambda>x. int (count (M - {#?k#}) x)) ps = Inr (k', dropped, w)" "keep = sh_Name p # k'"
        by (auto simp: h Let_def result_simps upd)
      from Cons.IH [OF rest(1)] obtain kept where ih:
        "subseq kept ps" "k' = map sh_Name kept" "\<forall>p \<in> set kept. valid_hash L (sh_RowLtHash p)"
        "mset k' + mset dropped = mset (map sh_Name ps)"
        "mset (map (\<lambda>p. canon L (sh_RowLtHash p)) kept) \<subseteq># M - {#?k#}"
        "w = (\<lambda>x. int (count (M - {#?k#} - mset (map (\<lambda>p. canon L (sh_RowLtHash p)) kept)) x))"
        "M - {#?k#} - mset (map (\<lambda>p. canon L (sh_RowLtHash p)) kept) =
         M - {#?k#} - mset (map (\<lambda>p. canon L (sh_RowLtHash p)) (filter (\<lambda>p. sh_RowLtHash p \<noteq> []) ps))"
        by blast
      have "mset (map (\<lambda>p. canon L (sh_RowLtHash p)) (p # kept)) \<subseteq># M"
        using ih(5) True k by (simp add: insert_subset_eq_iff)
      moreover have diff: "M - {#?k#} - N = M - add_mset ?k N" for N by (simp add: multiset_eq_iff)
      have "w = (\<lambda>x. int (count (M - mset (map (\<lambda>p. canon L (sh_RowLtHash p)) (p # kept))) x))"
        unfolding ih(6) diff using k by simp
      moreover have "M - mset (map (\<lambda>p. canon L (sh_RowLtHash p)) (p # kept)) =
          M - mset (map (\<lambda>p. canon L (sh_RowLtHash p)) (filter (\<lambda>p. sh_RowLtHash p \<noteq> []) (p # ps)))"
        using ih(7) False k unfolding diff by simp
      moreover have "mset keep + mset dropped = mset (map sh_Name (p # ps))" using ih(4) rest(2) by simp
      moreover have "keep = map sh_Name (p # kept)" using ih(2) rest(2) by simp
      moreover have "subseq (p # kept) (p # ps)" using ih(1) by simp
      moreover have "\<forall>q \<in> set (p # kept). valid_hash L (sh_RowLtHash q)" using ih(3) k False by simp
      ultimately show ?thesis by blast
    next
      case out: False
      then have "\<not> 0 < int (count M ?k)" by (simp add: count_eq_zero_iff)
      with Cons.prems False obtain d where
        rest: "matchLoop L (\<lambda>x. int (count M x)) ps = Inr (keep, d, w)" "dropped = sh_Name p # d"
        by (auto simp: h Let_def result_simps)
      have "M - add_mset ?k N = M - N" for N using out by (auto simp: multiset_eq_iff not_in_iff)
      with Cons.IH [OF rest(1)] rest(2) False k show ?thesis by auto
    qed
  qed
qed auto

lemma matchLoop_total:
  "\<forall>p \<in> set ps. sh_RowLtHash p = [] \<or> parses L (sh_RowLtHash p) \<Longrightarrow> \<exists>r. matchLoop L want ps = Inr r"
proof (induction ps arbitrary: want)
  case (Cons p ps)
  show ?case
  proof (cases "sh_RowLtHash p = []")
    case True
    from Cons.IH [of want] Cons.prems obtain r where "matchLoop L want ps = Inr r" by auto
    with True show ?thesis by (cases r) simp
  next
    case False
    with Cons.prems obtain h where h: "parseAccumulatorHex L (sh_RowLtHash p) = Inr h"
      by (auto simp: parses_def is_ok_iff)
    from Cons.prems have all: "\<forall>p \<in> set ps. sh_RowLtHash p = [] \<or> parses L (sh_RowLtHash p)" by simp
    obtain r where r: "matchLoop L want ps = Inr r" using Cons.IH [OF all] by blast
    obtain r' where r': "matchLoop L (want(accumulatorHex L h := want (accumulatorHex L h) - 1)) ps = Inr r'"
      using Cons.IH [OF all] by blast
    from False h r r' show ?thesis by (cases r; cases r') (simp add: Let_def del: fun_upd_apply)
  qed
qed auto

lemma missingLoop_Nil:
  "length names = length ks \<Longrightarrow> missingLoop w (zip names ks) = [] \<longleftrightarrow> (\<forall>k \<in> set ks. w k \<le> 0)"
  by (induction names ks rule: list_induct2) auto

lemma mset_sum_map: "mset (map f xs) = mset (map g ys) \<Longrightarrow> sum_list (map f xs) = (sum_list (map g ys) :: 'a :: comm_monoid_add)"
  by (metis sum_mset_sum_list)

lemma matched_sum:
  assumes "lthash L" "mset (map (\<lambda>p. canon L (f p)) ps) = mset (map (\<lambda>q. canon L (g q)) qs)"
  shows "(\<Sum>p\<leftarrow>ps. denotes L (f p)) = (\<Sum>q\<leftarrow>qs. denotes L (g q))"
proof -
  have c: "denotes L (canon L x) = denotes L x" for x
    by (simp add: canon_def lthash.denotes_accumulatorHex [OF assms(1)])
  have "mset (map (denotes L) (map (\<lambda>p. canon L (f p)) ps)) = mset (map (denotes L) (map (\<lambda>q. canon L (g q)) qs))"
    using assms(2) by (metis mset_map)
  then have "mset (map (\<lambda>p. denotes L (f p)) ps) = mset (map (\<lambda>q. denotes L (g q)) qs)"
    by (simp add: c o_def)
  then show ?thesis by (rule mset_sum_map)
qed

lemma covered_zero:
  "(\<forall>x \<in># A. count (A - B) x = 0) \<longleftrightarrow> A \<subseteq># B"
proof
  assume a: "\<forall>x \<in># A. count (A - B) x = 0"
  show "A \<subseteq># B"
  proof (rule mset_subset_eqI)
    fix x show "count A x \<le> count B x" using a by (cases "x \<in># A") (auto simp: not_in_iff)
  qed
qed (simp add: subseteq_mset_def)

lemma subseq_sorted: "subseq xs ys \<Longrightarrow> sorted ys \<Longrightarrow> sorted xs"
  by (induction rule: list_emb.induct) (auto dest: list_emb_set)

lemma subseq_submset: "subseq xs ys \<Longrightarrow> mset xs \<subseteq># mset ys"
  by (induction rule: list_emb.induct) (simp_all add: subseteq_mset_def le_SucI)

lemma match_sound:
  assumes "matchShadowCandidates L cmd shadow = Inr (keep, dropped)"
  shows "\<exists>kept. mset kept \<subseteq># mset shadow \<and> keep = map sh_Name kept \<and> sorted keep \<and>
         (\<forall>p \<in> set kept. sh_RowLtHash p \<noteq> []) \<and>
         mset keep + mset dropped = mset (map sh_Name shadow) \<and>
         mset (map (\<lambda>p. canon L (sh_RowLtHash p)) kept) =
           mset (map (\<lambda>p. canon L (pr_PartRowLtHash p)) (ps_CandidateParts cmd))"
proof -
  let ?ks = "map (\<lambda>p. canon L (pr_PartRowLtHash p)) (ps_CandidateParts cmd)"
  let ?sh = "sort_key sh_Name shadow"
  from assms obtain w where run: "matchLoop L (\<lambda>x. int (count (mset ?ks) x)) ?sh = Inr (keep, dropped, w)"
    and none: "missingLoop w (zip (map pr_PartName (ps_CandidateParts cmd)) ?ks) = []"
    by (auto simp: matchShadowCandidates_def result_simps candidateKeys_eq counts_eq Let_def split: if_splits)
  from matchLoop_spec [OF run] obtain kept where k:
    "subseq kept ?sh" "keep = map sh_Name kept" "\<forall>p \<in> set kept. valid_hash L (sh_RowLtHash p)"
    "mset keep + mset dropped = mset (map sh_Name ?sh)"
    "mset (map (\<lambda>p. canon L (sh_RowLtHash p)) kept) \<subseteq># mset ?ks"
    and w: "w = (\<lambda>x. int (count (mset ?ks - mset (map (\<lambda>p. canon L (sh_RowLtHash p)) kept)) x))"
    by blast
  have "\<forall>x \<in> set ?ks. w x \<le> 0" using none missingLoop_Nil [of "map pr_PartName (ps_CandidateParts cmd)" ?ks w] by simp
  then have "\<forall>x \<in># mset ?ks. count (mset ?ks - mset (map (\<lambda>p. canon L (sh_RowLtHash p)) kept)) x = 0"
    unfolding w by simp
  then have "mset ?ks \<subseteq># mset (map (\<lambda>p. canon L (sh_RowLtHash p)) kept)" unfolding covered_zero .
  with k(5) have eq: "mset (map (\<lambda>p. canon L (sh_RowLtHash p)) kept) = mset ?ks"
    by (rule subset_mset.antisym)
  have "sorted (map sh_Name kept)"
    using subseq_map [OF k(1), of sh_Name] by (rule subseq_sorted) simp
  moreover have "mset kept \<subseteq># mset shadow" using subseq_submset [OF k(1)] by simp
  ultimately show ?thesis using k eq by (intro exI [of _ kept]) simp
qed

lemma match_iff:
  assumes ok: "\<forall>p \<in> set shadow. sh_RowLtHash p = [] \<or> parses L (sh_RowLtHash p)"
  shows "is_ok (matchShadowCandidates L cmd shadow) \<longleftrightarrow>
    (\<forall>p \<in> set (ps_CandidateParts cmd). valid_hash L (pr_PartRowLtHash p)) \<and>
    mset (map (\<lambda>p. canon L (pr_PartRowLtHash p)) (ps_CandidateParts cmd)) \<subseteq>#
      mset (map (\<lambda>p. canon L (sh_RowLtHash p)) (filter (\<lambda>p. sh_RowLtHash p \<noteq> []) shadow))"
proof (cases "candidateKeys L (ps_CandidateParts cmd)")
  case (Inl e)
  moreover have "\<not> (\<forall>p \<in> set (ps_CandidateParts cmd). valid_hash L (pr_PartRowLtHash p))"
    using candidateKeys_eq [of L "ps_CandidateParts cmd"] Inl by fastforce
  ultimately show ?thesis by (simp add: matchShadowCandidates_def)
next
  case (Inr ks)
  then have ks: "ks = map (\<lambda>p. canon L (pr_PartRowLtHash p)) (ps_CandidateParts cmd)"
    and valid: "\<forall>p \<in> set (ps_CandidateParts cmd). valid_hash L (pr_PartRowLtHash p)"
    by (simp_all add: candidateKeys_eq)
  let ?sh = "sort_key sh_Name shadow"
  let ?rows = "mset (map (\<lambda>p. canon L (sh_RowLtHash p)) (filter (\<lambda>p. sh_RowLtHash p \<noteq> []) shadow))"
  have "\<forall>p \<in> set ?sh. sh_RowLtHash p = [] \<or> parses L (sh_RowLtHash p)" using ok by simp
  from matchLoop_total [OF this, of "\<lambda>x. int (count (mset ks) x)"] obtain keep dropped w
    where run: "matchLoop L (\<lambda>x. int (count (mset ks) x)) ?sh = Inr (keep, dropped, w)"
    by (metis prod_cases3)
  have "mset (map (\<lambda>p. canon L (sh_RowLtHash p)) (filter (\<lambda>p. sh_RowLtHash p \<noteq> []) ?sh)) = ?rows"
    by (simp add: mset_map mset_filter)
  with matchLoop_spec [OF run] have w: "w = (\<lambda>x. int (count (mset ks - ?rows) x))" by metis
  have "missingLoop w (zip (map pr_PartName (ps_CandidateParts cmd)) ks) = [] \<longleftrightarrow> mset ks \<subseteq># ?rows"
    using missingLoop_Nil [of "map pr_PartName (ps_CandidateParts cmd)" ks w]
    unfolding covered_zero [symmetric] by (simp add: w ks)
  then show ?thesis
    using run valid unfolding matchShadowCandidates_def Inr counts_eq by (simp add: ks Let_def)
qed

section \<open>Properties of the matching\<close>

text \<open>
  C14. The subset match keeps exactly the candidates. When \<open>matchShadowCandidates\<close> answers, the kept
  and dropped names are together the attached parts, the kept parts carry the candidates' row
  hashes as a multiset (so their rows sum to the candidates'), and no part without rows is kept. It
  answers whenever every hash is well formed and the candidates are a sub-multiset of the attached
  parts that hold rows, and only then.
\<close>

theorem matchShadowCandidates_correct:
  assumes "lthash L"
  shows "(\<forall>keep dropped. matchShadowCandidates L cmd shadow = Inr (keep, dropped) \<longrightarrow>
      (\<exists>kept. mset kept \<subseteq># mset shadow \<and> keep = map sh_Name kept \<and> sorted keep \<and>
         (\<forall>p \<in> set kept. sh_RowLtHash p \<noteq> []) \<and>
         mset keep + mset dropped = mset (map sh_Name shadow) \<and>
         mset (map (\<lambda>p. canon L (sh_RowLtHash p)) kept) =
           mset (map (\<lambda>p. canon L (pr_PartRowLtHash p)) (ps_CandidateParts cmd)) \<and>
         (\<Sum>p\<leftarrow>kept. denotes L (sh_RowLtHash p)) = (\<Sum>p\<leftarrow>ps_CandidateParts cmd. denotes L (pr_PartRowLtHash p)))) \<and>
    ((\<forall>p \<in> set shadow. sh_RowLtHash p = [] \<or> parses L (sh_RowLtHash p)) \<longrightarrow>
      (is_ok (matchShadowCandidates L cmd shadow) \<longleftrightarrow>
         (\<forall>p \<in> set (ps_CandidateParts cmd). valid_hash L (pr_PartRowLtHash p)) \<and>
         mset (map (\<lambda>p. canon L (pr_PartRowLtHash p)) (ps_CandidateParts cmd)) \<subseteq>#
           mset (map (\<lambda>p. canon L (sh_RowLtHash p)) (filter (\<lambda>p. sh_RowLtHash p \<noteq> []) shadow))))"
  using match_sound [of L cmd shadow] matched_sum [OF assms] match_iff [of shadow L cmd] by blast

text \<open>Two candidates of one hash in a different spelling, and an attached partition with a stray.\<close>

definition demo_cmd :: PromoteSafePartition where
  "demo_cmd = \<lparr>ps_TableID = ''t'', ps_PartitionID = ''all'', ps_PromotionSeq = 5, ps_BaseSafeSnapshotID = ''snap'',
     ps_BasePartitionRoot = ''0x2000'',
     ps_CandidateParts = [\<lparr>pr_TableID = ''t'', pr_PartitionID = ''all'', pr_PartRowLtHash = ''0xAB00'', pr_PartName = ''a''\<rparr>]\<rparr>"

theorem matchShadowCandidates_correct_witness:
  "\<exists>kept. mset kept \<subseteq># mset [\<lparr>sh_Name = ''y'', sh_RowLtHash = ''0x2000''\<rparr>, \<lparr>sh_Name = ''x'', sh_RowLtHash = ''0xab00''\<rparr>] \<and>
     map sh_Name kept = [''x''] \<and>
     matchShadowCandidates lane_lib demo_cmd
       [\<lparr>sh_Name = ''y'', sh_RowLtHash = ''0x2000''\<rparr>, \<lparr>sh_Name = ''x'', sh_RowLtHash = ''0xab00''\<rparr>] = Inr ([''x''], [''y''])"
proof -
  have run: "matchShadowCandidates lane_lib demo_cmd
       [\<lparr>sh_Name = ''y'', sh_RowLtHash = ''0x2000''\<rparr>, \<lparr>sh_Name = ''x'', sh_RowLtHash = ''0xab00''\<rparr>] = Inr ([''x''], [''y''])"
    by (simp add: matchShadowCandidates_def demo_cmd_def lane_parse lane_hex counts_def Let_def)
  with conjunct1 [OF matchShadowCandidates_correct [OF lane.lthash_axioms]] show ?thesis by metis
qed

section \<open>The complete inventory\<close>

lemma scanLoop_Cons:
  assumes "scanLoop L (scan # scans) infos byHash sm = Inr (out, r)"
  obtains info h out' where
    "fmlookup infos (sc_PartName scan) = Some info" "pt_PhysHash info \<noteq> []"
    "parseAccumulatorHex L (sc_RowLtHash scan) = Inr h" "sc_RowLtHash scan \<noteq> []"
    "fmlookup byHash (accumulatorHex L h) = None"
    "out = \<lparr>sm_PartRowLtHash = accumulatorHex L h, sm_SafePartName = sc_PartName scan, sm_PartPhysHash = pt_PhysHash info\<rparr> # out'"
    "scanLoop L scans (fmdrop (sc_PartName scan) infos)
       (fmupd (accumulatorHex L h) \<lparr>sm_PartRowLtHash = accumulatorHex L h, sm_SafePartName = sc_PartName scan,
          sm_PartPhysHash = pt_PhysHash info\<rparr> byHash) (sm + h) = Inr (out', r)"
  using assms by (auto simp: Let_def rbind_Inr_iff split: option.splits sum.splits if_splits)

text \<open>The names: each scan is of an active part, and of one not scanned before.\<close>

lemma scanLoop_names:
  "scanLoop L scans infos byHash sm = Inr (out, infos', byHash', sm') \<Longrightarrow>
     map sm_SafePartName out = map sc_PartName scans \<and> distinct (map sc_PartName scans) \<and>
     (\<forall>n. fmlookup infos' n = (if n \<in> set (map sc_PartName scans) then None else fmlookup infos n)) \<and>
     (\<forall>m \<in> set out. \<exists>p. fmlookup infos (sm_SafePartName m) = Some p \<and> sm_PartPhysHash m = pt_PhysHash p \<and> pt_PhysHash p \<noteq> [])"
proof (induction scans arbitrary: infos byHash sm out)
  case (Cons scan scans)
  from Cons.prems obtain info h out' where
    info: "fmlookup infos (sc_PartName scan) = Some info" "pt_PhysHash info \<noteq> []"
    and out: "out = \<lparr>sm_PartRowLtHash = accumulatorHex L h, sm_SafePartName = sc_PartName scan, sm_PartPhysHash = pt_PhysHash info\<rparr> # out'"
    and rest: "scanLoop L scans (fmdrop (sc_PartName scan) infos)
       (fmupd (accumulatorHex L h) \<lparr>sm_PartRowLtHash = accumulatorHex L h, sm_SafePartName = sc_PartName scan,
          sm_PartPhysHash = pt_PhysHash info\<rparr> byHash) (sm + h) = Inr (out', infos', byHash', sm')"
    by (rule scanLoop_Cons)
  note ih = Cons.IH [OF rest]
  have known: "\<exists>p. fmlookup (fmdrop (sc_PartName scan) infos) n = Some p" if "n \<in> set (map sc_PartName scans)" for n
  proof -
    from that ih have "n \<in> set (map sm_SafePartName out')" by simp
    then obtain m where "m \<in> set out'" "n = sm_SafePartName m" by auto
    then show ?thesis using ih by blast
  qed
  have fresh: "sc_PartName scan \<notin> set (map sc_PartName scans)"
  proof
    assume "sc_PartName scan \<in> set (map sc_PartName scans)"
    from known [OF this] show False by simp
  qed
  have here: "\<exists>p. fmlookup infos (sm_SafePartName m) = Some p \<and> sm_PartPhysHash m = pt_PhysHash p \<and> pt_PhysHash p \<noteq> []"
    if "m \<in> set out'" for m
  proof -
    from ih that obtain p where "fmlookup (fmdrop (sc_PartName scan) infos) (sm_SafePartName m) = Some p"
      "sm_PartPhysHash m = pt_PhysHash p" "pt_PhysHash p \<noteq> []" by blast
    then show ?thesis by (auto split: if_splits)
  qed
  show ?case
  proof (intro conjI)
    show "map sm_SafePartName out = map sc_PartName (scan # scans)" using conjunct1 [OF ih] by (simp add: out)
    show "distinct (map sc_PartName (scan # scans))" using fresh conjunct1 [OF conjunct2 [OF ih]] by simp
    show "\<forall>n. fmlookup infos' n = (if n \<in> set (map sc_PartName (scan # scans)) then None else fmlookup infos n)"
      using conjunct1 [OF conjunct2 [OF conjunct2 [OF ih]]] by simp
    show "\<forall>m \<in> set out. \<exists>p. fmlookup infos (sm_SafePartName m) = Some p \<and> sm_PartPhysHash m = pt_PhysHash p \<and> pt_PhysHash p \<noteq> []"
      using here info by (simp add: out)
  qed
qed auto

text \<open>The hashes: canonical, distinct, and summed.\<close>

lemma scanLoop_hashes:
  "scanLoop L scans infos byHash sm = Inr (out, infos', byHash', sm') \<Longrightarrow>
     map sm_PartRowLtHash out = map (\<lambda>s. canon L (sc_RowLtHash s)) scans \<and>
     distinct (map sm_PartRowLtHash out) \<and> (\<forall>m \<in> set out. fmlookup byHash (sm_PartRowLtHash m) = None) \<and>
     sm' = sm + (\<Sum>s\<leftarrow>scans. denotes L (sc_RowLtHash s)) \<and>
     (\<forall>k m. fmlookup byHash' k = Some m \<longleftrightarrow> fmlookup byHash k = Some m \<or> m \<in> set out \<and> sm_PartRowLtHash m = k)"
proof (induction scans arbitrary: infos byHash sm out)
  case (Cons scan scans)
  from Cons.prems obtain info h out' where
    "fmlookup infos (sc_PartName scan) = Some info"
    and h: "parseAccumulatorHex L (sc_RowLtHash scan) = Inr h"
    and new: "fmlookup byHash (accumulatorHex L h) = None"
    and out: "out = \<lparr>sm_PartRowLtHash = accumulatorHex L h, sm_SafePartName = sc_PartName scan, sm_PartPhysHash = pt_PhysHash info\<rparr> # out'"
    and rest: "scanLoop L scans (fmdrop (sc_PartName scan) infos)
       (fmupd (accumulatorHex L h) \<lparr>sm_PartRowLtHash = accumulatorHex L h, sm_SafePartName = sc_PartName scan,
          sm_PartPhysHash = pt_PhysHash info\<rparr> byHash) (sm + h) = Inr (out', infos', byHash', sm')"
    by (rule scanLoop_Cons)
  have c: "canon L (sc_RowLtHash scan) = accumulatorHex L h" "denotes L (sc_RowLtHash scan) = h"
    using parse_InrD [OF h] by (simp_all add: canon_def)
  note ih = Cons.IH [OF rest]
  have fresh: "accumulatorHex L h \<notin> set (map sm_PartRowLtHash out')"
    using ih by (metis (no_types, lifting) fmupd_lookup imageE list.set_map option.distinct(1))
  have old: "\<forall>m \<in> set out'. fmlookup byHash (sm_PartRowLtHash m) = None"
    using ih by (metis fmupd_lookup option.distinct(1))
  show ?case
  proof (intro conjI)
    show "\<forall>k m. fmlookup byHash' k = Some m \<longleftrightarrow> fmlookup byHash k = Some m \<or> m \<in> set out \<and> sm_PartRowLtHash m = k"
      using ih new unfolding out by (auto split: if_splits)
    show "sm' = sm + (\<Sum>s\<leftarrow>scan # scans. denotes L (sc_RowLtHash s))" using ih c by (simp add: add.assoc)
    show "map sm_PartRowLtHash out = map (\<lambda>s. canon L (sc_RowLtHash s)) (scan # scans)"
      using conjunct1 [OF ih] c by (simp add: out)
    show "distinct (map sm_PartRowLtHash out)"
      using fresh conjunct1 [OF conjunct2 [OF ih]] by (simp add: out)
    show "\<forall>m \<in> set out. fmlookup byHash (sm_PartRowLtHash m) = None" using old new by (simp add: out)
  qed
qed auto

lemma candidateLoop_spec:
  "candidateLoop L cps seen byHash = Inr cs \<Longrightarrow>
     (\<forall>cp \<in> set cps. valid_hash L (pr_PartRowLtHash cp)) \<and>
     distinct (map (\<lambda>p. canon L (pr_PartRowLtHash p)) cps) \<and>
     set (map (\<lambda>p. canon L (pr_PartRowLtHash p)) cps) \<inter> set seen = {} \<and>
     list_all2 (\<lambda>cp m. \<exists>m0. fmlookup byHash (canon L (pr_PartRowLtHash cp)) = Some m0 \<and>
       m = m0\<lparr>sm_PartRowLtHash := pr_PartRowLtHash cp\<rparr>) cps cs"
proof (induction cps arbitrary: seen cs)
  case (Cons cp cps)
  from Cons.prems obtain h m0 cs' where h: "parseAccumulatorHex L (pr_PartRowLtHash cp) = Inr h"
    and ne: "pr_PartRowLtHash cp \<noteq> []" and new: "accumulatorHex L h \<notin> set seen"
    and m0: "fmlookup byHash (accumulatorHex L h) = Some m0"
    and rest: "candidateLoop L cps (accumulatorHex L h # seen) byHash = Inr cs'"
    and cs: "cs = m0\<lparr>sm_PartRowLtHash := pr_PartRowLtHash cp\<rparr> # cs'"
    by (auto simp: Let_def rbind_Inr_iff split: sum.splits if_splits option.splits)
  have c: "canon L (pr_PartRowLtHash cp) = accumulatorHex L h" "parses L (pr_PartRowLtHash cp)"
    using parse_InrD [OF h] by (simp_all add: canon_def)
  from Cons.IH [OF rest] c ne new m0 cs show ?case by auto
qed auto

lemma infos_lookup:
  assumes "distinct (map pt_Name after)"
  shows "fmlookup (foldl (\<lambda>m p. fmupd (pt_Name p) p m) m after) n =
    (case find (\<lambda>p. pt_Name p = n) after of Some p \<Rightarrow> Some p | None \<Rightarrow> fmlookup m n)"
  using assms
proof (induction after arbitrary: m)
  case (Cons p after)
  from Cons.prems have "find (\<lambda>q. pt_Name q = pt_Name p) after = None"
    unfolding find_None_iff by (simp add: image_iff) metis
  with Cons show ?case by (auto split: option.split)
qed simp

text \<open>What an inventory is made of: the loop over the scans, which leaves no part out, and the loop over the candidates.\<close>

lemma inventoryOf_runs:
  assumes "inventoryOf L after scans cmd post = Inr mp" "distinct (map pt_Name after)"
  obtains infos byHash sm where
    "scanLoop L scans (foldl (\<lambda>m p. fmupd (pt_Name p) p m) fmempty after) fmempty 0 = Inr (mp_Partition mp, infos, byHash, sm)"
    "\<And>n. fmlookup infos n = None" "parseAccumulatorHex L post = Inr sm"
    "candidateLoop L (ps_CandidateParts cmd) [] byHash = Inr (mp_Candidates mp)"
    "\<And>n. fmlookup (foldl (\<lambda>m p. fmupd (pt_Name p) p m) fmempty after) n = find (\<lambda>p. pt_Name p = n) after"
proof -
  from assms(1) obtain infos byHash sm where
    scan: "scanLoop L scans (foldl (\<lambda>m p. fmupd (pt_Name p) p m) fmempty after) fmempty 0 = Inr (mp_Partition mp, infos, byHash, sm)"
    and all: "fmkeys infos = []" and post: "parseAccumulatorHex L post = Inr sm"
    and cand: "candidateLoop L (ps_CandidateParts cmd) [] byHash = Inr (mp_Candidates mp)"
    by (auto simp: inventoryOf_def rbind_Inr_iff split: if_splits sum.splits)
  have "fmlookup infos n = None" for n
    using all set_fmkeys [of infos] by (metis empty_iff fmdom_notD list.set(1))
  moreover have "fmlookup (foldl (\<lambda>m p. fmupd (pt_Name p) p m) fmempty after) n = find (\<lambda>p. pt_Name p = n) after" for n
    using infos_lookup [OF assms(2), of fmempty n] by (simp split: option.split)
  ultimately show ?thesis using that scan post cand by blast
qed

lemma inventory_names:
  assumes "inventoryOf L after scans cmd post = Inr mp" "distinct (map pt_Name after)"
  shows "set (map sm_SafePartName (mp_Partition mp)) = set (map pt_Name after)" (is "?names = _")
    and "distinct (map sm_SafePartName (mp_Partition mp))"
    and "m \<in> set (mp_Partition mp) \<Longrightarrow> \<exists>p \<in> set after. sm_SafePartName m = pt_Name p \<and> sm_PartPhysHash m = pt_PhysHash p"
proof -
  from assms obtain infos byHash sm where
    scan: "scanLoop L scans (foldl (\<lambda>m p. fmupd (pt_Name p) p m) fmempty after) fmempty 0 = Inr (mp_Partition mp, infos, byHash, sm)"
    and none: "\<And>n. fmlookup infos n = None"
    and look: "\<And>n. fmlookup (foldl (\<lambda>m p. fmupd (pt_Name p) p m) fmempty after) n = find (\<lambda>p. pt_Name p = n) after"
    by (rule inventoryOf_runs) (rule that)
  have names: "map sm_SafePartName (mp_Partition mp) = map sc_PartName scans" "distinct (map sc_PartName scans)"
    and left: "\<And>n. fmlookup infos n = (if n \<in> set (map sc_PartName scans) then None else find (\<lambda>p. pt_Name p = n) after)"
    and here: "\<And>m. m \<in> set (mp_Partition mp) \<Longrightarrow>
      \<exists>p. find (\<lambda>p. pt_Name p = sm_SafePartName m) after = Some p \<and> sm_PartPhysHash m = pt_PhysHash p"
    using scanLoop_names [OF scan] unfolding look by blast+
  show parts: "\<exists>p \<in> set after. sm_SafePartName m = pt_Name p \<and> sm_PartPhysHash m = pt_PhysHash p" if "m \<in> set (mp_Partition mp)" for m
    using here [OF that] by (auto simp: find_Some_iff intro!: bexI [OF _ nth_mem])
  from names show "distinct (map sm_SafePartName (mp_Partition mp))" by simp
  show "?names = set (map pt_Name after)"
  proof
    show "?names \<subseteq> set (map pt_Name after)" using parts by fastforce
    show "set (map pt_Name after) \<subseteq> ?names"
    proof
      fix n assume "n \<in> set (map pt_Name after)"
      then have "find (\<lambda>p. pt_Name p = n) after \<noteq> None" unfolding find_None_iff by auto
      with left [of n] none [of n] show "n \<in> ?names" unfolding names by (simp split: if_splits)
    qed
  qed
qed

lemma inventory_hashes:
  assumes "lthash L" "inventoryOf L after scans cmd post = Inr mp" "distinct (map pt_Name after)"
  shows "distinct (map sm_PartRowLtHash (mp_Partition mp))" and "parses L post"
    and "(\<Sum>m\<leftarrow>mp_Partition mp. denotes L (sm_PartRowLtHash m)) = denotes L post"
proof -
  from assms(2,3) obtain infos byHash sm where
    scan: "scanLoop L scans (foldl (\<lambda>m p. fmupd (pt_Name p) p m) fmempty after) fmempty 0 = Inr (mp_Partition mp, infos, byHash, sm)"
    and post: "parseAccumulatorHex L post = Inr sm" by (rule inventoryOf_runs) (rule that)
  have h1: "map sm_PartRowLtHash (mp_Partition mp) = map (\<lambda>s. canon L (sc_RowLtHash s)) scans"
    and h3: "sm = (\<Sum>s\<leftarrow>scans. denotes L (sc_RowLtHash s))"
    and "distinct (map sm_PartRowLtHash (mp_Partition mp))"
    using scanLoop_hashes [OF scan] by (simp, simp, blast)
  then show "distinct (map sm_PartRowLtHash (mp_Partition mp))" by blast
  from parse_InrD [OF post] show "parses L post" by simp
  have "(\<Sum>m\<leftarrow>mp_Partition mp. denotes L (sm_PartRowLtHash m)) = sm"
    using arg_cong [OF h1, of "\<lambda>hs. sum_list (map (denotes L) hs)"]
    by (simp add: h3 canon_def lthash.denotes_accumulatorHex [OF assms(1)] o_def)
  with parse_InrD [OF post] show "(\<Sum>m\<leftarrow>mp_Partition mp. denotes L (sm_PartRowLtHash m)) = denotes L post" by simp
qed

lemma inventory_candidates:
  assumes "inventoryOf L after scans cmd post = Inr mp" "distinct (map pt_Name after)"
  shows "distinct (map (\<lambda>p. canon L (pr_PartRowLtHash p)) (ps_CandidateParts cmd))"
    and "list_all2 (\<lambda>cp m. sm_PartRowLtHash m = pr_PartRowLtHash cp \<and>
        m\<lparr>sm_PartRowLtHash := canon L (pr_PartRowLtHash cp)\<rparr> \<in> set (mp_Partition mp))
      (ps_CandidateParts cmd) (mp_Candidates mp)"
proof -
  from assms obtain infos byHash sm where
    scan: "scanLoop L scans (foldl (\<lambda>m p. fmupd (pt_Name p) p m) fmempty after) fmempty 0 = Inr (mp_Partition mp, infos, byHash, sm)"
    and cand: "candidateLoop L (ps_CandidateParts cmd) [] byHash = Inr (mp_Candidates mp)" by (rule inventoryOf_runs) (rule that)
  note cands = candidateLoop_spec [OF cand]
  then show "distinct (map (\<lambda>p. canon L (pr_PartRowLtHash p)) (ps_CandidateParts cmd))" by blast
  have known: "m \<in> set (mp_Partition mp) \<and> sm_PartRowLtHash m = k" if "fmlookup byHash k = Some m" for k m
    using scanLoop_hashes [OF scan] that by simp
  show "list_all2 (\<lambda>cp m. sm_PartRowLtHash m = pr_PartRowLtHash cp \<and>
        m\<lparr>sm_PartRowLtHash := canon L (pr_PartRowLtHash cp)\<rparr> \<in> set (mp_Partition mp)) (ps_CandidateParts cmd) (mp_Candidates mp)"
    using conjunct2 [OF conjunct2 [OF conjunct2 [OF cands]]]
  proof (rule list_all2_mono, elim exE conjE)
    fix cp m m0
    assume "fmlookup byHash (canon L (pr_PartRowLtHash cp)) = Some m0" and m: "m = m0\<lparr>sm_PartRowLtHash := pr_PartRowLtHash cp\<rparr>"
    then have "m0 \<in> set (mp_Partition mp)" "sm_PartRowLtHash m0 = canon L (pr_PartRowLtHash cp)" using known by blast+
    then show "sm_PartRowLtHash m = pr_PartRowLtHash cp \<and>
        m\<lparr>sm_PartRowLtHash := canon L (pr_PartRowLtHash cp)\<rparr> \<in> set (mp_Partition mp)"
      unfolding m by - (cases m0, simp)
  qed
qed

text \<open>
  C15. The acknowledged inventory is the published partition. When \<open>safeMappings\<close> accepts what it
  scanned, the inventory lists every active part of the partition once, under its own name and
  physical hash, with distinct canonical row hashes that sum to the promoted root; and every
  candidate of the command, each with its own content, is one of those parts.
\<close>

theorem inventory_is_partition:
  assumes "lthash L" and "distinct (map pt_Name after)" and "inventoryOf L after scans cmd post = Inr mp"
  shows "set (map sm_SafePartName (mp_Partition mp)) = set (map pt_Name after) \<and>
    distinct (map sm_SafePartName (mp_Partition mp)) \<and>
    distinct (map sm_PartRowLtHash (mp_Partition mp)) \<and>
    (\<forall>m \<in> set (mp_Partition mp). \<exists>p \<in> set after. sm_SafePartName m = pt_Name p \<and> sm_PartPhysHash m = pt_PhysHash p) \<and>
    parses L post \<and> (\<Sum>m\<leftarrow>mp_Partition mp. denotes L (sm_PartRowLtHash m)) = denotes L post \<and>
    distinct (map (\<lambda>p. canon L (pr_PartRowLtHash p)) (ps_CandidateParts cmd)) \<and>
    list_all2 (\<lambda>cp m. sm_PartRowLtHash m = pr_PartRowLtHash cp \<and>
        m\<lparr>sm_PartRowLtHash := canon L (pr_PartRowLtHash cp)\<rparr> \<in> set (mp_Partition mp))
      (ps_CandidateParts cmd) (mp_Candidates mp)"
  using inventory_names [OF assms(3,2)] inventory_hashes [OF assms(1,3,2)] inventory_candidates [OF assms(3,2)] by simp

definition demo_part :: "string \<Rightarrow> string \<Rightarrow> Part" where
  "demo_part name phys = \<lparr>pt_Name = name, pt_PartitionID = ''all'', pt_PartitionValue = ''tuple()'', pt_PhysHash = phys,
     pt_Path = [], pt_Rows = 1, pt_Bytes = 1\<rparr>"

theorem inventory_is_partition_witness:
  "\<exists>mp. inventoryOf lane_lib [demo_part ''b'' ''g'', demo_part ''x'' ''h'']
      [\<lparr>sc_PartName = ''b'', sc_RowLtHash = ''0x2000'', sc_RowCount = 1\<rparr>,
       \<lparr>sc_PartName = ''x'', sc_RowLtHash = ''0xab00'', sc_RowCount = 1\<rparr>] demo_cmd ''0xcb00'' = Inr mp \<and>
     set (map sm_SafePartName (mp_Partition mp)) = {''b'', ''x''} \<and>
     (\<Sum>m\<leftarrow>mp_Partition mp. denotes lane_lib (sm_PartRowLtHash m)) = 203"
proof -
  let ?after = "[demo_part ''b'' ''g'', demo_part ''x'' ''h'']"
  let ?scans = "[\<lparr>sc_PartName = ''b'', sc_RowLtHash = ''0x2000'', sc_RowCount = 1\<rparr>,
       \<lparr>sc_PartName = ''x'', sc_RowLtHash = ''0xab00'', sc_RowCount = 1\<rparr>]"
  have d: "distinct (map pt_Name ?after)" by (simp add: demo_part_def)
  have none: "fmkeys (fmdrop ''x'' (fmdrop ''b'' (fmupd ''x'' (demo_part ''x'' ''h'') (fmupd ''b'' (demo_part ''b'' ''g'') fmempty)))) = []"
    by (simp add: fmkeys_def sorted_list_of_fset.rep_eq fmdrop_fmupd)
  obtain mp where run: "inventoryOf lane_lib ?after ?scans demo_cmd ''0xcb00'' = Inr mp"
    using none by (simp add: inventoryOf_def demo_part_def demo_cmd_def lane_parse lane_hex Let_def)
  have "denotes lane_lib ''0xcb00'' = 203" by (simp add: denotes_def lane_parse)
  with inventory_is_partition [OF lane.lthash_axioms d run] run show ?thesis by (auto simp: demo_part_def)
qed

lemma distinct_counts: "(\<forall>k \<in> set xs. \<not> 1 < count (mset xs) k) \<longleftrightarrow> distinct xs"
proof (induction xs)
  case (Cons x xs)
  have "(\<forall>k \<in> set (x # xs). \<not> 1 < count (mset (x # xs)) k) \<longleftrightarrow>
      x \<notin> set xs \<and> (\<forall>k \<in> set xs. \<not> 1 < count (mset xs) k)"
    by (auto simp: count_mset_0_iff split: if_splits)
  with Cons show ?case by simp
qed simp

lemma refuseDuplicate_iff:
  "refuseDuplicateCandidates L cmd = Inr () \<longleftrightarrow>
      (\<forall>p \<in> set (ps_CandidateParts cmd). valid_hash L (pr_PartRowLtHash p)) \<and>
      distinct (map (\<lambda>p. canon L (pr_PartRowLtHash p)) (ps_CandidateParts cmd))"
proof -
  let ?ks = "map (\<lambda>p. canon L (pr_PartRowLtHash p)) (ps_CandidateParts cmd)"
  have "zip cps (map f cps) = map (\<lambda>p. (p, f p)) cps" for cps and f :: "PartRef \<Rightarrow> string"
    by (induction cps) auto
  then have "find (\<lambda>(cp, k). counts ?ks k > 1) (zip (ps_CandidateParts cmd) ?ks) = None \<longleftrightarrow>
      (\<forall>k \<in> set ?ks. \<not> 1 < count (mset ?ks) k)"
    by (auto simp: find_None_iff counts_eq)
  also have "\<dots> \<longleftrightarrow> distinct ?ks" by (rule distinct_counts)
  finally show ?thesis
    by (auto simp: refuseDuplicateCandidates_def rbind_Inr_iff candidateKeys_eq split: option.splits)
qed

lemma duplicateShadow_iff: "duplicateShadowPartHash parts = Inr () \<longleftrightarrow> distinct (map sh_RowLtHash parts)"
proof -
  have "duplicateShadowLoop seen parts = Inr () \<longleftrightarrow>
      distinct (map sh_RowLtHash parts) \<and> set (map sh_RowLtHash parts) \<inter> set seen = {}" for seen
    by (induction parts arbitrary: seen) auto
  then show ?thesis by (simp add: duplicateShadowPartHash_def)
qed

text \<open>
  Refusing duplicates. \<open>refuseDuplicateCandidates\<close> accepts exactly the commands whose candidates
  are valid hashes of distinct contents, whatever their spelling, and \<open>duplicateShadowPartHash\<close>
  exactly the shadows without two parts of equal hash.
\<close>

theorem duplicate_refusals:
  "(refuseDuplicateCandidates L cmd = Inr () \<longleftrightarrow>
      (\<forall>p \<in> set (ps_CandidateParts cmd). valid_hash L (pr_PartRowLtHash p)) \<and>
      distinct (map (\<lambda>p. canon L (pr_PartRowLtHash p)) (ps_CandidateParts cmd))) \<and>
   (duplicateShadowPartHash parts = Inr () \<longleftrightarrow> distinct (map sh_RowLtHash parts))"
  by (intro conjI refuseDuplicate_iff duplicateShadow_iff)

theorem duplicate_refusals_witness:
  "refuseDuplicateCandidates lane_lib demo_cmd = Inr () \<and>
   duplicateShadowPartHash [\<lparr>sh_Name = ''x'', sh_RowLtHash = ''0xab00''\<rparr>, \<lparr>sh_Name = ''y'', sh_RowLtHash = ''0xab00''\<rparr>] \<noteq> Inr ()"
  using duplicate_refusals [of lane_lib demo_cmd
      "[\<lparr>sh_Name = ''x'', sh_RowLtHash = ''0xab00''\<rparr>, \<lparr>sh_Name = ''y'', sh_RowLtHash = ''0xab00''\<rparr>]"]
  by (simp add: demo_cmd_def parses_def lane_parse)

end
