(* ===== verification/SNode_Journal.thy ===== *)
theory SNode_Journal
  imports SNode_State
begin

text \<open>
  The intake journal (\<open>snode/journal.go\<close>): one file per statement, named after the statement id, that holds the record of
  its intake. A record is validated before it is written and after it is read, and a write must be a transition of the
  intake lifecycle. The directory maps file names to records; the JSON encoding of a file is not modelled.
\<close>

section \<open>Records\<close>

text \<open>\<open>LifecycleOther\<close> stands for a string of a file that is none of the five lifecycles.\<close>

datatype IntakeLifecycle =
    LifecyclePreparing | LifecycleUnsafeWritten | LifecycleRCBound | LifecycleAbortPending | LifecycleCleaned
  | LifecycleOther string

record intakeAbort =
  ia_PartNames :: "string list"
  ia_Reason :: string

record PreparedLocalResult =
  plr_StatementID :: string
  plr_SourceNode :: string
  plr_PayloadRef :: string
  plr_PayloadHash :: string
  plr_PayloadLength :: u64
  plr_PayloadEncoding :: string
  plr_Revision :: int
  plr_CandidateParts :: "CandidatePart list"
  plr_PartitionNewPartSums :: "PartitionLtHashSum list"
  plr_SourceClaimRoot :: string
  plr_Lifecycle :: IntakeLifecycle

record intakeRecord =
  ir_StatementID :: string
  ir_Lifecycle :: IntakeLifecycle
  ir_Envelope :: StatementEnvelope
  ir_PayloadEncoding :: string
  ir_Revision :: int
  ir_TouchedPartitions :: "string list"
  ir_PreWriteInventory :: "(string, string list) fmap"
  ir_ExpectedRowCount :: u64
  ir_Result :: "PreparedLocalResult option"
  ir_RC :: "RCRecord option"
  ir_Abort :: "intakeAbort option"
  ir_ConvergeFailed :: string

type_synonym intakeJournal = "(string, intakeRecord) fmap"

section \<open>Validation\<close>

datatype journal_error =
    ErrJournalRead | ErrJournalPersist
  | ErrRecordStatementID | ErrRecordNeedsResult IntakeLifecycle | ErrRecordNeedsAbort IntakeLifecycle | ErrLifecycleUnknown string
  | ErrLifecycleTransition IntakeLifecycle IntakeLifecycle | ErrLifecycleStart IntakeLifecycle

definition validateIntakeRecord :: "intakeRecord \<Rightarrow> (journal_error, unit) result" where
  "validateIntakeRecord rcd =
     (if ir_StatementID rcd = [] then Inl ErrRecordStatementID
      else case ir_Lifecycle rcd of
        LifecyclePreparing \<Rightarrow> Inr ()
      | LifecycleUnsafeWritten \<Rightarrow>
          if ir_Result rcd = None \<or> ir_RC rcd = None then Inl (ErrRecordNeedsResult (ir_Lifecycle rcd)) else Inr ()
      | LifecycleRCBound \<Rightarrow>
          if ir_Result rcd = None \<or> ir_RC rcd = None then Inl (ErrRecordNeedsResult (ir_Lifecycle rcd)) else Inr ()
      | LifecycleAbortPending \<Rightarrow> if ir_Abort rcd = None then Inl (ErrRecordNeedsAbort (ir_Lifecycle rcd)) else Inr ()
      | LifecycleCleaned \<Rightarrow> if ir_Abort rcd = None then Inl (ErrRecordNeedsAbort (ir_Lifecycle rcd)) else Inr ()
      | LifecycleOther l \<Rightarrow> Inl (ErrLifecycleUnknown l))"

fun validIntakeTransition :: "IntakeLifecycle \<Rightarrow> IntakeLifecycle \<Rightarrow> bool" where
  "validIntakeTransition from to \<longleftrightarrow>
     from = to \<or>
     (case from of
        LifecyclePreparing \<Rightarrow> to = LifecycleUnsafeWritten \<or> to = LifecycleAbortPending
      | LifecycleUnsafeWritten \<Rightarrow> to = LifecycleRCBound \<or> to = LifecycleAbortPending
      | LifecycleAbortPending \<Rightarrow> to = LifecycleCleaned
      | LifecycleCleaned \<Rightarrow> to = LifecyclePreparing
      | _ \<Rightarrow> False)"

section \<open>Files\<close>

definition recordPath :: "string \<Rightarrow> string" where
  "recordPath flatID = hex_EncodeToString flatID @ ''.json''"

definition decodeIntakeRecord :: "intakeRecord \<Rightarrow> (journal_error, intakeRecord) result" where
  "decodeIntakeRecord rcd = rbind (validateIntakeRecord rcd) (\<lambda>_. Inr rcd)"

text \<open>The first argument of a read says whether the file system answered.\<close>

definition load :: "bool \<Rightarrow> string \<Rightarrow> intakeJournal \<Rightarrow> (journal_error, intakeRecord option) result" where
  "load readable flatID j =
     (if \<not> readable then Inl ErrJournalRead
      else case fmlookup j (recordPath flatID) of
             None \<Rightarrow> Inr None
           | Some rcd \<Rightarrow> rbind (decodeIntakeRecord rcd) (\<lambda>r. Inr (Some r)))"

definition save :: "bool \<Rightarrow> write_outcome \<Rightarrow> intakeRecord \<Rightarrow> intakeJournal \<Rightarrow> (journal_error, unit) result \<times> intakeJournal" where
  "save readable wo rcd j =
     (case rbind (validateIntakeRecord rcd) (\<lambda>_.
           rbind (load readable (ir_StatementID rcd) j) (\<lambda>previous.
           case previous of
             Some p \<Rightarrow>
               if \<not> validIntakeTransition (ir_Lifecycle p) (ir_Lifecycle rcd)
               then Inl (ErrLifecycleTransition (ir_Lifecycle p) (ir_Lifecycle rcd)) else Inr ()
           | None \<Rightarrow> if ir_Lifecycle rcd \<noteq> LifecyclePreparing then Inl (ErrLifecycleStart (ir_Lifecycle rcd)) else Inr ())) of
        Inl e \<Rightarrow> (Inl e, j)
      | Inr _ \<Rightarrow>
          (let j' = fmupd (recordPath (ir_StatementID rcd)) rcd j in
           case wo of
             WriteOK \<Rightarrow> (Inr (), j')
           | WriteFailed \<Rightarrow> (Inl ErrJournalPersist, j)
           | WriteUnsynced \<Rightarrow> (Inl ErrJournalPersist, j')))"

text \<open>Every file of the directory with the suffix \<open>.json\<close>, in the order of their names; the others are the temporary files.\<close>

definition list_records :: "bool \<Rightarrow> intakeJournal \<Rightarrow> (journal_error, intakeRecord list) result" where
  "list_records readable j =
     (if \<not> readable then Inl ErrJournalRead else each (\<lambda>p. decodeIntakeRecord (the (fmlookup j p))) (fmkeys j))"

section \<open>What a directory holds\<close>

lemma recordPath_inject [simp]: "recordPath a = recordPath b \<longleftrightarrow> a = b"
  unfolding recordPath_def by (metis append_same_eq hex_roundtrip option.inject)

text \<open>Every file is valid and is named after its statement.\<close>

definition wf_journal :: "intakeJournal \<Rightarrow> bool" where
  "wf_journal j \<longleftrightarrow> (\<forall>p rcd. fmlookup j p = Some rcd \<longrightarrow> validateIntakeRecord rcd = Inr () \<and> p = recordPath (ir_StatementID rcd))"

definition recorded :: "intakeJournal \<Rightarrow> string \<Rightarrow> intakeRecord option" where
  "recorded j flatID = fmlookup j (recordPath flatID)"

lemma load_iff:
  "load readable flatID j = Inr o' \<longleftrightarrow> readable \<and> o' = recorded j flatID \<and> (\<forall>rcd. o' = Some rcd \<longrightarrow> validateIntakeRecord rcd = Inr ())"
  by (auto simp: load_def decodeIntakeRecord_def recorded_def result_simps split: option.splits)

lemma save_changes:
  assumes "save readable wo rcd j = (res, j')"
  shows "j' = j \<and> res \<noteq> Inr () \<or>
    j' = fmupd (recordPath (ir_StatementID rcd)) rcd j \<and> validateIntakeRecord rcd = Inr () \<and>
    (case recorded j (ir_StatementID rcd) of
       None \<Rightarrow> ir_Lifecycle rcd = LifecyclePreparing
     | Some p \<Rightarrow> validIntakeTransition (ir_Lifecycle p) (ir_Lifecycle rcd))"
  using assms unfolding save_def Let_def
  by (auto simp: load_iff result_simps recorded_def simp del: validIntakeTransition.simps
      split: sum.splits option.splits if_splits write_outcome.splits)

lemma save_wf: "save readable wo rcd j = (res, j') \<Longrightarrow> wf_journal j \<Longrightarrow> wf_journal j'"
  by (drule save_changes) (auto simp: wf_journal_def split: if_splits)

lemma save_ok_recorded: "save readable wo rcd j = (Inr (), j') \<Longrightarrow> recorded j' (ir_StatementID rcd) = Some rcd"
  by (drule save_changes) (auto simp: recorded_def)

lemma recorded_upd: "recorded (fmupd (recordPath s) rcd j) s' = (if s' = s then Some rcd else recorded j s')"
  by (auto simp: recorded_def)

end
