(* ===== verification/Owner_Audit.thy ===== *)
theory Owner_Audit
  imports SNode_State Chparts "HOL-Library.Product_Lexorder"
begin

text \<open>
  The owner's audit of its safe partitions, the decisions of \<open>snode/owner_audit_plan.go\<close>: which inventory
  a partition is compared with, what is unclean, what may be dropped, and which tables are held until a
  full pass audited them. The reads and the drops that act on these decisions are in the promotion world.
\<close>

section \<open>References\<close>

datatype OwnerAuditReason =
    OwnerAuditUnacknowledgedPart | OwnerAuditAcknowledgedPartMissing | OwnerAuditFSMAhead
  | OwnerAuditFSMDisagrees | OwnerAuditNoAcknowledgedInventory | OwnerAuditUnresolvedIntent

record ownerAuditPart =
  ap_Name :: string
  ap_PhysHash :: string

record ownerAuditReference =
  ref_Source :: string
  ref_Seq :: u64
  ref_Parts :: "ownerAuditPart list"

text \<open>\<open>replay.PartManifestEntry\<close>, the fields the audit reads, and the arbiter's state of a partition.\<close>

record PartManifestEntry =
  me_PartName :: string
  me_PartRowLtHash :: string
  me_PartPhysHash :: string

record PartitionState =
  fs_TableID :: string
  fs_PartitionID :: string
  fs_PublishSeq :: u64
  fs_SafeParts :: "PartManifestEntry list"

record ownerAuditInputs =
  in_Watermark :: u64
  in_Local :: "ackedSafeInventory option"
  in_FSMAvailable :: bool
  in_FSM :: "PartitionState option"

text \<open>The loop of \<open>sameContent\<close> over the arbiter's parts.\<close>

definition sameContent :: "SafePartMapping list \<Rightarrow> PartManifestEntry list \<Rightarrow> bool" where
  "sameContent local fsm =
     (if length local \<noteq> length fsm then False
      else consume (counts (map (\<lambda>m. (sm_PartRowLtHash m, sm_PartPhysHash m)) local))
             (map (\<lambda>e. (me_PartRowLtHash e, me_PartPhysHash e)) fsm) \<noteq> None)"

definition samePartSet :: "ownerAuditPart list \<Rightarrow> ownerAuditPart list \<Rightarrow> bool" where
  "samePartSet a b =
     (let byNameHash = sort_key (\<lambda>p. (ap_Name p, ap_PhysHash p)) in
      if length a \<noteq> length b then False else byNameHash a = byNameHash b)"

definition localReference :: "ackedSafeInventory \<Rightarrow> ownerAuditReference" where
  "localReference ivt =
     \<lparr>ref_Source = ''local'', ref_Seq = inv_PromotionSeq ivt,
      ref_Parts = map (\<lambda>m. \<lparr>ap_Name = sm_SafePartName m, ap_PhysHash = sm_PartPhysHash m\<rparr>) (inv_Parts ivt)\<rparr>"

definition fsmReference :: "PartitionState option \<Rightarrow> ownerAuditReference" where
  "fsmReference fsm =
     (case fsm of
        None \<Rightarrow> \<lparr>ref_Source = ''fsm'', ref_Seq = 0, ref_Parts = []\<rparr>
      | Some st \<Rightarrow> \<lparr>ref_Source = ''fsm'', ref_Seq = fs_PublishSeq st,
          ref_Parts = map (\<lambda>e. \<lparr>ap_Name = me_PartName e, ap_PhysHash = me_PartPhysHash e\<rparr>) (fs_SafeParts st)\<rparr>)"

text \<open>A refusal, no reference, or the reference.\<close>

datatype reference_choice = Refused OwnerAuditReason | NoReference | Reference ownerAuditReference

definition rebuiltPair :: "ownerAuditInputs \<Rightarrow> (ackedSafeInventory \<times> PartitionState) option" where
  "rebuiltPair inp =
     (case (in_Local inp, in_FSM inp) of
        (Some ivt, Some st) \<Rightarrow>
          if in_FSMAvailable inp \<and> inv_Rebuilt ivt \<and> fs_PublishSeq st = inv_PromotionSeq ivt then Some (ivt, st) else None
      | _ \<Rightarrow> None)"

definition ownerAuditReferenceFor :: "ownerAuditInputs \<Rightarrow> reference_choice" where
  "ownerAuditReferenceFor inp =
     (if in_FSMAvailable inp \<and> (case in_FSM inp of Some st \<Rightarrow> fs_PublishSeq st > in_Watermark inp | None \<Rightarrow> False)
      then Refused OwnerAuditFSMAhead
      else case rebuiltPair inp of
        Some (ivt, st) \<Rightarrow>
          (if \<not> sameContent (inv_Parts ivt) (fs_SafeParts st) then Refused OwnerAuditFSMDisagrees
           else Reference ((localReference ivt)\<lparr>ref_Source := ''rebuilt''\<rparr>))
      | None \<Rightarrow>
          (case (map_option localReference (in_Local inp),
                 if in_FSMAvailable inp then Some (fsmReference (in_FSM inp)) else None) of
             (None, None) \<Rightarrow> NoReference
           | (Some local, None) \<Rightarrow> Reference local
           | (None, Some fsm) \<Rightarrow> Reference fsm
           | (Some local, Some fsm) \<Rightarrow>
               (if ref_Seq fsm > ref_Seq local then Reference fsm
                else if ref_Seq local > ref_Seq fsm then Reference local
                else if samePartSet (ref_Parts local) (ref_Parts fsm) then Reference local
                else Refused OwnerAuditFSMDisagrees)))"

section \<open>The plan\<close>

record ownerAuditPlan =
  pl_Reason :: "OwnerAuditReason option"
  pl_Parts :: "string list"
  pl_Drop :: "string list"

definition clean :: "ownerAuditPlan \<Rightarrow> bool" where
  "clean p \<longleftrightarrow> pl_Reason p = None"

definition cleanPlan :: ownerAuditPlan where
  "cleanPlan = \<lparr>pl_Reason = None, pl_Parts = [], pl_Drop = []\<rparr>"

definition activePartNames :: "Part list \<Rightarrow> string list" where
  "activePartNames parts = sort (map pt_Name parts)"

definition audited :: "Part \<Rightarrow> ownerAuditPart" where
  "audited p = \<lparr>ap_Name = pt_Name p, ap_PhysHash = pt_PhysHash p\<rparr>"

text \<open>
  The groups by \<open>hash_of_all_files\<close> are walked in the order in which their hashes appear; the source walks
  a map, and sorts what it collected.
\<close>

definition groupOf :: "Part list \<Rightarrow> string \<Rightarrow> Part list" where
  "groupOf active h = filter (\<lambda>p. pt_PhysHash p = h) active"

definition overGroups :: "Part list \<Rightarrow> (Part list \<Rightarrow> string list) \<Rightarrow> string list" where
  "overGroups active f = sort (concat (map (\<lambda>h. f (groupOf active h)) (remdups (map pt_PhysHash active))))"

definition kept :: "ownerAuditPart set \<Rightarrow> Part list \<Rightarrow> bool" where
  "kept acked grp \<longleftrightarrow> list_ex (\<lambda>p. audited p \<in> acked) grp"

definition twinNames :: "ownerAuditPart set \<Rightarrow> Part list \<Rightarrow> string list" where
  "twinNames acked active = overGroups active (\<lambda>grp.
     if kept acked grp then map pt_Name (filter (\<lambda>p. audited p \<notin> acked) grp) else [])"

definition unacknowledgedNames :: "ownerAuditPart set \<Rightarrow> Part list \<Rightarrow> string list" where
  "unacknowledgedNames acked active = overGroups active (\<lambda>grp.
     if kept acked grp then [] else map pt_Name (filter (\<lambda>p. audited p \<notin> acked) grp))"

definition missingNames :: "ownerAuditPart list \<Rightarrow> Part list \<Rightarrow> string list" where
  "missingNames parts active = sort (map ap_Name (filter (\<lambda>p. p \<notin> set (map audited active)) parts))"

definition planOwnerAudit :: "ownerAuditReference option \<Rightarrow> Part list \<Rightarrow> ownerAuditPlan" where
  "planOwnerAudit refo active =
     (case refo of
        None \<Rightarrow>
          (if active = [] then cleanPlan
           else \<lparr>pl_Reason = Some OwnerAuditNoAcknowledgedInventory, pl_Parts = activePartNames active, pl_Drop = []\<rparr>)
      | Some ref \<Rightarrow>
          (let acked = set (ref_Parts ref); unacknowledged = unacknowledgedNames acked active;
               dropped = twinNames acked active; missing = missingNames (ref_Parts ref) active
           in if unacknowledged \<noteq> []
              then \<lparr>pl_Reason = Some OwnerAuditUnacknowledgedPart, pl_Parts = unacknowledged, pl_Drop = []\<rparr>
              else if missing \<noteq> []
              then \<lparr>pl_Reason = Some OwnerAuditAcknowledgedPartMissing, pl_Parts = missing, pl_Drop = []\<rparr>
              else if dropped \<noteq> []
              then \<lparr>pl_Reason = Some OwnerAuditUnacknowledgedPart, pl_Parts = dropped, pl_Drop = dropped\<rparr>
              else cleanPlan))"

section \<open>The audit's state\<close>

record OwnerAuditFinding =
  af_TableID :: string
  af_PartitionID :: string
  af_Reason :: OwnerAuditReason
  af_Parts :: "string list"
  af_Trigger :: string
  af_At :: int

text \<open>Keys of findings are a table and a partition. \<open>oa_wake\<close> is the one-place wake channel.\<close>

record ownerAuditState =
  oa_pendingAll :: bool
  oa_trigger :: string
  oa_pending :: "string set"
  oa_findings :: "(string \<times> string, OwnerAuditFinding) fmap"
  oa_runs :: "(string, u64) fmap"
  oa_dropped :: u64
  oa_restarts :: u64
  oa_fsmUnavailable :: u64
  oa_lastRun :: int
  oa_wake :: bool

definition pair_of :: "partitionKey \<Rightarrow> string \<times> string" where
  "pair_of k = (pk_Table k, pk_Partition k)"

definition newOwnerAuditState :: "bool \<Rightarrow> ownerAuditState" where
  "newOwnerAuditState due =
     \<lparr>oa_pendingAll = due, oa_trigger = ''startup'', oa_pending = {}, oa_findings = fmempty,
      oa_runs = fmupd ''startup'' 0 (fmupd ''promotion'' 0 (fmupd ''clickhouse_restart'' 0 fmempty)),
      oa_dropped = 0, oa_restarts = 0, oa_fsmUnavailable = 0, oa_lastRun = 0, oa_wake = False\<rparr>"

definition blocks :: "string \<Rightarrow> ownerAuditState \<Rightarrow> bool" where
  "blocks table a \<longleftrightarrow>
     oa_pendingAll a \<or> table \<in> oa_pending a \<or> (\<exists>k \<in> fset (fmdom (oa_findings a)). fst k = table)"

definition require :: "string \<Rightarrow> ownerAuditState \<Rightarrow> ownerAuditState" where
  "require trigger a = a\<lparr>oa_pendingAll := True, oa_trigger := trigger, oa_wake := True\<rparr>"

definition restarted :: "ownerAuditState \<Rightarrow> ownerAuditState" where
  "restarted a = require ''clickhouse_restart'' (a\<lparr>oa_restarts := oa_restarts a + 1\<rparr>)"

definition begin_pass :: "string list \<Rightarrow> ownerAuditState \<Rightarrow> string \<times> ownerAuditState" where
  "begin_pass tables a = (oa_trigger a, a\<lparr>oa_pendingAll := False, oa_pending := set tables\<rparr>)"

definition tableDone :: "string \<Rightarrow> ownerAuditState \<Rightarrow> ownerAuditState" where
  "tableDone table a = a\<lparr>oa_pending := oa_pending a - {table}\<rparr>"

definition due :: "ownerAuditState \<Rightarrow> bool" where
  "due a \<longleftrightarrow> oa_pendingAll a \<or> oa_pending a \<noteq> {}"

definition ran :: "string \<Rightarrow> int \<Rightarrow> ownerAuditState \<Rightarrow> ownerAuditState" where
  "ran trigger now a = a\<lparr>oa_runs := fmupd trigger (fmget 0 (oa_runs a) trigger + 1) (oa_runs a), oa_lastRun := now\<rparr>"

definition set_finding :: "OwnerAuditFinding \<Rightarrow> ownerAuditState \<Rightarrow> bool \<times> ownerAuditState" where
  "set_finding f a =
     (let k = (af_TableID f, af_PartitionID f) in
      (case fmlookup (oa_findings a) k of
         None \<Rightarrow> True
       | Some old \<Rightarrow> af_Reason old \<noteq> af_Reason f \<or> af_Trigger old \<noteq> af_Trigger f \<or> af_Parts old \<noteq> af_Parts f,
       a\<lparr>oa_findings := fmupd k f (oa_findings a)\<rparr>))"

definition finding :: "partitionKey \<Rightarrow> ownerAuditState \<Rightarrow> OwnerAuditFinding option" where
  "finding k a = fmlookup (oa_findings a) (pair_of k)"

definition findingTables :: "ownerAuditState \<Rightarrow> string list" where
  "findingTables a = sorted_list_of_set (fst ` fset (fmdom (oa_findings a)))"

definition clear_finding :: "partitionKey \<Rightarrow> ownerAuditState \<Rightarrow> ownerAuditState" where
  "clear_finding k a = a\<lparr>oa_findings := fmdrop (pair_of k) (oa_findings a)\<rparr>"

definition forgetTable :: "string \<Rightarrow> ownerAuditState \<Rightarrow> ownerAuditState" where
  "forgetTable table a =
     a\<lparr>oa_pending := oa_pending a - {table}, oa_findings := fmfilter (\<lambda>k. fst k \<noteq> table) (oa_findings a)\<rparr>"

definition findingPartitions :: "string \<Rightarrow> ownerAuditState \<Rightarrow> string list" where
  "findingPartitions table a =
     map snd (filter (\<lambda>k. fst k = table) (fmkeys (oa_findings a)))"

definition countDropped :: "ownerAuditState \<Rightarrow> ownerAuditState" where
  "countDropped a = a\<lparr>oa_dropped := oa_dropped a + 1\<rparr>"

definition countFSMUnavailable :: "ownerAuditState \<Rightarrow> ownerAuditState" where
  "countFSMUnavailable a = a\<lparr>oa_fsmUnavailable := oa_fsmUnavailable a + 1\<rparr>"

record OwnerAuditStats =
  os_Mode :: string
  os_Runs :: "(string, u64) fmap"
  os_Unclean :: "OwnerAuditFinding list"
  os_DroppedTwins :: u64
  os_ClickHouseRestarts :: u64
  os_FSMUnavailable :: u64
  os_LastRun :: int

definition stats :: "string \<Rightarrow> ownerAuditState \<Rightarrow> OwnerAuditStats" where
  "stats mode a =
     \<lparr>os_Mode = mode, os_Runs = oa_runs a,
      os_Unclean = map (\<lambda>k. the (fmlookup (oa_findings a) k)) (fmkeys (oa_findings a)),
      os_DroppedTwins = oa_dropped a, os_ClickHouseRestarts = oa_restarts a,
      os_FSMUnavailable = oa_fsmUnavailable a, os_LastRun = oa_lastRun a\<rparr>"

section \<open>Lemmas\<close>

lemma sameContent_iff:
  "sameContent local fsm \<longleftrightarrow>
     mset (map (\<lambda>m. (sm_PartRowLtHash m, sm_PartPhysHash m)) local) = mset (map (\<lambda>e. (me_PartRowLtHash e, me_PartPhysHash e)) fsm)"
  (is "_ \<longleftrightarrow> ?l = ?r")
proof -
  have "sameContent local fsm \<longleftrightarrow> length local = length fsm \<and> ?r \<subseteq># ?l"
    by (simp add: sameContent_def counts_eq consume_count)
  moreover have "?l = ?r" if "length local = length fsm" "?r \<subseteq># ?l"
  proof (rule ccontr)
    assume "?l \<noteq> ?r"
    with that(2) have "?r \<subset># ?l" by (simp add: subset_mset.less_le)
    from mset_subset_size [OF this] that(1) show False by simp
  qed
  moreover have "length local = length fsm" if "?l = ?r"
    using arg_cong [OF that, of size] by simp
  ultimately show ?thesis by auto
qed

lemma samePartSet_iff: "samePartSet a b \<longleftrightarrow> mset a = mset b"
proof
  assume "samePartSet a b"
  then have "sort_key (\<lambda>p. (ap_Name p, ap_PhysHash p)) a = sort_key (\<lambda>p. (ap_Name p, ap_PhysHash p)) b"
    by (simp add: samePartSet_def Let_def split: if_splits)
  then have "mset (sort_key (\<lambda>p. (ap_Name p, ap_PhysHash p)) a) = mset (sort_key (\<lambda>p. (ap_Name p, ap_PhysHash p)) b)"
    by (rule arg_cong)
  then show "mset a = mset b" by simp
next
  assume eq: "mset a = mset b"
  have "sort_key (\<lambda>p. (ap_Name p, ap_PhysHash p)) a = sort_key (\<lambda>p. (ap_Name p, ap_PhysHash p)) b"
    by (rule sort_key_inj_key_eq) (auto simp: eq inj_on_def)
  with mset_eq_length [OF eq] show "samePartSet a b" by (simp add: samePartSet_def)
qed

lemma set_overGroups: "set (overGroups active f) = (\<Union>p \<in> set active. set (f (groupOf active (pt_PhysHash p))))"
  by (auto simp: overGroups_def)

lemma overGroups_Nil: "overGroups active f = [] \<longleftrightarrow> (\<forall>p \<in> set active. f (groupOf active (pt_PhysHash p)) = [])"
proof -
  have "set (overGroups active f) = {} \<longleftrightarrow> (\<forall>p \<in> set active. f (groupOf active (pt_PhysHash p)) = [])"
    unfolding set_overGroups by auto
  then show ?thesis by simp
qed

lemma clean_cleanPlan [simp]: "clean cleanPlan" "pl_Drop cleanPlan = []"
  by (simp_all add: clean_def cleanPlan_def)

text \<open>A part that another part of the same content stands for.\<close>

definition twin :: "ownerAuditPart set \<Rightarrow> Part list \<Rightarrow> Part \<Rightarrow> bool" where
  "twin acked active p \<longleftrightarrow>
     audited p \<notin> acked \<and> (\<exists>q \<in> set active. audited q \<in> acked \<and> pt_PhysHash q = pt_PhysHash p)"

lemma set_twinNames: "set (twinNames acked active) = pt_Name ` {p \<in> set active. twin acked active p}"
  unfolding twinNames_def set_overGroups twin_def kept_def groupOf_def
  by (auto simp: list_ex_iff intro!: imageI)

lemma unacknowledgedNames_Nil:
  "unacknowledgedNames acked active = [] \<longleftrightarrow> (\<forall>p \<in> set active. audited p \<in> acked \<or> twin acked active p)"
  unfolding unacknowledgedNames_def overGroups_Nil twin_def kept_def groupOf_def
  by (auto simp: list_ex_iff filter_empty_conv)

lemma missingNames_Nil: "missingNames parts active = [] \<longleftrightarrow> set parts \<subseteq> audited ` set active"
proof -
  have "set (missingNames parts active) = {} \<longleftrightarrow> set parts \<subseteq> audited ` set active"
    unfolding missingNames_def by auto
  then show ?thesis by simp
qed

lemma twinNames_Nil: "twinNames acked active = [] \<longleftrightarrow> (\<forall>p \<in> set active. \<not> twin acked active p)"
proof -
  have "set (twinNames acked active) = {} \<longleftrightarrow> (\<forall>p \<in> set active. \<not> twin acked active p)"
    unfolding set_twinNames by auto
  then show ?thesis by simp
qed

lemma plan_clean_iff: "clean (planOwnerAudit (Some ref) active) \<longleftrightarrow> audited ` set active = set (ref_Parts ref)"
  using missingNames_Nil [of "ref_Parts ref" active] unacknowledgedNames_Nil [of "set (ref_Parts ref)" active]
    twinNames_Nil [of "set (ref_Parts ref)" active]
  by (auto simp: planOwnerAudit_def Let_def clean_def cleanPlan_def twin_def)

lemma plan_drop:
  assumes "pl_Drop (planOwnerAudit (Some ref) active) \<noteq> []"
  shows "set (pl_Drop (planOwnerAudit (Some ref) active)) = pt_Name ` {p \<in> set active. twin (set (ref_Parts ref)) active p}"
    "set (ref_Parts ref) \<subseteq> audited ` set active"
    "\<forall>p \<in> set active. audited p \<in> set (ref_Parts ref) \<or> twin (set (ref_Parts ref)) active p"
  using assms set_twinNames [of "set (ref_Parts ref)" active] missingNames_Nil [of "ref_Parts ref" active]
    unacknowledgedNames_Nil [of "set (ref_Parts ref)" active]
  by (auto simp: planOwnerAudit_def Let_def cleanPlan_def split: if_splits)

section \<open>Properties\<close>

text \<open>
  C28. What the audit may drop. A partition is clean exactly when its active parts, by name and
  \<open>hash_of_all_files\<close>, are those of the reference. A plan that drops names parts the reference does not
  carry, each with an active part of equal content that stays, and dropping exactly those leaves the
  reference, so the audit of what is left is clean.
\<close>

theorem planOwnerAudit_drops_only_twins:
  assumes "distinct (map pt_Name active)"
  shows "let plan = planOwnerAudit (Some ref) active; left = filter (\<lambda>p. pt_Name p \<notin> set (pl_Drop plan)) active in
    (clean plan \<longleftrightarrow> audited ` set active = set (ref_Parts ref)) \<and>
    (pl_Drop plan \<noteq> [] \<longrightarrow>
       audited ` set left = set (ref_Parts ref) \<and> clean (planOwnerAudit (Some ref) left) \<and>
       (\<forall>p \<in> set active. p \<notin> set left \<longrightarrow>
          audited p \<notin> set (ref_Parts ref) \<and> (\<exists>q \<in> set left. pt_PhysHash q = pt_PhysHash p)))"
proof -
  let ?acked = "set (ref_Parts ref)"
  define plan where "plan = planOwnerAudit (Some ref) active"
  define left where "left = filter (\<lambda>p. pt_Name p \<notin> set (pl_Drop plan)) active"
  have "audited ` set left = ?acked \<and> (\<forall>p \<in> set active. p \<notin> set left \<longrightarrow>
      audited p \<notin> ?acked \<and> (\<exists>q \<in> set left. pt_PhysHash q = pt_PhysHash p))" if "pl_Drop plan \<noteq> []"
  proof -
    note d = plan_drop [of ref active, folded plan_def, OF that]
    have same: "p = q" if "p \<in> set active" "q \<in> set active" "pt_Name p = pt_Name q" for p q
      using assms(1) that by (auto simp: distinct_map dest: inj_onD)
    have twins: "pt_Name p \<in> set (pl_Drop plan) \<longleftrightarrow> twin ?acked active p" if "p \<in> set active" for p
      using same that unfolding d(1) by (auto simp: image_iff)
    have left: "set left = {p \<in> set active. audited p \<in> ?acked}"
      using d(3) twins unfolding left_def by (auto simp: twin_def)
    then have "audited ` set left = ?acked" using d(2) by auto
    moreover have "audited p \<notin> ?acked \<and> (\<exists>q \<in> set left. pt_PhysHash q = pt_PhysHash p)"
      if "p \<in> set active" "p \<notin> set left" for p
    proof -
      have "twin ?acked active p" using that d(3) left by auto
      then show ?thesis unfolding left twin_def by blast
    qed
    ultimately show ?thesis by blast
  qed
  then show ?thesis using plan_clean_iff [of ref] unfolding Let_def plan_def left_def by blast
qed

definition audit_part :: "string \<Rightarrow> string \<Rightarrow> Part" where
  "audit_part name phys = \<lparr>pt_Name = name, pt_PartitionID = ''all'', pt_PartitionValue = ''tuple()'', pt_PhysHash = phys,
     pt_Path = [], pt_Rows = 1, pt_Bytes = 1\<rparr>"

theorem planOwnerAudit_drops_only_twins_witness:
  "pl_Drop (planOwnerAudit (Some \<lparr>ref_Source = ''local'', ref_Seq = 5, ref_Parts = [\<lparr>ap_Name = ''b'', ap_PhysHash = ''g''\<rparr>]\<rparr>)
      [audit_part ''a'' ''g'', audit_part ''b'' ''g'']) = [''a''] \<and>
   clean (planOwnerAudit (Some \<lparr>ref_Source = ''local'', ref_Seq = 5, ref_Parts = [\<lparr>ap_Name = ''b'', ap_PhysHash = ''g''\<rparr>]\<rparr>)
      [audit_part ''b'' ''g''])"
proof -
  let ?ref = "\<lparr>ref_Source = ''local'', ref_Seq = 5, ref_Parts = [\<lparr>ap_Name = ''b'', ap_PhysHash = ''g''\<rparr>]\<rparr>"
  let ?active = "[audit_part ''a'' ''g'', audit_part ''b'' ''g'']"
  have d: "distinct (map pt_Name ?active)" by (simp add: audit_part_def)
  have run: "pl_Drop (planOwnerAudit (Some ?ref) ?active) = [''a'']"
    by (simp add: planOwnerAudit_def audit_part_def unacknowledgedNames_def twinNames_def missingNames_def overGroups_def
        groupOf_def kept_def audited_def Let_def)
  from planOwnerAudit_drops_only_twins [OF d, of ?ref] run show ?thesis
    by (simp add: Let_def audit_part_def)
qed



section \<open>Holding tables\<close>

text \<open>The operations that change the audit's state.\<close>

datatype audit_op =
    AuditRestarted | AuditBegin "string list" | AuditTableDone string | AuditRan string int
  | AuditSet OwnerAuditFinding | AuditClear partitionKey | AuditForget string
  | AuditCountDropped | AuditCountUnavailable

fun audit_exec :: "audit_op \<Rightarrow> ownerAuditState \<Rightarrow> ownerAuditState" where
  "audit_exec AuditRestarted a = restarted a"
| "audit_exec (AuditBegin tables) a = snd (begin_pass tables a)"
| "audit_exec (AuditTableDone table) a = tableDone table a"
| "audit_exec (AuditRan trigger now) a = ran trigger now a"
| "audit_exec (AuditSet f) a = snd (set_finding f a)"
| "audit_exec (AuditClear k) a = clear_finding k a"
| "audit_exec (AuditForget table) a = forgetTable table a"
| "audit_exec AuditCountDropped a = countDropped a"
| "audit_exec AuditCountUnavailable a = countFSMUnavailable a"

definition audit_run :: "audit_op list \<Rightarrow> ownerAuditState \<Rightarrow> ownerAuditState" where
  "audit_run ops a = foldl (\<lambda>a oper. audit_exec oper a) a ops"

definition settled :: "string \<Rightarrow> audit_op list \<Rightarrow> bool" where
  "settled t ops \<longleftrightarrow> (\<exists>pre tables post. ops = pre @ AuditBegin tables # post \<and> AuditRestarted \<notin> set post \<and>
     (t \<in> set tables \<longrightarrow> AuditTableDone t \<in> set post \<or> AuditForget t \<in> set post))"

text \<open>The table is held by the passes, findings aside.\<close>

definition held :: "string \<Rightarrow> ownerAuditState \<Rightarrow> bool" where
  "held t a \<longleftrightarrow> oa_pendingAll a \<or> t \<in> oa_pending a"

lemma held_step:
  "held t a \<Longrightarrow> \<not> held t (audit_exec oper a) \<Longrightarrow>
     (\<exists>tables. oper = AuditBegin tables \<and> t \<notin> set tables) \<or>
     (\<not> oa_pendingAll a \<and> (oper = AuditTableDone t \<or> oper = AuditForget t))"
  by (cases oper) (auto simp: held_def restarted_def require_def begin_pass_def tableDone_def ran_def set_finding_def
      clear_finding_def forgetTable_def countDropped_def countFSMUnavailable_def Let_def)

lemma pendingAll_step:
  "\<not> oa_pendingAll (audit_exec oper a) \<Longrightarrow>
     (\<exists>tables. oper = AuditBegin tables) \<or> (oper \<noteq> AuditRestarted \<and> \<not> oa_pendingAll a)"
  by (cases oper) (auto simp: restarted_def require_def begin_pass_def tableDone_def ran_def set_finding_def
      clear_finding_def forgetTable_def countDropped_def countFSMUnavailable_def Let_def)

lemma settled_begin: "t \<notin> set tables \<Longrightarrow> settled t (ops @ [AuditBegin tables])"
  unfolding settled_def by (intro exI [of _ ops] exI [of _ tables] exI [of _ "[]"]) simp

lemma settled_snoc: "settled t ops \<Longrightarrow> oper \<noteq> AuditRestarted \<Longrightarrow> settled t (ops @ [oper])"
  unfolding settled_def
proof (elim exE conjE)
  fix pre tables post
  assume "ops = pre @ AuditBegin tables # post" "AuditRestarted \<notin> set post" "oper \<noteq> AuditRestarted"
    "t \<in> set tables \<longrightarrow> AuditTableDone t \<in> set post \<or> AuditForget t \<in> set post"
  then show "\<exists>pre tables post. ops @ [oper] = pre @ AuditBegin tables # post \<and> AuditRestarted \<notin> set post \<and>
     (t \<in> set tables \<longrightarrow> AuditTableDone t \<in> set post \<or> AuditForget t \<in> set post)"
    by (intro exI [of _ pre] exI [of _ tables] exI [of _ "post @ [oper]"]) auto
qed

definition begun :: "audit_op list \<Rightarrow> bool" where
  "begun ops \<longleftrightarrow> (\<exists>pre tables post. ops = pre @ AuditBegin tables # post \<and> AuditRestarted \<notin> set post)"

lemma begun_snoc: "begun ops \<Longrightarrow> oper \<noteq> AuditRestarted \<Longrightarrow> begun (ops @ [oper])"
  unfolding begun_def by (metis Cons_eq_appendI append_assoc rotate1.simps(2) set_ConsD set_rotate1)

lemma begun_begin: "begun (ops @ [AuditBegin tables])"
  unfolding begun_def by (intro exI [of _ ops] exI [of _ tables] exI [of _ "[]"]) simp

lemma settled_done:
  assumes "begun ops" "oper = AuditTableDone t \<or> oper = AuditForget t"
  shows "settled t (ops @ [oper])"
proof -
  from assms(1) obtain pre tables post where "ops = pre @ AuditBegin tables # post" "AuditRestarted \<notin> set post"
    unfolding begun_def by blast
  with assms(2) show ?thesis
    unfolding settled_def by (intro exI [of _ pre] exI [of _ tables] exI [of _ "post @ [oper]"]) auto
qed

lemma audit_run_snoc [simp]: "audit_run (ops @ [oper]) a = audit_exec oper (audit_run ops a)"
  by (simp add: audit_run_def)

lemma held_or_settled:
  "(held t (audit_run ops (restarted a)) \<or> settled t ops) \<and>
   (oa_pendingAll (audit_run ops (restarted a)) \<or> begun ops)"
proof (induction ops rule: rev_induct)
  case Nil
  show ?case by (simp add: audit_run_def held_def restarted_def require_def)
next
  case (snoc oper ops)
  let ?a = "audit_run ops (restarted a)"
  have b: "oa_pendingAll (audit_exec oper ?a) \<or> begun (ops @ [oper])"
    using pendingAll_step [of oper ?a] begun_begin begun_snoc snoc by blast
  have "held t (audit_exec oper ?a) \<or> settled t (ops @ [oper])"
  proof (cases "held t ?a")
    case True
    with held_step [OF True, of oper] snoc show ?thesis using settled_begin settled_done by blast
  next
    case False
    then have "settled t ops" using snoc by blast
    then show ?thesis
      using settled_snoc by (cases "oper = AuditRestarted") (auto simp: held_def restarted_def require_def)
  qed
  with b show ?case by simp
qed



end
