(* ===== verification/Params.thy ===== *)
theory Params
  imports Arbiter_Types
begin

text \<open>
  The governed consensus parameters of the root package and the rules one parameter carries by
  itself: \<open>table_registry.go\<close> (the table registry and its L2 references), \<open>consensus.go\<close> (client
  lanes, enrolled indexers, verifiers, the update and the signed commands) and \<open>stage3.go\<close> (the
  stage-3 parameter and its switches). \<open>Validate\<close> is a method of several types in the source; here
  each carries the name of its type.
\<close>

section \<open>Runes\<close>

text \<open>
  \<open>utf8.DecodeRuneInString\<close>: the first rune of a non-empty string and its width. An encoding that is
  not valid UTF-8 gives the replacement character and width 1.
\<close>

abbreviation byte :: "char \<Rightarrow> nat" where
  "byte c \<equiv> of_char c"

definition in_range :: "nat \<Rightarrow> nat \<Rightarrow> nat \<Rightarrow> bool" where
  "in_range lo hi b \<longleftrightarrow> lo \<le> b \<and> b \<le> hi"

abbreviation continuation :: "nat \<Rightarrow> bool" where
  "continuation b \<equiv> in_range 0x80 0xBF b"

fun decodeRune :: "string \<Rightarrow> nat \<times> nat" where
  "decodeRune [] = (0xFFFD, 0)"
| "decodeRune (c # cs) =
     (let b = byte c in
      if b < 0x80 then (b, 1)
      else if in_range 0xC2 0xDF b
      then (case map byte cs of
              b1 # _ \<Rightarrow> if continuation b1 then ((b - 0xC0) * 64 + (b1 - 0x80), 2) else (0xFFFD, 1)
            | _ \<Rightarrow> (0xFFFD, 1))
      else if in_range 0xE0 0xEF b
      then (case map byte cs of
              b1 # b2 # _ \<Rightarrow>
                if in_range (if b = 0xE0 then 0xA0 else 0x80) (if b = 0xED then 0x9F else 0xBF) b1 \<and> continuation b2
                then ((b - 0xE0) * 4096 + (b1 - 0x80) * 64 + (b2 - 0x80), 3) else (0xFFFD, 1)
            | _ \<Rightarrow> (0xFFFD, 1))
      else if in_range 0xF0 0xF4 b
      then (case map byte cs of
              b1 # b2 # b3 # _ \<Rightarrow>
                if in_range (if b = 0xF0 then 0x90 else 0x80) (if b = 0xF4 then 0x8F else 0xBF) b1 \<and>
                   continuation b2 \<and> continuation b3
                then ((b - 0xF0) * 262144 + (b1 - 0x80) * 4096 + (b2 - 0x80) * 64 + (b3 - 0x80), 4)
                else (0xFFFD, 1)
            | _ \<Rightarrow> (0xFFFD, 1))
      else (0xFFFD, 1))"

lemma decodeRune_width: "s \<noteq> [] \<Longrightarrow> 0 < snd (decodeRune s)"
  by (cases s) (auto simp: Let_def split: list.splits)

function runes :: "string \<Rightarrow> nat list" where
  "runes s = (if s = [] then [] else fst (decodeRune s) # runes (drop (snd (decodeRune s)) s))"
  by auto
termination
proof (relation "measure length", goal_cases)
  case (2 s)
  with decodeRune_width [of s] show ?case by (cases s) auto
qed simp

declare runes.simps [simp del]

definition IsSpace :: "nat \<Rightarrow> bool" where
  "IsSpace r \<longleftrightarrow> in_range 9 13 r \<or> in_range 0x2000 0x200A r \<or>
     r \<in> {0x20, 0x85, 0xA0, 0x1680, 0x2028, 0x2029, 0x202F, 0x205F, 0x3000}"

definition IsControl :: "nat \<Rightarrow> bool" where
  "IsControl r \<longleftrightarrow> r \<le> 0x1F \<or> in_range 0x7F 0x9F r"

text \<open>\<open>strings.TrimSpace(s) == ""\<close>.\<close>

definition blank :: "string \<Rightarrow> bool" where
  "blank s \<longleftrightarrow> list_all IsSpace (runes s)"

definition validNodeID :: "string \<Rightarrow> bool" where
  "validNodeID s \<longleftrightarrow> s \<noteq> [] \<and> list_all (\<lambda>r. \<not> (IsSpace r \<or> IsControl r)) (runes s)"

section \<open>Addresses\<close>

definition lowerHexDigit :: "char \<Rightarrow> bool" where
  "lowerHexDigit c \<longleftrightarrow> (CHR ''0'' \<le> c \<and> c \<le> CHR ''9'') \<or> (CHR ''a'' \<le> c \<and> c \<le> CHR ''f'')"

text \<open>The pattern \<open>^0x[0-9a-f]{40}$\<close> of \<open>signerAddressPattern\<close> and \<open>databasesContractPattern\<close>.\<close>

definition signerAddressPattern :: "string \<Rightarrow> bool" where
  "signerAddressPattern s \<longleftrightarrow> length s = 42 \<and> take 2 s = ''0x'' \<and> list_all lowerHexDigit (drop 2 s)"

definition zeroAddress :: string where
  "zeroAddress = ''0x'' @ replicate 40 (CHR ''0'')"

section \<open>The table registry parameter\<close>

datatype param_error =
    ErrChainID | ErrDatabasesContract | ErrRegistryActivationBlock | ErrConfirmation
  | ErrClientLanes
  | ErrIndexerActivationBlock u64 | ErrIndexerSigner u64 | ErrIndexerNode u64 | ErrEnrollmentJWS u64
  | ErrVerifierNodeID | ErrVerifierPubkey string
  | ErrAcknowledgedBlocks | ErrPromotionSeqs
  | ErrGroupSize | ErrMinSafeCopies | ErrLagLow | ErrEvidenceTimeout | ErrUncleanedParts
  | ErrFailureDomain u64 | ErrDomainsUnsorted | ErrSwitchRequires string string | ErrCopyFloor

record TableRegistryParams =
  tr_ChainID :: u64
  tr_DatabasesContract :: string
  tr_SIIndexerID :: u64
  tr_ActivationBlock :: u64
  tr_Confirmation :: string

definition TableRegistryParams_Validate :: "TableRegistryParams \<Rightarrow> (param_error, unit) result" where
  "TableRegistryParams_Validate p =
     (if tr_ChainID p = 0 then Inl ErrChainID
      else if \<not> signerAddressPattern (tr_DatabasesContract p) then Inl ErrDatabasesContract
      else if tr_ActivationBlock p = 0 then Inl ErrRegistryActivationBlock
      else if tr_Confirmation p \<noteq> ''finalized'' \<and> tr_Confirmation p \<noteq> ''safe'' then Inl ErrConfirmation
      else Inr ())"

record L2BlockRef =
  lb_Number :: u64
  lb_Hash :: string

record L2EventRef =
  le_BlockNumber :: u64
  le_BlockHash :: string
  le_LogIndex :: u64
  le_TxHash :: string

section \<open>Lanes, indexers and verifiers\<close>

definition LocalNodeFeatures :: "string list" where
  "LocalNodeFeatures = [''client_lanes_v1'', ''signed_claims_v1'', ''track_manifests_v1'', ''stage3_v1'']"

record ClientLaneParams =
  cl_MaxLanesPerAccount :: u32

definition ClientLaneParams_Validate :: "ClientLaneParams \<Rightarrow> (param_error, unit) result" where
  "ClientLaneParams_Validate p = (if cl_MaxLanesPerAccount p = 0 then Inl ErrClientLanes else Inr ())"

record SIIndexerEntry =
  si_IndexerID :: u64
  si_ActivationBlock :: u64
  si_Signer :: string
  si_SNodeNodeID :: string
  si_EnrollmentJWS :: string

definition SIIndexerEntry_Validate :: "SIIndexerEntry \<Rightarrow> (param_error, unit) result" where
  "SIIndexerEntry_Validate e =
     (if si_ActivationBlock e = 0 then Inl (ErrIndexerActivationBlock (si_IndexerID e))
      else if \<not> signerAddressPattern (si_Signer e) \<or> si_Signer e = zeroAddress
      then Inl (ErrIndexerSigner (si_IndexerID e))
      else if \<not> validNodeID (si_SNodeNodeID e) then Inl (ErrIndexerNode (si_IndexerID e))
      else if blank (si_EnrollmentJWS e) then Inl (ErrEnrollmentJWS (si_IndexerID e))
      else Inr ())"

record VerifierEntry =
  ve_NodeID :: string
  ve_Ed25519Pubkey :: bytes
  ve_HostIndexerID :: "u64 option"
  ve_ReplicaSigner :: string
  ve_ConsentJWS :: string
  ve_Weight :: u32
  ve_FailureDomain :: string
  ve_Verify :: bool
  ve_Replicate :: bool
  ve_Counts :: bool
  ve_SharedRMT :: bool

definition IsMember :: "VerifierEntry \<Rightarrow> bool" where
  "IsMember e \<longleftrightarrow> ve_HostIndexerID e \<noteq> None"

definition VerifierEntry_Validate :: "VerifierEntry \<Rightarrow> (param_error, unit) result" where
  "VerifierEntry_Validate e =
     (if blank (ve_NodeID e) then Inl ErrVerifierNodeID
      else if length (ve_Ed25519Pubkey e) \<noteq> 32 then Inl (ErrVerifierPubkey (ve_NodeID e))
      else Inr ())"

section \<open>Signed commands\<close>

fun ascending :: "'a :: linorder list \<Rightarrow> bool" where
  "ascending (x # y # zs) \<longleftrightarrow> \<not> x \<ge> y \<and> ascending (y # zs)"
| "ascending _ \<longleftrightarrow> True"

record ReleaseIndexerCommand =
  rl_IndexerID :: u64
  rl_ExpectedGeneration :: u64
  rl_AcknowledgedRejectedBlocks :: "u64 list"

definition ReleaseIndexerCommand_Validate :: "ReleaseIndexerCommand \<Rightarrow> (param_error, unit) result" where
  "ReleaseIndexerCommand_Validate c =
     (if ascending (rl_AcknowledgedRejectedBlocks c) then Inr () else Inl ErrAcknowledgedBlocks)"

record SettleTrackCommand =
  stl_IndexerID :: u64
  stl_ExpectedGeneration :: u64
  stl_PromotionSeqs :: "u64 list"

definition SettleTrackCommand_Validate :: "SettleTrackCommand \<Rightarrow> (param_error, unit) result" where
  "SettleTrackCommand_Validate c =
     (if length (stl_PromotionSeqs c) = 0 then Inl ErrPromotionSeqs
      else if ascending (stl_PromotionSeqs c) then Inr () else Inl ErrPromotionSeqs)"

section \<open>The stage-3 parameter\<close>

record IndexerFailureDomain =
  fd_IndexerID :: u64
  fd_FailureDomain :: string

record Stage3Params =
  s3_GroupSize :: u32
  s3_NetworkFillDefault :: bool
  s3_MinSafeCopies :: u32
  s3_StrictCopies :: bool
  s3_IndexerFailureDomains :: "IndexerFailureDomain list"
  s3_MaxLagPublications :: u32
  s3_LagLow :: u32
  s3_EvidenceTimeoutL2Blocks :: u64
  s3_MaxUncleanedPartsPerPartition :: u32
  s3_MaxUncleanedPartsPerTable :: u32
  s3_ExcludeQuarantinedHosts :: bool
  s3_Purge :: bool
  s3_EvictionVoiding :: bool
  s3_OwnerAwareSelection :: bool
  s3_Placement :: bool
  s3_Reselection :: bool
  s3_Checkpoints :: bool
  s3_NarrowedDrain :: bool

definition Stage3Switches :: "string list" where
  "Stage3Switches =
     [''purge'', ''eviction_voiding'', ''owner_aware_selection'', ''placement'', ''reselection'',
      ''checkpoints'', ''narrowed_drain'']"

definition SwitchOn :: "Stage3Params \<Rightarrow> string \<Rightarrow> bool" where
  "SwitchOn p name =
     (if name = ''purge'' then s3_Purge p
      else if name = ''eviction_voiding'' then s3_EvictionVoiding p
      else if name = ''owner_aware_selection'' then s3_OwnerAwareSelection p
      else if name = ''placement'' then s3_Placement p
      else if name = ''reselection'' then s3_Reselection p
      else if name = ''checkpoints'' then s3_Checkpoints p
      else if name = ''narrowed_drain'' then s3_NarrowedDrain p
      else False)"

definition FailureDomain :: "Stage3Params \<Rightarrow> u64 \<Rightarrow> string option" where
  "FailureDomain p indexerID =
     map_option fd_FailureDomain (find (\<lambda>d. fd_IndexerID d = indexerID) (s3_IndexerFailureDomains p))"

text \<open>The loop over the domains, with the id before, and the loop over the switches, with those before.\<close>

fun domainLoop :: "u64 option \<Rightarrow> IndexerFailureDomain list \<Rightarrow> (param_error, unit) result" where
  "domainLoop prev [] = Inr ()"
| "domainLoop prev (d # ds) =
     (if \<not> validNodeID (fd_FailureDomain d) then Inl (ErrFailureDomain (fd_IndexerID d))
      else if (case prev of Some q \<Rightarrow> q \<ge> fd_IndexerID d | None \<Rightarrow> False) then Inl ErrDomainsUnsorted
      else domainLoop (Some (fd_IndexerID d)) ds)"

fun switchLoop :: "Stage3Params \<Rightarrow> string list \<Rightarrow> string list \<Rightarrow> (param_error, unit) result" where
  "switchLoop p before [] = Inr ()"
| "switchLoop p before (name # names) =
     (case (if SwitchOn p name then find (\<lambda>earlier. \<not> SwitchOn p earlier) before else None) of
        Some earlier \<Rightarrow> Inl (ErrSwitchRequires name earlier)
      | None \<Rightarrow> switchLoop p (before @ [name]) names)"

definition Stage3Params_Validate :: "Stage3Params \<Rightarrow> (param_error, unit) result" where
  "Stage3Params_Validate p =
     (if s3_GroupSize p < 1 then Inl ErrGroupSize
      else if s3_MinSafeCopies p < 1 then Inl ErrMinSafeCopies
      else if s3_LagLow p < 1 \<or> s3_LagLow p \<ge> s3_MaxLagPublications p then Inl ErrLagLow
      else if s3_EvidenceTimeoutL2Blocks p < 1 then Inl ErrEvidenceTimeout
      else if s3_MaxUncleanedPartsPerPartition p < 1 \<or> s3_MaxUncleanedPartsPerTable p < 1 then Inl ErrUncleanedParts
      else rbind (domainLoop None (s3_IndexerFailureDomains p)) (\<lambda>_.
           rbind (switchLoop p [] Stage3Switches) (\<lambda>_.
           if (s3_MinSafeCopies p > 1 \<or> s3_StrictCopies p) \<and> \<not> (s3_Checkpoints p \<and> s3_NarrowedDrain p)
           then Inl ErrCopyFloor else Inr ())))"

section \<open>The update\<close>

record ConsensusParamsUpdate =
  up_NetworkID :: string
  up_GenesisSnapshotID :: string
  up_ExpectedEpoch :: u64
  up_PreviousParamsDigest :: string
  up_AuthorityAddresses :: "string list"
  up_MaxWriters :: u64
  up_ExpectedPromotionSeq :: u64
  up_ArtifactDispositionCapability :: u32
  up_TableRegistry :: "TableRegistryParams option"
  up_ClientLanes :: "ClientLaneParams option"
  up_SIIndexers :: "SIIndexerEntry list"
  up_Verifiers :: "VerifierEntry list"
  up_TracksEnabled :: bool
  up_Stage3 :: "Stage3Params option"

section \<open>Lemmas\<close>

lemma ascending_iff: "ascending xs \<longleftrightarrow> sorted xs \<and> distinct xs"
proof -
  have "ascending xs \<longleftrightarrow> sorted_wrt (<) xs"
    by (induction xs rule: ascending.induct) (auto simp: not_le dest: less_trans)
  then show ?thesis by (simp add: strict_sorted_iff)
qed

lemma word_less_1 [simp]: "(x :: 'a :: len word) < 1 \<longleftrightarrow> x = 0"
  by (metis word_less_1 word_neq_0_conv)

lemma word_one_le [simp]: "1 \<le> (x :: 'a :: len word) \<longleftrightarrow> x \<noteq> 0"
  by (metis word_less_1 not_less)

lemma domainLoop_iff:
  "domainLoop prev ds = Inr () \<longleftrightarrow>
     (\<forall>d \<in> set ds. validNodeID (fd_FailureDomain d)) \<and>
     ascending ((case prev of None \<Rightarrow> [] | Some q \<Rightarrow> [q]) @ map fd_IndexerID ds)"
proof (induction ds arbitrary: prev)
  case (Cons d ds)
  show ?case by (cases prev) (auto simp: Cons.IH)
qed (auto split: option.splits)

lemma switchLoop_iff:
  "switchLoop p before names = Inr () \<longleftrightarrow>
     (\<forall>i < length names. SwitchOn p (names ! i) \<longrightarrow>
        (\<forall>e \<in> set before \<union> set (take i names). SwitchOn p e))"
proof (induction names arbitrary: before)
  case (Cons name names)
  have "switchLoop p before (name # names) = Inr () \<longleftrightarrow>
      (SwitchOn p name \<longrightarrow> (\<forall>e \<in> set before. SwitchOn p e)) \<and> switchLoop p (before @ [name]) names = Inr ()"
    by (auto simp: find_None_iff find_Some_iff split: option.splits dest: nth_mem)
  then show ?case by (auto simp: Cons.IH All_less_Suc2)
qed simp

text \<open>The switches that are on form a prefix of the list.\<close>

lemma prefix_on_iff:
  "(\<forall>i < length xs. P (xs ! i) \<longrightarrow> (\<forall>e \<in> set (take i xs). P e)) \<longleftrightarrow>
     (\<exists>n \<le> length xs. \<forall>i < length xs. P (xs ! i) \<longleftrightarrow> i < n)"
proof
  assume closed: "\<forall>i < length xs. P (xs ! i) \<longrightarrow> (\<forall>e \<in> set (take i xs). P e)"
  let ?n = "length (takeWhile P xs)"
  have "P (xs ! i) \<longleftrightarrow> i < ?n" if i: "i < length xs" for i
  proof
    assume "P (xs ! i)"
    show "i < ?n"
    proof (rule ccontr)
      assume "\<not> i < ?n"
      then have n: "?n < length xs" using i by simp
      then have "\<not> P (xs ! ?n)" by (rule nth_length_takeWhile)
      with \<open>P (xs ! i)\<close> \<open>\<not> i < ?n\<close> have "?n < i" by (metis linorder_neqE_nat)
      then have "xs ! ?n \<in> set (take i xs)" using i n by (auto simp: in_set_conv_nth)
      with closed i \<open>P (xs ! i)\<close> \<open>\<not> P (xs ! ?n)\<close> show False by blast
    qed
  next
    assume "i < ?n"
    then show "P (xs ! i)" by (metis nth_mem set_takeWhileD takeWhile_nth)
  qed
  then show "\<exists>n \<le> length xs. \<forall>i < length xs. P (xs ! i) \<longleftrightarrow> i < n"
    by (intro exI [of _ ?n]) (simp add: length_takeWhile_le)
qed (force simp: in_set_conv_nth)

section \<open>Properties\<close>

text \<open>
  The stage-3 parameter. \<open>Validate\<close> accepts exactly the parameters within the bounds, whose failure
  domains are valid, strictly sorted and so unique, whose switches that are on are a prefix of the
  activation order, and that raise the copy floor only with every switch on.
\<close>

theorem Stage3Params_Validate_iff:
  "Stage3Params_Validate p = Inr () \<longleftrightarrow>
     1 \<le> s3_GroupSize p \<and> 1 \<le> s3_MinSafeCopies p \<and>
     1 \<le> s3_LagLow p \<and> s3_LagLow p < s3_MaxLagPublications p \<and> 1 \<le> s3_EvidenceTimeoutL2Blocks p \<and>
     1 \<le> s3_MaxUncleanedPartsPerPartition p \<and> 1 \<le> s3_MaxUncleanedPartsPerTable p \<and>
     list_all (\<lambda>d. validNodeID (fd_FailureDomain d)) (s3_IndexerFailureDomains p) \<and>
     sorted (map fd_IndexerID (s3_IndexerFailureDomains p)) \<and>
     distinct (map fd_IndexerID (s3_IndexerFailureDomains p)) \<and>
     (\<exists>n \<le> 7. map (SwitchOn p) Stage3Switches = replicate n True @ replicate (7 - n) False \<and>
       (s3_MinSafeCopies p = 1 \<and> \<not> s3_StrictCopies p \<or> n = 7))"
proof -
  let ?on = "\<lambda>i. SwitchOn p (Stage3Switches ! i)"
  have len: "length Stage3Switches = 7" by (simp add: Stage3Switches_def)
  have switches: "switchLoop p [] Stage3Switches = Inr () \<longleftrightarrow> (\<exists>n \<le> 7. \<forall>i < 7. ?on i \<longleftrightarrow> i < n)"
    using prefix_on_iff [of Stage3Switches "SwitchOn p"] by (simp add: switchLoop_iff len)
  have rep: "(\<forall>i < 7. ?on i \<longleftrightarrow> i < n) \<longleftrightarrow>
      map (SwitchOn p) Stage3Switches = replicate n True @ replicate (7 - n) False" if "n \<le> 7" for n
    using that by (auto simp: list_eq_iff_nth_eq len nth_append)
  have last: "s3_Checkpoints p \<and> s3_NarrowedDrain p \<longleftrightarrow> n = 7" if "n \<le> 7" "\<forall>i < 7. ?on i \<longleftrightarrow> i < n" for n
    using that(1) that(2) [rule_format, of 5] that(2) [rule_format, of 6]
    by (auto simp: Stage3Switches_def SwitchOn_def)
  have floor: "\<not> (s3_MinSafeCopies p > 1 \<or> s3_StrictCopies p) \<longleftrightarrow> s3_MinSafeCopies p = 1 \<and> \<not> s3_StrictCopies p"
    if "s3_MinSafeCopies p \<noteq> 0"
    using that by (metis not_less_iff_gr_or_eq word_less_1)
  define copies where "copies = (s3_MinSafeCopies p = 1 \<and> \<not> s3_StrictCopies p)"
  have prefix: "(\<exists>n \<le> 7. \<forall>i < 7. ?on i \<longleftrightarrow> i < n) \<and> (copies \<or> s3_Checkpoints p \<and> s3_NarrowedDrain p) \<longleftrightarrow>
      (\<exists>n \<le> 7. map (SwitchOn p) Stage3Switches = replicate n True @ replicate (7 - n) False \<and> (copies \<or> n = 7))"
    using rep last by blast
  show ?thesis
    unfolding Stage3Params_Validate_def prefix [symmetric, unfolded copies_def]
    using floor by (auto simp: domainLoop_iff ascending_iff switches list_all_iff result_simps not_le)
qed

end
