(* ===== verification/Registry.thy ===== *)
theory Registry
  imports Params Chparts
begin

text \<open>
  The dynamic table registry as data-plane nodes see it: the snapshot and its queries
  (\<open>wire/table_registry_snapshot.go\<close>, \<open>wire/stage3_registry.go\<close>), its conversion from and to the
  transport messages, the checkpoint body it carries (\<open>wire/stage3.go\<close>, \<open>stage3.go\<close>) and the schema
  of a table (\<open>dataplane/registry_schema.go\<close>).

  A generated message has the fields its converter reads; where a field is an enum, an open protobuf
  enum may hold a number without a name. A nil message reads as its zero value through the getters, an
  optional one is an \<open>option\<close>. Lists stand for slices, nil and empty alike, as both converters map an
  empty list to nil.
\<close>

section \<open>Enums\<close>

datatype TableIncarnationStatus =
    TableStatusLegacy | TableStatusPending | TableStatusRefused | TableStatusActive
  | TableStatusRetiring | TableStatusPurging | TableStatusPurged

datatype TableOrigin = TableOriginGenesis | TableOriginLegacy | TableOriginChain

datatype MemberClass =
    MemberClassBootstrapping | MemberClassCaughtUp | MemberClassBehind | MemberClassLagging

datatype CheckpointExclusionReason =
    ExclusionNotInstalled | ExclusionDiverged | ExclusionForeign | ExclusionDiskThreshold
  | ExclusionAuditPending | ExclusionRetiring

text \<open>The generated enum of a named one: a named value, the unspecified one, or a bare number.\<close>

datatype 'a pb_enum = PbNamed 'a | PbUnspecified | PbNumber int

definition enumFromPB :: "'a pb_enum \<Rightarrow> 'a option" where
  "enumFromPB e = (case e of PbNamed a \<Rightarrow> Some a | _ \<Rightarrow> None)"

definition enumToPB :: "'a \<Rightarrow> 'a pb_enum" where
  "enumToPB a = PbNamed a"

datatype wire_error =
    ErrSnapshotRequired | ErrSnapshotParam param_error
  | ErrIndexersUnsorted | ErrSeededUnsorted | ErrSeededUnknown u64
  | ErrQuarantinedUnsorted | ErrQuarantinedUnknown u64
  | ErrIncarnationSeq u64 | ErrPurgeMembersUnsorted u64 | ErrIncarnationOwner u64
  | ErrUnknownStatus u64 | ErrUnknownOrigin u64 | ErrUnknownRetireReason u64
  | ErrGroupsUnsorted | ErrGroupOwner u64 | ErrGroupLists | ErrMemberClass string
  | ErrCheckpointBody | ErrCheckpointEntry | ErrExclusionReason string
  | ErrCheckpointSeqsUnsorted

section \<open>Checkpoints\<close>

text \<open>\<open>replay.TrackFrontier\<close>; the message has the same three fields.\<close>

record TrackFrontier =
  tf_IndexerID :: u64
  tf_SafeBlockSeq :: u64
  tf_AppliedPromotionSeq :: u64

definition TrackFrontierFromPB :: "TrackFrontier option \<Rightarrow> TrackFrontier" where
  "TrackFrontierFromPB m =
     (case m of Some f \<Rightarrow> f | None \<Rightarrow> \<lparr>tf_IndexerID = 0, tf_SafeBlockSeq = 0, tf_AppliedPromotionSeq = 0\<rparr>)"

definition TrackFrontierToPB :: "TrackFrontier \<Rightarrow> TrackFrontier option" where
  "TrackFrontierToPB v = Some v"

record ExcludedTable =
  ex_TableID :: string
  ex_Reason :: CheckpointExclusionReason

record pbExcludedTable =
  pbe_TableId :: string
  pbe_Reason :: "CheckpointExclusionReason pb_enum"

record CheckpointGroup =
  cg_DatabaseID :: string
  cg_GroupGeneration :: u64
  cg_Excluded :: "ExcludedTable list"

record pbCheckpointGroup =
  pbg_DatabaseId :: string
  pbg_GroupGeneration :: u64
  pbg_Excluded :: "pbExcludedTable list"

record MemberCheckpoint =
  mc_NodeID :: string
  mc_OwnerIndexerID :: u64
  mc_CheckpointSeq :: u64
  mc_Groups :: "CheckpointGroup list"
  mc_SnapshotID :: string
  mc_Entry :: TrackFrontier

record pbMemberCheckpoint =
  pbc_NodeId :: string
  pbc_OwnerIndexerId :: u64
  pbc_CheckpointSeq :: u64
  pbc_Groups :: "pbCheckpointGroup list"
  pbc_SnapshotId :: string
  pbc_Entry :: "TrackFrontier option"

definition excludedFromPB :: "pbExcludedTable \<Rightarrow> (wire_error, ExcludedTable) result" where
  "excludedFromPB e =
     (case enumFromPB (pbe_Reason e) of
        None \<Rightarrow> Inl (ErrExclusionReason (pbe_TableId e))
      | Some reason \<Rightarrow> Inr \<lparr>ex_TableID = pbe_TableId e, ex_Reason = reason\<rparr>)"

definition checkpointGroupFromPB :: "pbCheckpointGroup \<Rightarrow> (wire_error, CheckpointGroup) result" where
  "checkpointGroupFromPB g =
     rbind (each excludedFromPB (pbg_Excluded g)) (\<lambda>es.
     Inr \<lparr>cg_DatabaseID = pbg_DatabaseId g, cg_GroupGeneration = pbg_GroupGeneration g, cg_Excluded = es\<rparr>)"

definition MemberCheckpointBodyFromPB :: "pbMemberCheckpoint option \<Rightarrow> (wire_error, MemberCheckpoint) result" where
  "MemberCheckpointBodyFromPB mo =
     (case mo of
        None \<Rightarrow> Inl ErrCheckpointBody
      | Some m \<Rightarrow>
          (if pbc_Entry m = None then Inl ErrCheckpointEntry
           else rbind (each checkpointGroupFromPB (pbc_Groups m)) (\<lambda>gs.
             Inr \<lparr>mc_NodeID = pbc_NodeId m, mc_OwnerIndexerID = pbc_OwnerIndexerId m,
                  mc_CheckpointSeq = pbc_CheckpointSeq m, mc_Groups = gs, mc_SnapshotID = pbc_SnapshotId m,
                  mc_Entry = TrackFrontierFromPB (pbc_Entry m)\<rparr>)))"

definition excludedToPB :: "ExcludedTable \<Rightarrow> pbExcludedTable" where
  "excludedToPB e = \<lparr>pbe_TableId = ex_TableID e, pbe_Reason = enumToPB (ex_Reason e)\<rparr>"

definition checkpointGroupToPB :: "CheckpointGroup \<Rightarrow> pbCheckpointGroup" where
  "checkpointGroupToPB g =
     \<lparr>pbg_DatabaseId = cg_DatabaseID g, pbg_GroupGeneration = cg_GroupGeneration g,
      pbg_Excluded = map excludedToPB (cg_Excluded g)\<rparr>"

definition MemberCheckpointBodyToPB :: "MemberCheckpoint \<Rightarrow> pbMemberCheckpoint" where
  "MemberCheckpointBodyToPB v =
     \<lparr>pbc_NodeId = mc_NodeID v, pbc_OwnerIndexerId = mc_OwnerIndexerID v, pbc_CheckpointSeq = mc_CheckpointSeq v,
      pbc_Groups = map checkpointGroupToPB (mc_Groups v), pbc_SnapshotId = mc_SnapshotID v,
      pbc_Entry = TrackFrontierToPB (mc_Entry v)\<rparr>"

section \<open>Groups\<close>

record MemberCheckpointRecord =
  mr_Checkpoint :: MemberCheckpoint
  mr_ReplicaJWS :: string
  mr_Epoch :: u64

record pbMemberCheckpointRecord =
  pbr_Checkpoint :: "pbMemberCheckpoint option"
  pbr_ReplicaJws :: string
  pbr_Epoch :: u64

record GroupMember =
  gm_NodeID :: string
  gm_JoinedGeneration :: u64
  gm_ReadyGeneration :: u64
  gm_Class :: MemberClass
  gm_Checkpoint :: "MemberCheckpointRecord option"
  gm_ObservedEntry :: "TrackFrontier option"
  gm_LagAdvances :: u64
  gm_HostIndexerID :: "u64 option"

record pbGroupMember =
  pbm_NodeId :: string
  pbm_JoinedGeneration :: u64
  pbm_ReadyGeneration :: u64
  pbm_MemberClass :: "MemberClass pb_enum"
  pbm_Checkpoint :: "pbMemberCheckpointRecord option"
  pbm_ObservedEntry :: "TrackFrontier option"
  pbm_LagAdvances :: u64
  pbm_HostIndexerId :: "u64 option"

definition GroupMember_Ready :: "GroupMember \<Rightarrow> bool" where
  "GroupMember_Ready m \<longleftrightarrow> gm_ReadyGeneration m \<noteq> 0 \<and> gm_ReadyGeneration m \<ge> gm_JoinedGeneration m"

record LeavingMember =
  lm_NodeID :: string
  lm_RemovedGeneration :: u64
  lm_ReleaseEntry :: TrackFrontier
  lm_FrozenMembers :: "string list"
  lm_FrozenDomains :: u32
  lm_Released :: bool

record pbLeavingMember =
  pbl_NodeId :: string
  pbl_RemovedGeneration :: u64
  pbl_ReleaseEntry :: "TrackFrontier option"
  pbl_FrozenMembers :: "string list"
  pbl_FrozenDomains :: u32
  pbl_Released :: bool

record DatabaseGroup =
  dg_OwnerIndexerID :: u64
  dg_DatabaseID :: string
  dg_Members :: "GroupMember list"
  dg_NetworkFill :: bool
  dg_Generation :: u64
  dg_PastMembers :: "string list"
  dg_Leaving :: "LeavingMember list"
  dg_GroupKey :: string
  dg_PlacementSalt :: string

record pbDatabaseGroup =
  pbd_OwnerIndexerId :: u64
  pbd_DatabaseId :: string
  pbd_Members :: "pbGroupMember list"
  pbd_NetworkFill :: bool
  pbd_Generation :: u64
  pbd_PastMembers :: "string list"
  pbd_Leaving :: "pbLeavingMember list"
  pbd_GroupKey :: string
  pbd_PlacementSalt :: string

record MemberCheckpointSeq =
  ms_NodeID :: string
  ms_OwnerIndexerID :: u64
  ms_CheckpointSeq :: u64
  ms_ReplicaSigner :: string

section \<open>Incarnations and the snapshot\<close>

record TableRegistryCursor =
  tc_BlockNumber :: u64
  tc_BlockHash :: string
  tc_LogIndex :: u64
  tc_BlockComplete :: bool

text \<open>
  The struct and its message have the same fields; they differ in the types of the two enums. The
  retire reason is an \<open>int32\<close> in both.
\<close>

record ('st, 'og) incarnation =
  ti_Seq :: u64
  ti_DatabaseID :: string
  ti_TableID :: string
  ti_Origin :: 'og
  ti_Status :: 'st
  ti_Created :: "L2EventRef option"
  ti_SchemaRef :: "L2EventRef option"
  ti_SchemaVersion :: u32
  ti_SchemaHash :: string
  ti_SchemaJSON :: string
  ti_RefusedReason :: string
  ti_RefusedCode :: string
  ti_Deleted :: "L2EventRef option"
  ti_RetireReason :: int
  ti_AddBlockSeq :: u64
  ti_RetireBlockSeq :: u64
  ti_PurgedBy :: "string list"
  ti_OwnerIndexerID :: "u64 option"
  ti_ScopedKeeperPath :: bool
  ti_PurgeMembers :: "string list"

type_synonym TableIncarnation = "(TableIncarnationStatus, TableOrigin) incarnation"
type_synonym pbTableIncarnation = "(TableIncarnationStatus pb_enum, TableOrigin pb_enum) incarnation"

definition Key :: "('st, 'og) incarnation \<Rightarrow> string" where
  "Key t = TableKey (ti_DatabaseID t) (ti_TableID t)"

definition HasPhysicalTables :: "TableIncarnation \<Rightarrow> bool" where
  "HasPhysicalTables t \<longleftrightarrow>
     ti_Status t \<in> {TableStatusPending, TableStatusActive, TableStatusRetiring, TableStatusPurging}"

record TableRegistrySnapshot =
  rs_Params :: TableRegistryParams
  rs_Version :: u64
  rs_Seeded :: bool
  rs_Cursor :: TableRegistryCursor
  rs_Incarnations :: "TableIncarnation list"
  rs_ClientLanes :: "ClientLaneParams option"
  rs_SIIndexers :: "SIIndexerEntry list"
  rs_SeededIndexers :: "u64 list"
  rs_QuarantinedIndexers :: "u64 list"
  rs_Groups :: "DatabaseGroup list"
  rs_MemberCheckpointSeqs :: "MemberCheckpointSeq list"
  rs_Stage3 :: "Stage3Params option"

record pbTableRegistrySnapshot =
  pbs_Params :: "TableRegistryParams option"
  pbs_Version :: u64
  pbs_Seeded :: bool
  pbs_Cursor :: "TableRegistryCursor option"
  pbs_Incarnations :: "pbTableIncarnation list"
  pbs_ClientLanes :: "ClientLaneParams option"
  pbs_SiIndexers :: "SIIndexerEntry list"
  pbs_SeededIndexers :: "u64 list"
  pbs_QuarantinedIndexers :: "u64 list"
  pbs_Groups :: "pbDatabaseGroup list"
  pbs_MemberCheckpointSeqs :: "MemberCheckpointSeq list"
  pbs_Stage3 :: "Stage3Params option"

subsection \<open>Queries\<close>

text \<open>The loop of \<open>Live\<close>, from the newest incarnation down, with the newest one of the key seen so far.\<close>

fun liveLoop :: "string \<Rightarrow> TableIncarnation option \<Rightarrow> TableIncarnation list \<Rightarrow> TableIncarnation option" where
  "liveLoop k newest [] = newest"
| "liveLoop k newest (inc # incs) =
     (if Key inc \<noteq> k then liveLoop k newest incs
      else let newest' = (if newest = None then Some inc else newest) in
        if ti_Status inc \<noteq> TableStatusPurged \<and> ti_Status inc \<noteq> TableStatusRefused then Some inc
        else liveLoop k newest' incs)"

definition Live :: "TableRegistrySnapshot \<Rightarrow> string \<Rightarrow> TableIncarnation option" where
  "Live s k = liveLoop k None (rev (rs_Incarnations s))"

definition ActiveTables :: "TableRegistrySnapshot \<Rightarrow> TableIncarnation list" where
  "ActiveTables s = filter (\<lambda>inc. ti_Status inc = TableStatusActive) (rs_Incarnations s)"

definition SignedClaimsActive :: "TableRegistrySnapshot \<Rightarrow> bool" where
  "SignedClaimsActive s \<longleftrightarrow> length (rs_SIIndexers s) > 0"

definition SIIndexer :: "TableRegistrySnapshot \<Rightarrow> u64 \<Rightarrow> SIIndexerEntry option" where
  "SIIndexer s indexerID = find (\<lambda>e. si_IndexerID e = indexerID) (rs_SIIndexers s)"

definition Owner :: "TableRegistrySnapshot \<Rightarrow> TableIncarnation \<Rightarrow> u64" where
  "Owner s inc = (case ti_OwnerIndexerID inc of Some i \<Rightarrow> i | None \<Rightarrow> tr_SIIndexerID (rs_Params s))"

definition namedNodes :: "TableRegistrySnapshot \<Rightarrow> string list" where
  "namedNodes s =
     map si_SNodeNodeID (rs_SIIndexers s) @
     concat (map (\<lambda>g. map gm_NodeID (dg_Members g) @ dg_PastMembers g @ map lm_NodeID (dg_Leaving g)) (rs_Groups s)) @
     concat (map ti_PurgeMembers (rs_Incarnations s)) @
     map ms_NodeID (rs_MemberCheckpointSeqs s)"

definition NetworkPool :: "TableRegistrySnapshot \<Rightarrow> string list \<Rightarrow> string list" where
  "NetworkPool s purgeNodeSet =
     (let named = namedNodes s in
      Compact (sort (filter (\<lambda>id. id \<noteq> [] \<and> id \<notin> set named) purgeNodeSet)))"

definition Group :: "TableRegistrySnapshot \<Rightarrow> u64 \<Rightarrow> string \<Rightarrow> DatabaseGroup option" where
  "Group s owner databaseID =
     find (\<lambda>g. dg_OwnerIndexerID g = owner \<and> dg_DatabaseID g = databaseID) (rs_Groups s)"

definition GroupsWithMember :: "TableRegistrySnapshot \<Rightarrow> string \<Rightarrow> DatabaseGroup list" where
  "GroupsWithMember s nodeID =
     filter (\<lambda>g. list_ex (\<lambda>m. gm_NodeID m = nodeID) (dg_Members g) \<or>
                 list_ex (\<lambda>l. lm_NodeID l = nodeID \<and> \<not> lm_Released l) (dg_Leaving g)) (rs_Groups s)"

definition PublishedCheckpointSeq :: "TableRegistrySnapshot \<Rightarrow> string \<Rightarrow> u64 \<Rightarrow> MemberCheckpointSeq option" where
  "PublishedCheckpointSeq s nodeID owner =
     find (\<lambda>q. ms_NodeID q = nodeID \<and> ms_OwnerIndexerID q = owner) (rs_MemberCheckpointSeqs s)"

definition KnownKeeperReplica :: "TableRegistrySnapshot \<Rightarrow> TableIncarnation \<Rightarrow> string list \<Rightarrow> string \<Rightarrow> bool" where
  "KnownKeeperReplica s inc pool replica =
     (if replica = [] then False
      else let owner = Owner s inc in
        if (case SIIndexer s owner of Some entry \<Rightarrow> si_SNodeNodeID entry = replica | None \<Rightarrow> False) then True
        else if replica \<in> set pool \<or> replica \<in> set (ti_PurgeMembers inc) then True
        else case Group s owner (ti_DatabaseID inc) of
               None \<Rightarrow> False
             | Some g \<Rightarrow>
                 list_ex (\<lambda>m. gm_NodeID m = replica) (dg_Members g) \<or> replica \<in> set (dg_PastMembers g) \<or>
                 list_ex (\<lambda>l. lm_NodeID l = replica) (dg_Leaving g))"

definition ManifestOwner :: "TableRegistrySnapshot \<Rightarrow> string \<Rightarrow> u64 option" where
  "ManifestOwner s tableKey =
     map_option (Owner s)
       (find (\<lambda>inc. \<not> (Key inc \<noteq> tableKey \<or> ti_Status inc = TableStatusRefused) \<and>
                    (ti_Origin inc = TableOriginGenesis \<or> ti_AddBlockSeq inc \<noteq> 0)) (rev (rs_Incarnations s)))"

section \<open>Decoding\<close>

definition ascendingUnique :: "string list \<Rightarrow> bool" where
  "ascendingUnique ids = ascending ids"

text \<open>The loop over a sorted list of enrolled ids, shared by the seeded and the quarantined indexers.\<close>

fun enrolledLoop :: "wire_error \<Rightarrow> (u64 \<Rightarrow> wire_error) \<Rightarrow> u64 set \<Rightarrow> u64 option \<Rightarrow> u64 list \<Rightarrow> (wire_error, unit) result" where
  "enrolledLoop unsorted unknown enrolled prev [] = Inr ()"
| "enrolledLoop unsorted unknown enrolled prev (i # is) =
     (if (case prev of Some q \<Rightarrow> q \<ge> i | None \<Rightarrow> False) then Inl unsorted
      else if i \<notin> enrolled then Inl (unknown i)
      else enrolledLoop unsorted unknown enrolled (Some i) is)"

fun indexersLoop :: "u64 option \<Rightarrow> SIIndexerEntry list \<Rightarrow> (wire_error, unit) result" where
  "indexersLoop prev [] = Inr ()"
| "indexersLoop prev (e # es) =
     (case SIIndexerEntry_Validate e of
        Inl err \<Rightarrow> Inl (ErrSnapshotParam err)
      | Inr _ \<Rightarrow>
          (if (case prev of Some q \<Rightarrow> q \<ge> si_IndexerID e | None \<Rightarrow> False) then Inl ErrIndexersUnsorted
           else indexersLoop (Some (si_IndexerID e)) es))"

definition signedClaimsFromPB :: "pbTableRegistrySnapshot \<Rightarrow> (wire_error, SIIndexerEntry list \<times> u64 list) result" where
  "signedClaimsFromPB m =
     (let entries = pbs_SiIndexers m; seeded = pbs_SeededIndexers m in
      rbind (indexersLoop None entries) (\<lambda>_.
      rbind (enrolledLoop ErrSeededUnsorted ErrSeededUnknown (si_IndexerID ` set entries) None seeded) (\<lambda>_.
      Inr (entries, seeded))))"

definition quarantinedFromPB :: "pbTableRegistrySnapshot \<Rightarrow> SIIndexerEntry list \<Rightarrow> (wire_error, u64 list) result" where
  "quarantinedFromPB m entries =
     rbind (enrolledLoop ErrQuarantinedUnsorted ErrQuarantinedUnknown (si_IndexerID ` set entries) None
              (pbs_QuarantinedIndexers m)) (\<lambda>_. Inr (pbs_QuarantinedIndexers m))"

text \<open>The body of the loop over the incarnations, at position \<open>i\<close>.\<close>

definition incarnationFromPB ::
    "SIIndexerEntry list \<Rightarrow> nat \<Rightarrow> pbTableIncarnation \<Rightarrow> (wire_error, TableIncarnation) result" where
  "incarnationFromPB entries i inc =
     (if ti_Seq inc \<noteq> of_nat i + 1 then Inl (ErrIncarnationSeq (ti_Seq inc))
      else if \<not> ascendingUnique (ti_PurgeMembers inc) then Inl (ErrPurgeMembersUnsorted (ti_Seq inc))
      else if (case ti_OwnerIndexerID inc of None \<Rightarrow> False | Some q \<Rightarrow> q \<notin> si_IndexerID ` set entries)
      then Inl (ErrIncarnationOwner (ti_Seq inc))
      else case enumFromPB (ti_Status inc) of
             None \<Rightarrow> Inl (ErrUnknownStatus (ti_Seq inc))
           | Some status \<Rightarrow>
               (case enumFromPB (ti_Origin inc) of
                  None \<Rightarrow> Inl (ErrUnknownOrigin (ti_Seq inc))
                | Some origin \<Rightarrow>
                    (if ti_RetireReason inc \<notin> {0, 1, 2} then Inl (ErrUnknownRetireReason (ti_Seq inc))
                     else Inr
                       \<lparr>ti_Seq = ti_Seq inc, ti_DatabaseID = ti_DatabaseID inc, ti_TableID = ti_TableID inc,
                        ti_Origin = origin, ti_Status = status, ti_Created = ti_Created inc,
                        ti_SchemaRef = ti_SchemaRef inc, ti_SchemaVersion = ti_SchemaVersion inc,
                        ti_SchemaHash = ti_SchemaHash inc, ti_SchemaJSON = ti_SchemaJSON inc,
                        ti_RefusedReason = ti_RefusedReason inc, ti_RefusedCode = ti_RefusedCode inc,
                        ti_Deleted = ti_Deleted inc, ti_RetireReason = ti_RetireReason inc,
                        ti_AddBlockSeq = ti_AddBlockSeq inc, ti_RetireBlockSeq = ti_RetireBlockSeq inc,
                        ti_PurgedBy = ti_PurgedBy inc, ti_OwnerIndexerID = ti_OwnerIndexerID inc,
                        ti_ScopedKeeperPath = ti_ScopedKeeperPath inc, ti_PurgeMembers = ti_PurgeMembers inc\<rparr>)))"

fun incarnationsLoop ::
    "SIIndexerEntry list \<Rightarrow> nat \<Rightarrow> pbTableIncarnation list \<Rightarrow> (wire_error, TableIncarnation list) result" where
  "incarnationsLoop entries i [] = Inr []"
| "incarnationsLoop entries i (inc # incs) =
     rbind (incarnationFromPB entries i inc) (\<lambda>t.
     rbind (incarnationsLoop entries (Suc i) incs) (\<lambda>ts. Inr (t # ts)))"

definition groupMemberFromPB :: "pbGroupMember \<Rightarrow> (wire_error, GroupMember) result" where
  "groupMemberFromPB m =
     (case enumFromPB (pbm_MemberClass m) of
        None \<Rightarrow> Inl (ErrMemberClass (pbm_NodeId m))
      | Some cls \<Rightarrow>
          rbind (case pbm_Checkpoint m of
                   None \<Rightarrow> Inr None
                 | Some r \<Rightarrow>
                     rbind (MemberCheckpointBodyFromPB (pbr_Checkpoint r)) (\<lambda>cp.
                     Inr (Some \<lparr>mr_Checkpoint = cp, mr_ReplicaJWS = pbr_ReplicaJws r, mr_Epoch = pbr_Epoch r\<rparr>)))
            (\<lambda>checkpoint.
             Inr \<lparr>gm_NodeID = pbm_NodeId m, gm_JoinedGeneration = pbm_JoinedGeneration m,
                  gm_ReadyGeneration = pbm_ReadyGeneration m, gm_Class = cls, gm_Checkpoint = checkpoint,
                  gm_ObservedEntry = map_option (\<lambda>e. TrackFrontierFromPB (Some e)) (pbm_ObservedEntry m),
                  gm_LagAdvances = pbm_LagAdvances m, gm_HostIndexerID = pbm_HostIndexerId m\<rparr>))"

definition leavingFromPB :: "pbLeavingMember \<Rightarrow> LeavingMember" where
  "leavingFromPB l =
     \<lparr>lm_NodeID = pbl_NodeId l, lm_RemovedGeneration = pbl_RemovedGeneration l,
      lm_ReleaseEntry = TrackFrontierFromPB (pbl_ReleaseEntry l), lm_FrozenMembers = pbl_FrozenMembers l,
      lm_FrozenDomains = pbl_FrozenDomains l, lm_Released = pbl_Released l\<rparr>"

definition groupFromPB :: "pbDatabaseGroup \<Rightarrow> (wire_error, DatabaseGroup) result" where
  "groupFromPB g =
     rbind (each groupMemberFromPB (pbd_Members g)) (\<lambda>members.
     let leaving = map leavingFromPB (pbd_Leaving g) in
     if \<not> ascendingUnique (map gm_NodeID members) \<or> \<not> ascendingUnique (pbd_PastMembers g) \<or>
        \<not> ascendingUnique (map lm_NodeID leaving)
     then Inl ErrGroupLists
     else Inr \<lparr>dg_OwnerIndexerID = pbd_OwnerIndexerId g, dg_DatabaseID = pbd_DatabaseId g, dg_Members = members,
               dg_NetworkFill = pbd_NetworkFill g, dg_Generation = pbd_Generation g,
               dg_PastMembers = pbd_PastMembers g, dg_Leaving = leaving, dg_GroupKey = pbd_GroupKey g,
               dg_PlacementSalt = pbd_PlacementSalt g\<rparr>)"

text \<open>\<open>cmp.Or(cmp.Compare(a, c), cmp.Compare(b, d)) >= 0\<close>.\<close>

definition pair_ge :: "'a :: linorder \<times> 'b :: linorder \<Rightarrow> 'a \<times> 'b \<Rightarrow> bool" where
  "pair_ge p q \<longleftrightarrow> fst p > fst q \<or> (fst p = fst q \<and> snd p \<ge> snd q)"

fun groupsLoop :: "u64 set \<Rightarrow> (u64 \<times> string) option \<Rightarrow> pbDatabaseGroup list \<Rightarrow> (wire_error, DatabaseGroup list) result" where
  "groupsLoop enrolled prev [] = Inr []"
| "groupsLoop enrolled prev (g # gs) =
     (let k = (pbd_OwnerIndexerId g, pbd_DatabaseId g) in
      if (case prev of Some q \<Rightarrow> pair_ge q k | None \<Rightarrow> False) then Inl ErrGroupsUnsorted
      else if pbd_OwnerIndexerId g \<notin> enrolled then Inl (ErrGroupOwner (pbd_OwnerIndexerId g))
      else rbind (groupFromPB g) (\<lambda>group.
           rbind (groupsLoop enrolled (Some k) gs) (\<lambda>groups. Inr (group # groups))))"

definition groupsFromPB :: "pbTableRegistrySnapshot \<Rightarrow> u64 set \<Rightarrow> (wire_error, DatabaseGroup list) result" where
  "groupsFromPB m enrolled = groupsLoop enrolled None (pbs_Groups m)"

fun pairsAscending :: "('a :: linorder \<times> 'b :: linorder) list \<Rightarrow> bool" where
  "pairsAscending (p # q # ps) \<longleftrightarrow> \<not> pair_ge p q \<and> pairsAscending (q # ps)"
| "pairsAscending _ \<longleftrightarrow> True"

definition memberCheckpointSeqsFromPB :: "pbTableRegistrySnapshot \<Rightarrow> (wire_error, MemberCheckpointSeq list) result" where
  "memberCheckpointSeqsFromPB m =
     (if pairsAscending (map (\<lambda>q. (ms_NodeID q, ms_OwnerIndexerID q)) (pbs_MemberCheckpointSeqs m))
      then Inr (pbs_MemberCheckpointSeqs m) else Inl ErrCheckpointSeqsUnsorted)"

definition zeroParams :: TableRegistryParams where
  "zeroParams = \<lparr>tr_ChainID = 0, tr_DatabasesContract = [], tr_SIIndexerID = 0, tr_ActivationBlock = 0, tr_Confirmation = []\<rparr>"

definition zeroCursor :: TableRegistryCursor where
  "zeroCursor = \<lparr>tc_BlockNumber = 0, tc_BlockHash = [], tc_LogIndex = 0, tc_BlockComplete = False\<rparr>"

definition checkOption :: "('a \<Rightarrow> (param_error, unit) result) \<Rightarrow> 'a option \<Rightarrow> (wire_error, 'a option) result" where
  "checkOption validate x =
     (case x of None \<Rightarrow> Inr None
      | Some p \<Rightarrow> rbind (rmap_error ErrSnapshotParam (validate p)) (\<lambda>_. Inr (Some p)))"

definition TableRegistrySnapshotFromPB ::
    "pbTableRegistrySnapshot option \<Rightarrow> (wire_error, TableRegistrySnapshot) result" where
  "TableRegistrySnapshotFromPB mo =
     (case mo of
        None \<Rightarrow> Inl ErrSnapshotRequired
      | Some m \<Rightarrow>
          rbind (checkOption ClientLaneParams_Validate (pbs_ClientLanes m)) (\<lambda>lanes.
          rbind (signedClaimsFromPB m) (\<lambda>(entries, seeded).
          rbind (quarantinedFromPB m entries) (\<lambda>quarantined.
          rbind (incarnationsLoop entries 0 (pbs_Incarnations m)) (\<lambda>incarnations.
          rbind (groupsFromPB m (si_IndexerID ` set entries)) (\<lambda>groups.
          rbind (memberCheckpointSeqsFromPB m) (\<lambda>seqs.
          rbind (checkOption Stage3Params_Validate (pbs_Stage3 m)) (\<lambda>stage3.
          Inr \<lparr>rs_Params = (case pbs_Params m of Some p \<Rightarrow> p | None \<Rightarrow> zeroParams), rs_Version = pbs_Version m,
               rs_Seeded = pbs_Seeded m, rs_Cursor = (case pbs_Cursor m of Some c \<Rightarrow> c | None \<Rightarrow> zeroCursor),
               rs_Incarnations = incarnations, rs_ClientLanes = lanes, rs_SIIndexers = entries,
               rs_SeededIndexers = seeded, rs_QuarantinedIndexers = quarantined, rs_Groups = groups,
               rs_MemberCheckpointSeqs = seqs, rs_Stage3 = stage3\<rparr>))))))))"

section \<open>Encoding\<close>

definition groupMemberToPB :: "GroupMember \<Rightarrow> pbGroupMember" where
  "groupMemberToPB m =
     \<lparr>pbm_NodeId = gm_NodeID m, pbm_JoinedGeneration = gm_JoinedGeneration m,
      pbm_ReadyGeneration = gm_ReadyGeneration m, pbm_MemberClass = enumToPB (gm_Class m),
      pbm_Checkpoint = map_option (\<lambda>r. \<lparr>pbr_Checkpoint = Some (MemberCheckpointBodyToPB (mr_Checkpoint r)),
         pbr_ReplicaJws = mr_ReplicaJWS r, pbr_Epoch = mr_Epoch r\<rparr>) (gm_Checkpoint m),
      pbm_ObservedEntry = (case gm_ObservedEntry m of None \<Rightarrow> None | Some e \<Rightarrow> TrackFrontierToPB e),
      pbm_LagAdvances = gm_LagAdvances m, pbm_HostIndexerId = gm_HostIndexerID m\<rparr>"

definition leavingToPB :: "LeavingMember \<Rightarrow> pbLeavingMember" where
  "leavingToPB l =
     \<lparr>pbl_NodeId = lm_NodeID l, pbl_RemovedGeneration = lm_RemovedGeneration l,
      pbl_ReleaseEntry = TrackFrontierToPB (lm_ReleaseEntry l), pbl_FrozenMembers = lm_FrozenMembers l,
      pbl_FrozenDomains = lm_FrozenDomains l, pbl_Released = lm_Released l\<rparr>"

definition groupToPB :: "DatabaseGroup \<Rightarrow> pbDatabaseGroup" where
  "groupToPB g =
     \<lparr>pbd_OwnerIndexerId = dg_OwnerIndexerID g, pbd_DatabaseId = dg_DatabaseID g,
      pbd_Members = map groupMemberToPB (dg_Members g), pbd_NetworkFill = dg_NetworkFill g,
      pbd_Generation = dg_Generation g, pbd_PastMembers = dg_PastMembers g,
      pbd_Leaving = map leavingToPB (dg_Leaving g), pbd_GroupKey = dg_GroupKey g,
      pbd_PlacementSalt = dg_PlacementSalt g\<rparr>"

definition incarnationToPB :: "TableIncarnation \<Rightarrow> pbTableIncarnation" where
  "incarnationToPB inc =
     \<lparr>ti_Seq = ti_Seq inc, ti_DatabaseID = ti_DatabaseID inc, ti_TableID = ti_TableID inc,
      ti_Origin = enumToPB (ti_Origin inc), ti_Status = enumToPB (ti_Status inc), ti_Created = ti_Created inc,
      ti_SchemaRef = ti_SchemaRef inc, ti_SchemaVersion = ti_SchemaVersion inc,
      ti_SchemaHash = ti_SchemaHash inc, ti_SchemaJSON = ti_SchemaJSON inc,
      ti_RefusedReason = ti_RefusedReason inc, ti_RefusedCode = ti_RefusedCode inc,
      ti_Deleted = ti_Deleted inc, ti_RetireReason = ti_RetireReason inc,
      ti_AddBlockSeq = ti_AddBlockSeq inc, ti_RetireBlockSeq = ti_RetireBlockSeq inc,
      ti_PurgedBy = ti_PurgedBy inc, ti_OwnerIndexerID = ti_OwnerIndexerID inc,
      ti_ScopedKeeperPath = ti_ScopedKeeperPath inc, ti_PurgeMembers = ti_PurgeMembers inc\<rparr>"

definition TableRegistrySnapshotToPB :: "TableRegistrySnapshot \<Rightarrow> pbTableRegistrySnapshot" where
  "TableRegistrySnapshotToPB s =
     \<lparr>pbs_Params = Some (rs_Params s), pbs_Version = rs_Version s, pbs_Seeded = rs_Seeded s,
      pbs_Cursor = Some (rs_Cursor s), pbs_Incarnations = map incarnationToPB (rs_Incarnations s),
      pbs_ClientLanes = rs_ClientLanes s, pbs_SiIndexers = rs_SIIndexers s,
      pbs_SeededIndexers = rs_SeededIndexers s, pbs_QuarantinedIndexers = rs_QuarantinedIndexers s,
      pbs_Groups = map groupToPB (rs_Groups s), pbs_MemberCheckpointSeqs = rs_MemberCheckpointSeqs s,
      pbs_Stage3 = rs_Stage3 s\<rparr>"

section \<open>Schemas\<close>

text \<open>
  \<open>payloadexec\<close> is a library: \<open>decode\<close> stands for \<open>DecodeTableSchemaJSON(key, json)\<close> and \<open>hash\<close> for
  \<open>TableSchemaHash\<close> under the role's network.
\<close>

datatype schema_error =
    ErrNoSchemaJSON u64 | ErrSchemaJSON | ErrSchemaHash string | ErrNotInRegistry string | ErrTableStatus string
  | ErrGenesisNotConfigured string | ErrNoSchemaConfigured string

definition Schema :: "(string \<Rightarrow> string \<Rightarrow> TableSchema option) \<Rightarrow> TableIncarnation \<Rightarrow> (schema_error, TableSchema) result" where
  "Schema decode t =
     (if ti_SchemaJSON t = [] then Inl (ErrNoSchemaJSON (ti_Seq t))
      else case decode (Key t) (ti_SchemaJSON t) of None \<Rightarrow> Inl ErrSchemaJSON | Some sch \<Rightarrow> Inr sch)"

definition IncarnationSchema ::
    "(string \<Rightarrow> string \<Rightarrow> TableSchema option) \<Rightarrow> (TableSchema \<Rightarrow> string) \<Rightarrow> TableSchema list \<Rightarrow> TableIncarnation \<Rightarrow>
     (schema_error, TableSchema) result" where
  "IncarnationSchema decode hash genesis inc =
     (if ti_Origin inc = TableOriginGenesis
      then case find (\<lambda>t. ts_TableID t = Key inc) genesis of
             Some t \<Rightarrow> Inr t | None \<Rightarrow> Inl (ErrGenesisNotConfigured (Key inc))
      else rbind (Schema decode inc) (\<lambda>schema.
           if hash schema \<noteq> ti_SchemaHash inc then Inl (ErrSchemaHash (Key inc)) else Inr schema))"

definition RegistrySchema ::
    "(string \<Rightarrow> string \<Rightarrow> TableSchema option) \<Rightarrow> (TableSchema \<Rightarrow> string) \<Rightarrow> TableSchema list \<Rightarrow> TableRegistrySnapshot \<Rightarrow>
     string \<Rightarrow> (schema_error, TableSchema) result" where
  "RegistrySchema decode hash genesis snap tableID =
     (case Live snap tableID of
        None \<Rightarrow> Inl (ErrNotInRegistry tableID)
      | Some live \<Rightarrow>
          (if ti_Status live \<in> {TableStatusActive, TableStatusRetiring, TableStatusPurging}
           then IncarnationSchema decode hash genesis live
           else Inl (ErrTableStatus tableID)))"

section \<open>Well-formed snapshots\<close>

definition wf_incarnation :: "u64 set \<Rightarrow> TableIncarnation \<Rightarrow> bool" where
  "wf_incarnation ids inc \<longleftrightarrow>
     ascendingUnique (ti_PurgeMembers inc) \<and> pred_option (\<lambda>q. q \<in> ids) (ti_OwnerIndexerID inc) \<and>
     ti_RetireReason inc \<in> {0, 1, 2}"

definition wf_group :: "u64 set \<Rightarrow> DatabaseGroup \<Rightarrow> bool" where
  "wf_group ids g \<longleftrightarrow>
     dg_OwnerIndexerID g \<in> ids \<and> ascendingUnique (map gm_NodeID (dg_Members g)) \<and>
     ascendingUnique (dg_PastMembers g) \<and> ascendingUnique (map lm_NodeID (dg_Leaving g))"

definition wf_snapshot :: "TableRegistrySnapshot \<Rightarrow> bool" where
  "wf_snapshot s \<longleftrightarrow>
     (let ids = si_IndexerID ` set (rs_SIIndexers s); n = length (rs_Incarnations s) in
      pred_option (\<lambda>p. is_ok (ClientLaneParams_Validate p)) (rs_ClientLanes s) \<and>
      list_all (\<lambda>e. is_ok (SIIndexerEntry_Validate e)) (rs_SIIndexers s) \<and>
      ascending (map si_IndexerID (rs_SIIndexers s)) \<and>
      ascending (rs_SeededIndexers s) \<and> set (rs_SeededIndexers s) \<subseteq> ids \<and>
      ascending (rs_QuarantinedIndexers s) \<and> set (rs_QuarantinedIndexers s) \<subseteq> ids \<and>
      map ti_Seq (rs_Incarnations s) = map (\<lambda>i. of_nat i + 1) [0..<n] \<and>
      list_all (wf_incarnation ids) (rs_Incarnations s) \<and>
      pairsAscending (map (\<lambda>g. (dg_OwnerIndexerID g, dg_DatabaseID g)) (rs_Groups s)) \<and>
      list_all (wf_group ids) (rs_Groups s) \<and>
      pairsAscending (map (\<lambda>q. (ms_NodeID q, ms_OwnerIndexerID q)) (rs_MemberCheckpointSeqs s)) \<and>
      pred_option (\<lambda>p. is_ok (Stage3Params_Validate p)) (rs_Stage3 s))"

subsection \<open>Lemmas on the converters\<close>

lemma enum_roundtrip [simp]: "enumFromPB (enumToPB a) = Some a"
  by (simp add: enumFromPB_def enumToPB_def)

lemma each_map_Inr: "(\<And>x. x \<in> set xs \<Longrightarrow> f (g x) = Inr x) \<Longrightarrow> each f (map g xs) = Inr xs"
  by (induction xs) auto

lemma excluded_roundtrip [simp]: "excludedFromPB (excludedToPB e) = Inr e"
  by (simp add: excludedFromPB_def excludedToPB_def)

lemma checkpointGroup_roundtrip [simp]: "checkpointGroupFromPB (checkpointGroupToPB g) = Inr g"
  by (simp add: checkpointGroupFromPB_def checkpointGroupToPB_def each_map_Inr)

lemma checkpoint_roundtrip [simp]: "MemberCheckpointBodyFromPB (Some (MemberCheckpointBodyToPB v)) = Inr v"
  by (simp add: MemberCheckpointBodyFromPB_def MemberCheckpointBodyToPB_def each_map_Inr TrackFrontierToPB_def
      TrackFrontierFromPB_def)

lemma groupMember_roundtrip [simp]: "groupMemberFromPB (groupMemberToPB m) = Inr m"
  by (cases "gm_Checkpoint m"; cases "gm_ObservedEntry m"; cases m)
    (simp_all add: groupMemberFromPB_def groupMemberToPB_def TrackFrontierToPB_def TrackFrontierFromPB_def)

lemma leaving_roundtrip [simp]: "leavingFromPB (leavingToPB l) = l"
  by (simp add: leavingFromPB_def leavingToPB_def TrackFrontierToPB_def TrackFrontierFromPB_def)

lemma leaving_roundtrip_comp [simp]: "leavingFromPB \<circ> leavingToPB = id"
  by (simp add: fun_eq_iff)

lemma group_roundtrip: "wf_group ids g \<Longrightarrow> groupFromPB (groupToPB g) = Inr g"
  by (simp add: groupFromPB_def groupToPB_def each_map_Inr wf_group_def)

lemma groupFromPB_wf:
  "groupFromPB m = Inr g \<Longrightarrow> pbd_OwnerIndexerId m \<in> ids \<Longrightarrow>
     wf_group ids g \<and> dg_OwnerIndexerID g = pbd_OwnerIndexerId m \<and> dg_DatabaseID g = pbd_DatabaseId m"
  by (auto simp: groupFromPB_def wf_group_def result_simps Let_def split: if_splits)

lemma enrolledLoop_iff:
  "enrolledLoop unsorted unknown enrolled prev is = Inr () \<longleftrightarrow>
     ascending ((case prev of None \<Rightarrow> [] | Some q \<Rightarrow> [q]) @ is) \<and> set is \<subseteq> enrolled"
proof (induction "is" arbitrary: prev)
  case (Cons i "is")
  show ?case by (cases prev) (auto simp: Cons.IH)
qed (simp split: option.splits)

lemma indexersLoop_iff:
  "indexersLoop prev es = Inr () \<longleftrightarrow>
     ascending ((case prev of None \<Rightarrow> [] | Some q \<Rightarrow> [q]) @ map si_IndexerID es) \<and>
     list_all (\<lambda>e. is_ok (SIIndexerEntry_Validate e)) es"
proof (induction es arbitrary: prev)
  case (Cons e es)
  show ?case by (cases prev; cases "SIIndexerEntry_Validate e") (auto simp: Cons.IH)
qed (simp split: option.splits)

lemma incarnation_roundtrip:
  "wf_incarnation (si_IndexerID ` set entries) inc \<Longrightarrow> ti_Seq inc = of_nat i + 1 \<Longrightarrow>
     incarnationFromPB entries i (incarnationToPB inc) = Inr inc"
  by (cases "ti_OwnerIndexerID inc"; cases inc) (auto simp: incarnationFromPB_def incarnationToPB_def wf_incarnation_def)

lemma incarnationFromPB_wf:
  "incarnationFromPB entries i m = Inr inc \<Longrightarrow>
     wf_incarnation (si_IndexerID ` set entries) inc \<and> ti_Seq inc = of_nat i + 1"
  by (auto simp: incarnationFromPB_def wf_incarnation_def split: if_splits option.splits)

abbreviation seqs_from :: "nat \<Rightarrow> TableIncarnation list \<Rightarrow> bool" where
  "seqs_from i incs \<equiv> map ti_Seq incs = map (\<lambda>j. of_nat j + 1) [i..<i + length incs]"

lemma seqs_from_Cons: "seqs_from i (inc # incs) \<longleftrightarrow> ti_Seq inc = of_nat i + 1 \<and> seqs_from (Suc i) incs"
  by (simp add: upt_conv_Cons del: upt_Suc)

lemma incarnationsLoop_roundtrip:
  "list_all (wf_incarnation (si_IndexerID ` set entries)) incs \<Longrightarrow> seqs_from i incs \<Longrightarrow>
     incarnationsLoop entries i (map incarnationToPB incs) = Inr incs"
proof (induction incs arbitrary: i)
  case (Cons inc incs)
  then show ?case unfolding seqs_from_Cons by (simp add: incarnation_roundtrip)
qed simp

lemma incarnationsLoop_wf:
  "incarnationsLoop entries i ms = Inr incs \<Longrightarrow>
     list_all (wf_incarnation (si_IndexerID ` set entries)) incs \<and> seqs_from i incs"
proof (induction ms arbitrary: i incs)
  case (Cons m ms)
  from Cons.prems obtain inc rest where "incarnationFromPB entries i m = Inr inc"
    "incarnationsLoop entries (Suc i) ms = Inr rest" "incs = inc # rest"
    by (auto simp: result_simps)
  with incarnationFromPB_wf [of entries i m inc] Cons.IH [of "Suc i" rest] show ?case
    unfolding \<open>incs = inc # rest\<close> seqs_from_Cons by simp
qed simp

abbreviation group_key :: "DatabaseGroup \<Rightarrow> u64 \<times> string" where
  "group_key g \<equiv> (dg_OwnerIndexerID g, dg_DatabaseID g)"

lemma groupsLoop_roundtrip:
  "list_all (wf_group ids) gs \<Longrightarrow>
   pairsAscending ((case prev of None \<Rightarrow> [] | Some q \<Rightarrow> [q]) @ map group_key gs) \<Longrightarrow>
     groupsLoop ids prev (map groupToPB gs) = Inr gs"
proof (induction gs arbitrary: prev)
  case (Cons g gs)
  have k: "(pbd_OwnerIndexerId (groupToPB g), pbd_DatabaseId (groupToPB g)) = group_key g"
    by (simp add: groupToPB_def)
  have "groupsLoop ids (Some (group_key g)) (map groupToPB gs) = Inr gs"
    using Cons.prems by (intro Cons.IH) (auto split: option.splits)
  moreover have "groupFromPB (groupToPB g) = Inr g" using Cons.prems(1) by (auto intro: group_roundtrip)
  moreover have "dg_OwnerIndexerID g \<in> ids" using Cons.prems(1) by (simp add: wf_group_def)
  ultimately show ?case using Cons.prems(2) k by (cases prev) (auto simp: Let_def)
qed simp

lemma groupsLoop_wf:
  "groupsLoop ids prev ms = Inr gs \<Longrightarrow>
     list_all (wf_group ids) gs \<and> pairsAscending ((case prev of None \<Rightarrow> [] | Some q \<Rightarrow> [q]) @ map group_key gs)"
proof (induction ms arbitrary: prev gs)
  case (Cons m ms)
  let ?k = "(pbd_OwnerIndexerId m, pbd_DatabaseId m)"
  from Cons.prems obtain g rest where *: "\<not> (case prev of Some q \<Rightarrow> pair_ge q ?k | None \<Rightarrow> False)"
    "pbd_OwnerIndexerId m \<in> ids" "groupFromPB m = Inr g" "groupsLoop ids (Some ?k) ms = Inr rest" "gs = g # rest"
    by (auto simp: result_simps Let_def split: if_splits)
  from groupFromPB_wf [OF *(3,2)] have "wf_group ids g" "group_key g = ?k" by auto
  with Cons.IH [OF *(4)] *(1,5) show ?case by (cases prev) auto
qed (auto split: option.splits)

lemma checkOption_iff: "checkOption f x = Inr y \<longleftrightarrow> pred_option (\<lambda>p. is_ok (f p)) x \<and> y = x"
  by (cases x) (auto simp: checkOption_def result_simps is_ok_iff)

lemma snapshot_decodes:
  assumes "wf_snapshot s"
  shows "TableRegistrySnapshotFromPB (Some (TableRegistrySnapshotToPB s)) = Inr s"
proof -
  let ?m = "TableRegistrySnapshotToPB s" and ?ids = "si_IndexerID ` set (rs_SIIndexers s)"
  note wf = assms [unfolded wf_snapshot_def Let_def]
  have "checkOption ClientLaneParams_Validate (pbs_ClientLanes ?m) = Inr (rs_ClientLanes s)"
    "checkOption Stage3Params_Validate (pbs_Stage3 ?m) = Inr (rs_Stage3 s)"
    using wf by (auto simp: checkOption_iff TableRegistrySnapshotToPB_def)
  moreover have "signedClaimsFromPB ?m = Inr (rs_SIIndexers s, rs_SeededIndexers s)"
    using wf by (auto simp: signedClaimsFromPB_def TableRegistrySnapshotToPB_def result_simps enrolledLoop_iff indexersLoop_iff Let_def)
  moreover have "quarantinedFromPB ?m (rs_SIIndexers s) = Inr (rs_QuarantinedIndexers s)"
    using wf by (auto simp: quarantinedFromPB_def TableRegistrySnapshotToPB_def result_simps enrolledLoop_iff)
  moreover have "incarnationsLoop (rs_SIIndexers s) 0 (pbs_Incarnations ?m) = Inr (rs_Incarnations s)"
    using wf by (auto simp: TableRegistrySnapshotToPB_def intro!: incarnationsLoop_roundtrip)
  moreover have "groupsFromPB ?m ?ids = Inr (rs_Groups s)"
    using wf by (auto simp: TableRegistrySnapshotToPB_def groupsFromPB_def intro!: groupsLoop_roundtrip)
  moreover have "memberCheckpointSeqsFromPB ?m = Inr (rs_MemberCheckpointSeqs s)"
    using wf by (auto simp: TableRegistrySnapshotToPB_def memberCheckpointSeqsFromPB_def)
  ultimately show ?thesis
    by (simp add: TableRegistrySnapshotFromPB_def) (simp add: TableRegistrySnapshotToPB_def)
qed

lemma FromPB_wf:
  assumes "TableRegistrySnapshotFromPB m = Inr s"
  shows "wf_snapshot s"
proof -
  obtain p where m: "m = Some p" using assms by (cases m) (auto simp: TableRegistrySnapshotFromPB_def)
  let ?ids = "si_IndexerID ` set (rs_SIIndexers s)"
  have *: "checkOption ClientLaneParams_Validate (pbs_ClientLanes p) = Inr (rs_ClientLanes s)"
    "signedClaimsFromPB p = Inr (rs_SIIndexers s, rs_SeededIndexers s)"
    "quarantinedFromPB p (rs_SIIndexers s) = Inr (rs_QuarantinedIndexers s)"
    "incarnationsLoop (rs_SIIndexers s) 0 (pbs_Incarnations p) = Inr (rs_Incarnations s)"
    "groupsFromPB p ?ids = Inr (rs_Groups s)"
    "memberCheckpointSeqsFromPB p = Inr (rs_MemberCheckpointSeqs s)"
    "checkOption Stage3Params_Validate (pbs_Stage3 p) = Inr (rs_Stage3 s)"
    using assms unfolding m TableRegistrySnapshotFromPB_def
    by (auto simp: result_simps)
  show ?thesis
    using * incarnationsLoop_wf [OF *(4)] groupsLoop_wf [OF *(5) [unfolded groupsFromPB_def]]
    by (auto simp: wf_snapshot_def Let_def checkOption_iff signedClaimsFromPB_def quarantinedFromPB_def result_simps
        enrolledLoop_iff indexersLoop_iff memberCheckpointSeqsFromPB_def split: if_splits)
qed

section \<open>Properties\<close>

text \<open>
  C33. What the registry follower accepts. A decoded snapshot is well formed: indexers, seeds,
  quarantines, purge members, groups and checkpoint sequences are sorted without duplicates, every
  owner is enrolled, incarnations are numbered from 1 without gaps, and the stage-3 and lane parameters
  are valid.
\<close>

theorem decoded_snapshot_wf:
  assumes "TableRegistrySnapshotFromPB m = Inr s"
  shows "wf_snapshot s"
  by (rule FromPB_wf [OF assms])

definition demo_incarnation :: "u64 \<Rightarrow> TableIncarnationStatus \<Rightarrow> TableIncarnation" where
  "demo_incarnation seq status =
     \<lparr>ti_Seq = seq, ti_DatabaseID = ''db'', ti_TableID = ''t'', ti_Origin = TableOriginChain, ti_Status = status,
      ti_Created = None, ti_SchemaRef = None, ti_SchemaVersion = 1, ti_SchemaHash = ''h'', ti_SchemaJSON = ''j'',
      ti_RefusedReason = [], ti_RefusedCode = [], ti_Deleted = None, ti_RetireReason = 0, ti_AddBlockSeq = 1,
      ti_RetireBlockSeq = 0, ti_PurgedBy = [], ti_OwnerIndexerID = None, ti_ScopedKeeperPath = False,
      ti_PurgeMembers = [''a'', ''b'']\<rparr>"

definition demo_group :: DatabaseGroup where
  "demo_group =
     \<lparr>dg_OwnerIndexerID = 7, dg_DatabaseID = ''db'',
      dg_Members = [\<lparr>gm_NodeID = ''m1'', gm_JoinedGeneration = 1, gm_ReadyGeneration = 1, gm_Class = MemberClassCaughtUp,
        gm_Checkpoint = None, gm_ObservedEntry = None, gm_LagAdvances = 0, gm_HostIndexerID = Some 7\<rparr>],
      dg_NetworkFill = False, dg_Generation = 1, dg_PastMembers = [], dg_Leaving = [], dg_GroupKey = [], dg_PlacementSalt = []\<rparr>"

definition demo_indexer :: SIIndexerEntry where
  "demo_indexer = \<lparr>si_IndexerID = 7, si_ActivationBlock = 1, si_Signer = ''0x'' @ replicate 40 (CHR ''a''),
     si_SNodeNodeID = ''s'', si_EnrollmentJWS = ''j''\<rparr>"

definition demo_snapshot :: TableRegistrySnapshot where
  "demo_snapshot =
     \<lparr>rs_Params = zeroParams, rs_Version = 3, rs_Seeded = True, rs_Cursor = zeroCursor,
      rs_Incarnations = [demo_incarnation 1 TableStatusPurged, demo_incarnation 2 TableStatusActive],
      rs_ClientLanes = None, rs_SIIndexers = [demo_indexer], rs_SeededIndexers = [7], rs_QuarantinedIndexers = [],
      rs_Groups = [demo_group], rs_MemberCheckpointSeqs = [], rs_Stage3 = None\<rparr>"

lemma demo_snapshot_wf: "wf_snapshot demo_snapshot"
proof -
  have "is_ok (SIIndexerEntry_Validate demo_indexer)"
    by (simp add: SIIndexerEntry_Validate_def demo_indexer_def signerAddressPattern_def zeroAddress_def validNodeID_def
        blank_def runes.simps IsSpace_def IsControl_def in_range_def lowerHexDigit_def list_all_iff)
  then show ?thesis
    by (simp add: wf_snapshot_def demo_snapshot_def demo_incarnation_def wf_incarnation_def wf_group_def demo_group_def
        ascendingUnique_def demo_indexer_def)
qed



theorem decoded_snapshot_wf_witness:
  "TableRegistrySnapshotFromPB (Some (TableRegistrySnapshotToPB demo_snapshot)) = Inr demo_snapshot \<and>
   wf_snapshot demo_snapshot"
proof -
  have run: "TableRegistrySnapshotFromPB (Some (TableRegistrySnapshotToPB demo_snapshot)) = Inr demo_snapshot"
    by (rule snapshot_decodes [OF demo_snapshot_wf])
  from decoded_snapshot_wf [OF this] run show ?thesis by blast
qed

abbreviation gone :: "TableIncarnation \<Rightarrow> bool" where
  "gone inc \<equiv> ti_Status inc = TableStatusPurged \<or> ti_Status inc = TableStatusRefused"

lemma liveLoop_eq:
  "liveLoop k newest incs =
     (case find (\<lambda>inc. Key inc = k \<and> \<not> gone inc) incs of
        Some inc \<Rightarrow> Some inc
      | None \<Rightarrow> if newest = None then find (\<lambda>inc. Key inc = k) incs else newest)"
  by (induction incs arbitrary: newest) (auto simp: Let_def split: option.split)

lemma find_rev_last:
  fixes f :: "'a \<Rightarrow> 'b :: linorder"
  assumes "sorted (map f xs)" "find P (rev xs) = Some x"
  shows "x \<in> set xs \<and> P x \<and> (\<forall>y \<in> set xs. P y \<longrightarrow> f y \<le> f x)"
  using assms
proof (induction xs rule: rev_induct)
  case (snoc z xs)
  show ?case
  proof (cases "P z")
    case True
    with snoc.prems have "x = z" by simp
    with True snoc.prems show ?thesis by (auto simp: sorted_append)
  next
    case False
    with snoc show ?thesis by (auto simp: sorted_append)
  qed
qed simp

lemma wf_snapshot_seqs_sorted:
  assumes "wf_snapshot s" "length (rs_Incarnations s) < 2 ^ 64 - 1"
  shows "sorted (map ti_Seq (rs_Incarnations s))"
proof -
  let ?n = "length (rs_Incarnations s)"
  have seqs: "map ti_Seq (rs_Incarnations s) = map (\<lambda>i. of_nat i + 1) [0..<?n]"
    using assms(1) by (simp add: wf_snapshot_def Let_def)
  have "(of_nat i + 1 :: u64) \<le> of_nat j + 1" if "i \<le> j" "j < ?n" for i j
  proof -
    have "of_nat (Suc i) \<le> (of_nat (Suc j) :: u64)"
    proof -
      have "Suc i mod 2 ^ 64 = Suc i" "Suc j mod 2 ^ 64 = Suc j"
        using that assms(2) by (intro mod_less; linarith)+
      with that(1) show ?thesis unfolding word_le_nat_alt unat_of_nat by simp
    qed
    then show ?thesis by (simp add: ac_simps)
  qed
  then show ?thesis unfolding seqs by (auto simp: sorted_iff_nth_mono)
qed

text \<open>
  C35. \<open>Live\<close> resolves a table to one incarnation. It answers exactly the keys the registry holds, with
  the newest incarnation of the key that is neither purged nor refused, and with the newest of all when
  every one is purged or refused.
\<close>

theorem Live_newest:
  assumes "wf_snapshot s" "length (rs_Incarnations s) < 2 ^ 64 - 1"
  shows "(Live s k = None \<longleftrightarrow> k \<notin> Key ` set (rs_Incarnations s)) \<and>
    (\<forall>inc. Live s k = Some inc \<longrightarrow>
      inc \<in> set (rs_Incarnations s) \<and> Key inc = k \<and>
      (\<forall>other \<in> set (rs_Incarnations s). Key other = k \<and> (gone inc \<or> \<not> gone other) \<longrightarrow>
        ti_Seq other \<le> ti_Seq inc \<and> (gone inc \<longrightarrow> gone other)))"
proof -
  note seqs = wf_snapshot_seqs_sorted [OF assms]
  let ?incs = "rs_Incarnations s" and ?live = "\<lambda>inc. Key inc = k \<and> \<not> gone inc"
  have eq: "Live s k = (case find ?live (rev ?incs) of Some inc \<Rightarrow> Some inc | None \<Rightarrow> find (\<lambda>inc. Key inc = k) (rev ?incs))"
    by (simp add: Live_def liveLoop_eq)
  show ?thesis
  proof (cases "find ?live (rev ?incs)")
    case None
    then have "\<forall>inc \<in> set ?incs. Key inc = k \<longrightarrow> gone inc" by (auto simp: find_None_iff)
    moreover have "Live s k = find (\<lambda>inc. Key inc = k) (rev ?incs)" unfolding eq None by simp
    moreover have "find (\<lambda>inc. Key inc = k) (rev ?incs) = None \<longleftrightarrow> k \<notin> Key ` set ?incs"
      by (auto simp: find_None_iff)
    ultimately show ?thesis using find_rev_last [OF seqs, of "\<lambda>inc. Key inc = k"] by simp
  next
    case (Some inc)
    note last = find_rev_last [OF seqs Some]
    have "Live s k = Some inc" unfolding eq Some by simp
    moreover have "k \<in> Key ` set ?incs" using last by blast
    ultimately show ?thesis using last by simp
  qed
qed

theorem Live_newest_witness:
  "Live demo_snapshot ''db.t'' = Some (demo_incarnation 2 TableStatusActive) \<and> Live demo_snapshot ''db.u'' = None"
proof -
  have "length (rs_Incarnations demo_snapshot) < 2 ^ 64 - 1" by (simp add: demo_snapshot_def)
  note live = Live_newest [OF demo_snapshot_wf this]
  have "''db.u'' \<notin> Key ` set (rs_Incarnations demo_snapshot)"
    by (simp add: demo_snapshot_def demo_incarnation_def Key_def TableKey_def)
  moreover have "Live demo_snapshot ''db.t'' = Some (demo_incarnation 2 TableStatusActive)"
    by (simp add: Live_def demo_snapshot_def demo_incarnation_def Key_def TableKey_def)
  ultimately show ?thesis using live [of "''db.u''"] by blast
qed

end
