(* ===== verification/Dataplane.thy ===== *)
theory Dataplane
  imports Registry
begin

text \<open>
  The data-plane client: leader discovery with retries (\<open>dataplane/client.go\<close>) and the registry follower
  (\<open>dataplane/registry_follower.go\<close>). The gRPC transport is a parameter: what dialling a peer and calling
  it answer, whether the context has ended, and what a wait does to the outside.
\<close>

section \<open>Statuses\<close>

datatype code =
    OK | Canceled | Unknown | InvalidArgument | DeadlineExceeded | NotFound | AlreadyExists | PermissionDenied
  | ResourceExhausted | FailedPrecondition | Aborted | OutOfRange | Unimplemented | Internal | Unavailable
  | DataLoss | Unauthenticated

datatype detail = NotLeader string | OtherDetail

text \<open>An error that carries a gRPC status, or another one.\<close>

datatype rpc_error = StatusError code string "detail list" | PlainError

definition status_code :: "rpc_error \<Rightarrow> code" where
  "status_code e = (case e of StatusError c _ _ \<Rightarrow> c | PlainError \<Rightarrow> Unknown)"

fun firstNotLeader :: "detail list \<Rightarrow> string option" where
  "firstNotLeader [] = None"
| "firstNotLeader (NotLeader addr # ds) = Some addr"
| "firstNotLeader (OtherDetail # ds) = firstNotLeader ds"

definition notLeaderHint :: "rpc_error \<Rightarrow> string option" where
  "notLeaderHint e =
     (case e of
        PlainError \<Rightarrow> None
      | StatusError c _ ds \<Rightarrow>
          (if c \<noteq> FailedPrecondition then None
           else Some (case firstNotLeader ds of Some addr \<Rightarrow> addr | None \<Rightarrow> [])))"

definition retryableStatus :: "code \<Rightarrow> bool" where
  "retryableStatus c \<longleftrightarrow> c = Unavailable \<or> c = DeadlineExceeded \<or> c = Canceled \<or> c = Unknown"

text \<open>The precondition a leader answered itself, and the disabled registry among them.\<close>

definition leaderPrecondition :: "rpc_error \<Rightarrow> string option" where
  "leaderPrecondition e =
     (case e of
        PlainError \<Rightarrow> None
      | StatusError c msg ds \<Rightarrow>
          (if c \<noteq> FailedPrecondition \<or> firstNotLeader ds \<noteq> None then None else Some msg))"

definition registryDisabled :: "rpc_error \<Rightarrow> bool" where
  "registryDisabled e \<longleftrightarrow> leaderPrecondition e = Some ''table registry is disabled''"

section \<open>The client\<close>

record client =
  c_order :: "string list"
  c_lastLeader :: string

record config =
  cf_RetryBackoffMin :: nat
  cf_RetryBackoffMax :: nat

datatype client_error = ErrNoPeer | ErrPeerIncomplete | ErrDuplicatePeer string

fun peersLoop :: "string list \<Rightarrow> (string \<times> string) list \<Rightarrow> (client_error, string list) result" where
  "peersLoop seen [] = Inr seen"
| "peersLoop seen ((pid, addr) # ps) =
     (if pid = [] \<or> addr = [] then Inl ErrPeerIncomplete
      else if pid \<in> set seen then Inl (ErrDuplicatePeer pid)
      else peersLoop (seen @ [pid]) ps)"

definition New_client :: "(string \<times> string) list \<Rightarrow> (client_error, client) result" where
  "New_client peers =
     (if peers = [] then Inl ErrNoPeer
      else rbind (peersLoop [] peers) (\<lambda>order. Inr \<lparr>c_order = order, c_lastLeader = []\<rparr>))"

definition hasPeer :: "client \<Rightarrow> string \<Rightarrow> bool" where
  "hasPeer c pid \<longleftrightarrow> pid \<in> set (c_order c)"

definition setLeader :: "string \<Rightarrow> client \<Rightarrow> client" where
  "setLeader pid c = (if hasPeer c pid then c\<lparr>c_lastLeader := pid\<rparr> else c)"

definition candidateOrder :: "client \<Rightarrow> string \<Rightarrow> string list" where
  "candidateOrder c preferred0 =
     (let preferred = (if preferred0 = [] then c_lastLeader c else preferred0) in
      (if preferred \<noteq> [] \<and> hasPeer c preferred then [preferred] else []) @
      filter (\<lambda>pid. pid \<noteq> preferred) (c_order c))"

record 's transport =
  t_dial :: "string \<Rightarrow> 's \<Rightarrow> bool \<times> 's"
  t_call :: "string \<Rightarrow> 's \<Rightarrow> (rpc_error, unit) result \<times> 's"
  t_ended :: "'s \<Rightarrow> bool"
  t_wait :: "nat \<Rightarrow> 's \<Rightarrow> 's"

datatype retry_error = ContextEnded | CallError rpc_error

text \<open>How one round over the candidates ends.\<close>

datatype round = RoundReturn "(retry_error, unit) result" | RoundHint string | RoundOver

fun callRound :: "'s transport \<Rightarrow> string list \<Rightarrow> client \<Rightarrow> 's \<Rightarrow> round \<times> client \<times> 's" where
  "callRound T [] c s = (RoundOver, c, s)"
| "callRound T (pid # ids) c s =
     (if t_ended T s then (RoundReturn (Inl ContextEnded), c, s)
      else case t_dial T pid s of
        (False, s1) \<Rightarrow> callRound T ids c s1
      | (True, s1) \<Rightarrow>
          (case t_call T pid s1 of
             (Inr _, s2) \<Rightarrow> (RoundReturn (Inr ()), setLeader pid c, s2)
           | (Inl e, s2) \<Rightarrow>
               (case notLeaderHint e of
                  Some hint \<Rightarrow>
                    (if hint \<noteq> [] \<and> hint \<noteq> pid \<and> hasPeer c hint then (RoundHint hint, c, s2)
                     else callRound T ids c s2)
                | None \<Rightarrow>
                    (if \<not> retryableStatus (status_code e) then (RoundReturn (Inl (CallError e)), c, s2)
                     else callRound T ids c s2))))"

text \<open>The outer loop, with a bound on the rounds: \<open>None\<close> when they are used up.\<close>

fun WithLeaderRetry :: "'s transport \<Rightarrow> config \<Rightarrow> nat \<Rightarrow> nat \<Rightarrow> string \<Rightarrow> client \<Rightarrow> 's \<Rightarrow>
    ((retry_error, unit) result \<times> client \<times> 's) option" where
  "WithLeaderRetry T cfg 0 backoff preferred c s = None"
| "WithLeaderRetry T cfg (Suc n) backoff preferred c s =
     (case callRound T (candidateOrder c preferred) c s of
        (RoundReturn r, c', s') \<Rightarrow> Some (r, c', s')
      | (RoundHint hint, c', s') \<Rightarrow> WithLeaderRetry T cfg n (cf_RetryBackoffMin cfg) hint c' s'
      | (RoundOver, c', s') \<Rightarrow>
          (let s1 = t_wait T backoff s' in
           if t_ended T s1 then Some (Inl ContextEnded, c', s1)
           else WithLeaderRetry T cfg n (min (2 * backoff) (cf_RetryBackoffMax cfg)) preferred c' s1))"

section \<open>The registry follower\<close>

text \<open>\<open>rf_changed\<close> counts the channels \<open>Changed\<close> handed out that were closed.\<close>

record RegistryFollower =
  rf_snap :: TableRegistrySnapshot
  rf_enabled :: bool
  rf_changed :: nat
  rf_ready :: bool

definition zeroSnapshot :: TableRegistrySnapshot where
  "zeroSnapshot =
     \<lparr>rs_Params = zeroParams, rs_Version = 0, rs_Seeded = False, rs_Cursor = zeroCursor, rs_Incarnations = [],
      rs_ClientLanes = None, rs_SIIndexers = [], rs_SeededIndexers = [], rs_QuarantinedIndexers = [], rs_Groups = [],
      rs_MemberCheckpointSeqs = [], rs_Stage3 = None\<rparr>"

definition NewRegistryFollower :: RegistryFollower where
  "NewRegistryFollower = \<lparr>rf_snap = zeroSnapshot, rf_enabled = False, rf_changed = 0, rf_ready = False\<rparr>"

definition View :: "RegistryFollower \<Rightarrow> TableRegistrySnapshot \<times> bool" where
  "View f = (rf_snap f, rf_enabled f)"

definition deliver :: "pbTableRegistrySnapshot option \<Rightarrow> RegistryFollower \<Rightarrow> RegistryFollower" where
  "deliver m f =
     (case TableRegistrySnapshotFromPB m of
        Inl _ \<Rightarrow> f
      | Inr snap \<Rightarrow>
          (if rf_enabled f \<and> rs_Version snap \<le> rs_Version (rf_snap f) then f
           else f\<lparr>rf_snap := snap, rf_enabled := True, rf_changed := rf_changed f + 1\<rparr>))"

text \<open>
  The callback of the startup \<open>GetTableRegistry\<close>: an undecodable answer and every error but a disabled or
  missing registry is an error, which \<open>WithLeaderRetry\<close> sees.
\<close>

definition initialAnswer ::
    "(rpc_error, pbTableRegistrySnapshot option) result \<Rightarrow> (rpc_error, pbTableRegistrySnapshot option) result" where
  "initialAnswer ans =
     (case ans of
        Inr m \<Rightarrow> (case TableRegistrySnapshotFromPB m of Inl _ \<Rightarrow> Inl PlainError | Inr _ \<Rightarrow> Inr m)
      | Inl e \<Rightarrow> if registryDisabled e then Inr None
                 else if status_code e = Unimplemented then Inr None else Inl e)"

definition initial :: "pbTableRegistrySnapshot option \<Rightarrow> RegistryFollower \<Rightarrow> RegistryFollower" where
  "initial got f = (case got of None \<Rightarrow> f | Some _ \<Rightarrow> deliver got f)\<lparr>rf_ready := True\<rparr>"

section \<open>Properties\<close>

lemma callRound_leader:
  assumes "leader \<in> set ids"
    and ended: "\<And>s. \<not> t_ended T s" and dial: "\<And>s. fst (t_dial T leader s)"
    and ok: "\<And>s. fst (t_call T leader s) = Inr ()"
    and other: "\<And>pid s. pid \<noteq> leader \<Longrightarrow> (case fst (t_call T pid s) of
        Inr _ \<Rightarrow> False
      | Inl e \<Rightarrow> (case notLeaderHint e of
           Some hint \<Rightarrow> hint = [] \<or> hint = pid \<or> \<not> hasPeer c hint \<or> hint = leader
         | None \<Rightarrow> retryableStatus (status_code e)))"
  shows "\<exists>s'. callRound T ids c s = (RoundReturn (Inr ()), setLeader leader c, s') \<or>
              callRound T ids c s = (RoundHint leader, c, s')"
  using assms(1)
proof (induction ids arbitrary: s)
  case (Cons pid ids)
  obtain b s1 where d: "t_dial T pid s = (b, s1)" by fastforce
  obtain r s2 where r: "t_call T pid s1 = (r, s2)" by fastforce
  show ?case
  proof (cases "pid = leader")
    case True
    with d dial [of s] ok [of s1] r ended [of s] show ?thesis by simp
  next
    case False
    with Cons have IH: "\<exists>s'. callRound T ids c s'' = (RoundReturn (Inr ()), setLeader leader c, s') \<or>
        callRound T ids c s'' = (RoundHint leader, c, s')" for s'' by simp
    from other [OF False, of s1] obtain e where "r = Inl e" by (cases r) (simp_all add: r)
    with other [OF False, of s1] ended [of s] d r IH show ?thesis
      by (cases b) (auto split: option.split)
  qed
qed simp


definition demo_transport :: "unit transport" where
  "demo_transport =
     \<lparr>t_dial = (\<lambda>pid s. (pid \<noteq> ''z'', s)),
      t_call = (\<lambda>pid s. (if pid = ''b'' then Inr () else Inl (StatusError FailedPrecondition [] [NotLeader ''b'']), s)),
      t_ended = (\<lambda>s. False), t_wait = (\<lambda>n s. s)\<rparr>"


lemma deliver_folds:
  "foldl (\<lambda>f m. deliver m f) f (ms @ [m]) = deliver m (foldl (\<lambda>f m. deliver m f) f ms)"
  by simp

text \<open>
  C31. The follower's view. Whatever messages arrive, in whatever order and however often, the view is
  enabled exactly when one of them decoded, it then holds a well-formed snapshot that one of them
  carries, and its version is the greatest of the versions that arrived.
\<close>

theorem follower_view_is_newest:
  "let f = foldl (\<lambda>f m. deliver m f) NewRegistryFollower ms;
       snaps = {snap. Inr snap \<in> set (map TableRegistrySnapshotFromPB ms)}
   in (rf_enabled f \<longleftrightarrow> snaps \<noteq> {}) \<and>
      (rf_enabled f \<longrightarrow> fst (View f) \<in> snaps \<and> wf_snapshot (fst (View f)) \<and>
         rs_Version (fst (View f)) = Max (rs_Version ` snaps)) \<and>
      (\<not> rf_enabled f \<longrightarrow> View f = (zeroSnapshot, False))"
proof -
  have fin: "finite {snap. Inr snap \<in> set (map TableRegistrySnapshotFromPB ns)}" for ns
    using finite_vimageI [of "set (map TableRegistrySnapshotFromPB ns)" Inr] by (simp add: vimage_def del: set_map)
  have "let f = foldl (\<lambda>f m. deliver m f) NewRegistryFollower ns;
            snaps = {snap. Inr snap \<in> set (map TableRegistrySnapshotFromPB ns)}
        in (rf_enabled f \<longleftrightarrow> snaps \<noteq> {}) \<and>
           (rf_enabled f \<longrightarrow> rf_snap f \<in> snaps \<and> rs_Version (rf_snap f) = Max (rs_Version ` snaps)) \<and>
           (\<not> rf_enabled f \<longrightarrow> rf_snap f = zeroSnapshot)" for ns
  proof (induction ns rule: rev_induct)
    case Nil
    show ?case by (simp add: NewRegistryFollower_def)
  next
    case (snoc m ns)
    let ?f = "foldl (\<lambda>f m. deliver m f) NewRegistryFollower ns"
    let ?snaps = "{snap. Inr snap \<in> set (map TableRegistrySnapshotFromPB ns)}"
    show ?case
    proof (cases "TableRegistrySnapshotFromPB m")
      case (Inl e)
      with snoc show ?thesis by (simp add: deliver_def)
    next
      case (Inr snap)
      have eq: "{x. Inr x \<in> set (map TableRegistrySnapshotFromPB (ns @ [m]))} = insert snap ?snaps"
        using Inr by auto
      show ?thesis
        unfolding eq deliver_folds using snoc Inr Max_insert [OF finite_imageI [OF fin [of ns], of rs_Version]]
        by (cases "?snaps = {}") (auto simp: deliver_def Let_def max_def)
    qed
  qed
  from this [of ms] show ?thesis
    unfolding Let_def View_def using FromPB_wf by (auto simp: image_iff) 
qed

theorem follower_view_is_newest_witness:
  "View (foldl (\<lambda>f m. deliver m f) NewRegistryFollower
      [Some (TableRegistrySnapshotToPB demo_snapshot), None]) = (demo_snapshot, True)"
proof -
  have run: "TableRegistrySnapshotFromPB (Some (TableRegistrySnapshotToPB demo_snapshot)) = Inr demo_snapshot"
    by (rule snapshot_decodes [OF demo_snapshot_wf])
  have none: "TableRegistrySnapshotFromPB None = Inl ErrSnapshotRequired" by (simp add: TableRegistrySnapshotFromPB_def)
  from follower_view_is_newest [of "[Some (TableRegistrySnapshotToPB demo_snapshot), None]"]
  show ?thesis by (simp add: Let_def View_def run none)
qed

end
