(* ===== verification/SNode_Role.thy ===== *)
theory SNode_Role
  imports SNode_Match SNode_Journal Owner_Audit Dataplane
begin

text \<open>
  The storage node as a whole: its configuration and dependencies (\<open>snode/config.go\<close>, the \<open>Role\<close> of
  \<open>snode/snode.go\<close>), the world its handlers act on, and the lookups every handler starts with
  (\<open>snode/registry.go\<close>, \<open>snode/claims.go\<close>, \<open>snode/promote_ch.go\<close>, \<open>snode/view.go\<close>).

  A handler threads a world: the journal store, the intake journal, the audit's state, the settle counters, and an outside
  state \<open>'o\<close> that answers ClickHouse, the disk, the arbiter, the clock and the registry follower. The
  trace records, in order, the statements sent to ClickHouse and the acknowledgements sent to the
  arbiter; no code reads it. The promotion lock makes the handlers of one partition run one after
  another, which is what a handler as one function says; two handlers of different partitions touch
  different entries of the store.
\<close>

section \<open>The role\<close>

datatype role_error =
    ErrAuthority | ErrNotOwned | ErrNoConnection
  | ErrCH ch_error | ErrPromote promote_error | ErrState state_error | ErrSchema schema_error | ErrLt lt_error
  | ErrPromoteTableMissing | ErrSend
  | ErrEmptyPartName string string
  | ErrShadowVanished "string list" | ErrShadowScanEmpty string | ErrShadowScanOmitted string
  | ErrShadowScanUnrequested | ErrShadowParts | ErrShadowClosure
  | ErrIntentMismatch u64 u64 | ErrUnresolvedRoot string
  | ErrSafePartitionUnclean OwnerAuditReason "string list"
  | ErrOwedAckNotCleared state_error
  | ErrSchemaUnknown string | ErrTableNotReady string | ErrSchemaHashMismatch string
  | ErrJournal journal_error | ErrEncodingNotSupported string | ErrPayloadMismatchPreWrite | ErrPayloadMismatchPostRecord
  | ErrNotPrepared string | ErrConvergenceForeignRows string | ErrBackpressure string | ErrDependencies | ErrPartitionIDs | ErrSpool
  | ErrNoNewParts | ErrScanWithoutPart string | ErrSourceRoot | ErrAbortDetails string | ErrAbortForeignPart string
  | ErrAbortParts | ErrSign | ErrIntakeLifecycle string | ErrRegisterRC string

text \<open>How a claim is refused: its signature fails here, or the arbiter answers \<open>InvalidArgument\<close> or anything else.\<close>

datatype claim_error = ClaimSign | ClaimInvalidArgument string | ClaimFailed string

record TableManifest =
  tm_TableID :: string
  tm_SchemaHash :: string
  tm_PartitionRoots :: "(string \<times> string) list"

record ('o, 'h) role =
  r_NodeID :: string
  r_SafeDatabase :: string
  r_UnsafeDatabase :: string
  r_PromoteDatabase :: string
  r_OwnerAudit :: string
  r_Tables :: "TableSchema list"
  r_signs :: bool
  r_IndexerID :: u64
  r_L :: "'h lthash_lib"
  r_S :: "string list \<Rightarrow> string option"
  r_decode :: "string \<Rightarrow> string \<Rightarrow> TableSchema option"
  r_hash :: "TableSchema \<Rightarrow> string"
  r_Conn :: "'o Conn"
  r_hasConn :: bool
  r_disk :: "'o \<Rightarrow> write_outcome \<times> 'o"
  r_now :: "'o \<Rightarrow> int \<times> 'o"
  r_ended :: "'o \<Rightarrow> bool"
  r_registry :: "'o \<Rightarrow> TableRegistrySnapshot \<times> bool"
  r_tablesReady :: "string \<Rightarrow> 'o \<Rightarrow> bool"
  r_AuthorizePromotion :: "PromoteSafePartition \<Rightarrow> string \<Rightarrow> bool"
  r_AuthorizeCleanup :: "UnsafeCleanup \<Rightarrow> string \<Rightarrow> bool"
  r_GetPartitionStates :: "string \<Rightarrow> string \<Rightarrow> ('o, unit, PartitionState list) io"
  r_AckPromotion :: "PromotionAck \<Rightarrow> ('o, unit, unit) io"
  r_AckCleanup :: "CleanupAck \<Rightarrow> ('o, unit, unit) io"
  r_RegisterResultClaim :: "RCRecord \<Rightarrow> ('o, claim_error, unit) io"
  r_journalRead :: "'o \<Rightarrow> bool \<times> 'o"
  r_NativeFormat :: string
  r_DecodeRows :: "TableSchema \<Rightarrow> int \<Rightarrow> bytes \<Rightarrow> string list list option"
  r_RowID :: "string \<Rightarrow> string \<Rightarrow> u64 \<Rightarrow> string"
  r_PartitionIDForRow :: "TableSchema \<Rightarrow> string list \<Rightarrow> string option"
  r_Digest :: "bytes \<Rightarrow> string"
  r_hasPayloads :: bool
  r_PutPayload :: "string \<Rightarrow> bytes \<Rightarrow> ('o, unit, unit) io"
  r_DisableHardParts :: bool
  r_HardPartsPerPartition :: int
  r_SchemaRoot :: string
  r_SchemaRootFromHashes :: "(string \<times> string) list \<Rightarrow> string"
  r_AssembleStateRoot :: "string \<Rightarrow> TableManifest list \<Rightarrow> string option"

section \<open>The world\<close>

text \<open>A statement, with its rendering, and what else leaves the node.\<close>

datatype role_event =
    AttachPartition string string string
  | ReplacePartition string string string
  | DropPart string string
  | DropPartition string string string
  | LoadTable string
  | SendAck PromotionAck
  | SendCleanupAck CleanupAck
  | PutPayload string
  | InsertRows string "Row list"
  | SendClaim RCRecord

definition render :: "role_event \<Rightarrow> string" where
  "render e =
     (case e of
        AttachPartition target prt source \<Rightarrow> ''ALTER TABLE '' @ target @ '' ATTACH PARTITION '' @ prt @ '' FROM '' @ source
      | ReplacePartition target prt source \<Rightarrow> ''ALTER TABLE '' @ target @ '' REPLACE PARTITION '' @ prt @ '' FROM '' @ source
      | DropPart target name \<Rightarrow> ''ALTER TABLE '' @ target @ '' DROP PART '' @ [QUOTE] @ EscapeSQLString name @ [QUOTE]
      | LoadTable target \<Rightarrow> ''SELECT 1 FROM '' @ target @ '' LIMIT 0''
      | _ \<Rightarrow> [])"

datatype SettleOutcome = SettleJournaled | SettleReconciled | SettleNotApplied | SettleUnanswerable

record settleCounters =
  sc_answers :: "SettleOutcome \<Rightarrow> u64"
  sc_last :: int

record 'o world =
  w_store :: stateStore
  w_intake :: intakeJournal
  w_audit :: ownerAuditState
  w_settle :: settleCounters
  w_out :: 'o
  w_trace :: "role_event list"

type_synonym ('o, 'a) act = "('o world, role_error, 'a) io"

definition logged :: "role_event \<Rightarrow> ('o, unit) act" where
  "logged e w = (Inr (), w\<lparr>w_trace := w_trace w @ [e]\<rparr>)"

definition on_out :: "('e \<Rightarrow> role_error) \<Rightarrow> ('o, 'e, 'a) io \<Rightarrow> ('o, 'a) act" where
  "on_out err m w = (case m (w_out w) of (r, s) \<Rightarrow> (rmap_error err r, w\<lparr>w_out := s\<rparr>))"

definition on_store :: "('o, 'h) role \<Rightarrow> 'a state_run \<Rightarrow> ('o, 'a) act" where
  "on_store r run w =
     (case r_disk r (w_out w) of (wo, s) \<Rightarrow>
       (case run wo (w_store w) of (res, st) \<Rightarrow> (rmap_error ErrState res, w\<lparr>w_out := s, w_store := st\<rparr>)))"

text \<open>A read or a write of the intake journal, with the outcome of its file operations.\<close>

definition journal_load :: "('o, 'h) role \<Rightarrow> string \<Rightarrow> ('o, intakeRecord option) act" where
  "journal_load r flatID w =
     (case r_journalRead r (w_out w) of (ok, s) \<Rightarrow> (rmap_error ErrJournal (load ok flatID (w_intake w)), w\<lparr>w_out := s\<rparr>))"

definition journal_save :: "('o, 'h) role \<Rightarrow> intakeRecord \<Rightarrow> ('o, unit) act" where
  "journal_save r rcd w =
     (case r_journalRead r (w_out w) of (ok, s) \<Rightarrow>
       (case r_disk r s of (wo, s') \<Rightarrow>
         (case save ok wo rcd (w_intake w) of (res, j) \<Rightarrow> (rmap_error ErrJournal res, w\<lparr>w_out := s', w_intake := j\<rparr>))))"

definition journal_list :: "('o, 'h) role \<Rightarrow> ('o, intakeRecord list) act" where
  "journal_list r w =
     (case r_journalRead r (w_out w) of (ok, s) \<Rightarrow> (rmap_error ErrJournal (list_records ok (w_intake w)), w\<lparr>w_out := s\<rparr>))"

definition read_store :: "(stateStore \<Rightarrow> 'a) \<Rightarrow> ('o, 'a) act" where
  "read_store f w = (Inr (f (w_store w)), w)"

definition on_audit :: "(ownerAuditState \<Rightarrow> ownerAuditState) \<Rightarrow> ('o, unit) act" where
  "on_audit f w = (Inr (), w\<lparr>w_audit := f (w_audit w)\<rparr>)"

definition read_audit :: "(ownerAuditState \<Rightarrow> 'a) \<Rightarrow> ('o, 'a) act" where
  "read_audit f w = (Inr (f (w_audit w)), w)"

definition read_out :: "('o \<Rightarrow> 'a) \<Rightarrow> ('o, 'a) act" where
  "read_out f w = (Inr (f (w_out w)), w)"

definition now :: "('o, 'h) role \<Rightarrow> ('o, int) act" where
  "now r w = (case r_now r (w_out w) of (t, s) \<Rightarrow> (Inr t, w\<lparr>w_out := s\<rparr>))"

fun io_each :: "('a \<Rightarrow> ('s, 'e, unit) io) \<Rightarrow> 'a list \<Rightarrow> ('s, 'e, unit) io" where
  "io_each f [] = io_return ()"
| "io_each f (x # xs) = io_bind (f x) (\<lambda>_. io_each f xs)"

section \<open>Statements\<close>

definition exec :: "('o, 'h) role \<Rightarrow> role_event \<Rightarrow> ('o, unit) act" where
  "exec r e = io_bind (logged e) (\<lambda>_. on_out ErrCH (conn_exec (r_Conn r) (render e)))"

definition activeParts :: "('o, 'h) role \<Rightarrow> string \<Rightarrow> string \<Rightarrow> ('o, Part list) act" where
  "activeParts r db table = on_out ErrCH (ActiveParts (r_Conn r) db table)"

definition scanParts :: "('o, 'h) role \<Rightarrow> string \<Rightarrow> TableSchema \<Rightarrow> string list \<Rightarrow> ('o, PartScanResult list) act" where
  "scanParts r table sch names = on_out ErrCH (conn_scan (r_Conn r) table sch names)"

definition dropPartitionIfPresent ::
    "('o, 'h) role \<Rightarrow> string \<Rightarrow> string \<Rightarrow> TableSchema \<Rightarrow> string \<Rightarrow> ('o, unit) act" where
  "dropPartitionIfPresent r db table sch partitionID =
     io_bind (logged (DropPartition db table partitionID)) (\<lambda>_.
     io_bind (on_out ErrCH (DropPartitionIfPresent (r_Conn r) db table sch partitionID)) (\<lambda>_. io_return ()))"

definition partitionContentScan ::
    "('o, 'h) role \<Rightarrow> string \<Rightarrow> string \<Rightarrow> TableSchema \<Rightarrow> string \<Rightarrow> ('o, string \<times> shadowPart list) act" where
  "partitionContentScan r db table sch partitionID =
     io_bind (on_out ErrCH (PartitionContentScan (r_S r) (r_Conn r) db table sch partitionID)) (\<lambda>(root, scans).
     io_return (root, map (\<lambda>s. \<lparr>sh_Name = sp_Name s, sh_RowLtHash = sp_RowLtHash s\<rparr>) scans))"

definition partitionContentRoot ::
    "('o, 'h) role \<Rightarrow> string \<Rightarrow> string \<Rightarrow> TableSchema \<Rightarrow> string \<Rightarrow> ('o, string) act" where
  "partitionContentRoot r db table sch partitionID =
     io_bind (partitionContentScan r db table sch partitionID) (\<lambda>(root, _). io_return root)"

section \<open>Tables\<close>

definition CHTableName :: "string \<Rightarrow> string" where
  "CHTableName tableID = ReplaceAll tableID (CHR ''.'') ''__''"

definition genesisSchema :: "('o, 'h) role \<Rightarrow> string \<Rightarrow> TableSchema option" where
  "genesisSchema r tableID = find (\<lambda>t. ts_TableID t = tableID) (r_Tables r)"

definition schemaFor :: "('o, 'h) role \<Rightarrow> string \<Rightarrow> ('o, TableSchema) act" where
  "schemaFor r tableID =
     io_bind (read_out (r_registry r)) (\<lambda>(snap, enabled).
     if \<not> enabled
     then (case genesisSchema r tableID of
             Some t \<Rightarrow> io_return t | None \<Rightarrow> io_fail (ErrSchema (ErrNoSchemaConfigured tableID)))
     else io_lift (rmap_error ErrSchema (RegistrySchema (r_decode r) (r_hash r) (r_Tables r) snap tableID)))"

definition owns :: "('o, 'h) role \<Rightarrow> TableRegistrySnapshot \<Rightarrow> TableIncarnation \<Rightarrow> bool" where
  "owns r snap inc \<longleftrightarrow> \<not> r_signs r \<or> Owner snap inc = r_IndexerID r"

definition requireOwned :: "('o, 'h) role \<Rightarrow> string \<Rightarrow> ('o, unit) act" where
  "requireOwned r tableID =
     io_bind (read_out (r_registry r)) (\<lambda>(snap, enabled).
     if \<not> enabled then io_return ()
     else case Live snap tableID of
            None \<Rightarrow> io_return ()
          | Some live \<Rightarrow> if owns r snap live then io_return () else io_fail ErrNotOwned)"

definition requireAdmissible :: "('o, 'h) role \<Rightarrow> string \<Rightarrow> string \<Rightarrow> ('o, unit) act" where
  "requireAdmissible r tableID schemaHash =
     io_bind (read_out (\<lambda>s. (r_registry r s, r_tablesReady r tableID s))) (\<lambda>((snap, enabled), ready).
     if \<not> enabled then io_return ()
     else case Live snap tableID of
            None \<Rightarrow> io_fail (ErrSchemaUnknown tableID)
          | Some live \<Rightarrow>
              (if \<not> owns r snap live then io_fail ErrNotOwned
               else if ti_Status live = TableStatusPending then io_fail (ErrTableNotReady tableID)
               else if ti_Status live \<noteq> TableStatusActive then io_fail (ErrSchemaUnknown tableID)
               else if ti_SchemaHash live \<noteq> schemaHash then io_fail (ErrSchemaHashMismatch tableID)
               else if \<not> ready then io_fail (ErrTableNotReady tableID)
               else io_return ()))"

definition ownerFilter :: "('o, 'h) role \<Rightarrow> u64 option" where
  "ownerFilter r = (if \<not> r_signs r then None else Some (r_IndexerID r))"

definition nodeFeatures :: "('o, 'h) role \<Rightarrow> string list" where
  "nodeFeatures r =
     (if r_signs r then LocalNodeFeatures else filter (\<lambda>f. f \<noteq> ''signed_claims_v1'') LocalNodeFeatures)"

text \<open>The schema root and the schema hash of every table the state root covers.\<close>

definition stateRootTables :: "('o, 'h) role \<Rightarrow> ('o, string \<times> (string, string) fmap) act" where
  "stateRootTables r =
     io_bind (read_out (r_registry r)) (\<lambda>(snap, enabled).
     if \<not> enabled
     then io_return (r_SchemaRoot r, foldl (\<lambda>m sch. fmupd (ts_TableID sch) (r_hash r sch) m) fmempty (r_Tables r))
     else
       (let hashes = foldl (\<lambda>m inc. if (ti_Status inc = TableStatusActive \<or> ti_Status inc = TableStatusRetiring) \<and> owns r snap inc
                                    then fmupd (Key inc) (ti_SchemaHash inc) m else m) fmempty (rs_Incarnations snap)
        in io_return (r_SchemaRootFromHashes r (map (\<lambda>t. (t, fmget [] hashes t)) (fmkeys hashes)), hashes)))"

text \<open>\<open>sortedTableIDs\<close> is \<open>fmkeys\<close>.\<close>

definition ownerAuditTables :: "('o, 'h) role \<Rightarrow> ('o, string list) act" where
  "ownerAuditTables r = io_bind (stateRootTables r) (\<lambda>(_, hashes). io_return (fmkeys hashes))"

section \<open>Acknowledgements\<close>

definition sendAck :: "('o, 'h) role \<Rightarrow> PromotionAck \<Rightarrow> ('o, unit) act" where
  "sendAck r ack = io_bind (logged (SendAck ack)) (\<lambda>_. on_out (\<lambda>_. ErrSend) (r_AckPromotion r ack))"

definition sendCleanupAck :: "('o, 'h) role \<Rightarrow> CleanupAck \<Rightarrow> ('o, unit) act" where
  "sendCleanupAck r ack = io_bind (logged (SendCleanupAck ack)) (\<lambda>_. on_out (\<lambda>_. ErrSend) (r_AckCleanup r ack))"

section \<open>What a step may do\<close>

text \<open>
  A relation between the world before and after a step. Where it is a preorder, a handler is within it
  when its steps are.
\<close>

definition io_within :: "('s \<Rightarrow> 's \<Rightarrow> bool) \<Rightarrow> ('s, 'e, 'a) io \<Rightarrow> bool" where
  "io_within R m \<longleftrightarrow> (\<forall>s. R s (snd (m s)))"

lemma io_withinD: "io_within R m \<Longrightarrow> m s = (res, s') \<Longrightarrow> R s s'"
  unfolding io_within_def by (metis snd_conv)

locale effect =
  fixes R :: "'s \<Rightarrow> 's \<Rightarrow> bool"
  assumes refl: "R s s" and trans: "R s t \<Longrightarrow> R t u \<Longrightarrow> R s u"
begin

lemma pure [simp, intro]: "io_within R (io_return a)" "io_within R (io_fail e)" "io_within R (io_lift res)"
  "io_within R (Pair res')"
  by (simp_all add: io_within_def refl)

lemma bind [intro]:
  assumes "io_within R m" "\<And>a. io_within R (k a)"
  shows "io_within R (io_bind m k)"
  unfolding io_within_def
proof
  fix s
  obtain res s1 where m: "m s = (res, s1)" by fastforce
  show "R s (snd (io_bind m k s))"
    using io_withinD [OF assms(1) m] assms(2) trans
    by (cases res) (auto simp: io_bind_def m io_within_def)
qed

text \<open>A continuation that only runs on results its first part gave.\<close>

lemma bind_result:
  assumes "io_within R m" "\<And>s a s1. m s = (Inr a, s1) \<Longrightarrow> io_within R (k a)"
  shows "io_within R (io_bind m k)"
  unfolding io_within_def
proof
  fix s
  obtain res s1 where m: "m s = (res, s1)" by fastforce
  show "R s (snd (io_bind m k s))"
  proof (cases res)
    case (Inr a)
    with assms(2) [of s a s1] m have "R s1 (snd (k a s1))" by (simp add: io_within_def)
    with io_withinD [OF assms(1) m] Inr show ?thesis by (auto simp: io_bind_def m intro: trans)
  qed (use io_withinD [OF assms(1) m] in \<open>simp add: io_bind_def m\<close>)
qed

lemma attempt [intro]:
  assumes "io_within R m" "\<And>res. io_within R (k res)"
  shows "io_within R (io_try m k)"
  unfolding io_within_def
proof
  fix s
  obtain res s1 where m: "m s = (res, s1)" by fastforce
  show "R s (snd (io_try m k s))"
    using io_withinD [OF assms(1) m] assms(2) trans by (auto simp: io_try_def m io_within_def)
qed

lemma each [intro]: "(\<And>x. io_within R (f x)) \<Longrightarrow> io_within R (io_each f xs)"
  by (induction xs) auto

end

text \<open>The events a step adds, and whether it keeps the two journals.\<close>

definition emits :: "(role_event \<Rightarrow> bool) \<Rightarrow> 'o world \<Rightarrow> 'o world \<Rightarrow> bool" where
  "emits P w w' \<longleftrightarrow> (\<exists>es. w_trace w' = w_trace w @ es \<and> list_all P es)"

definition quiet :: "(role_event \<Rightarrow> bool) \<Rightarrow> 'o world \<Rightarrow> 'o world \<Rightarrow> bool" where
  "quiet P w w' \<longleftrightarrow> emits P w w' \<and> w_store w' = w_store w \<and> w_intake w' = w_intake w"

lemma emits_refl: "emits P w w"
  by (simp add: emits_def)

lemma emits_trans: "emits P u v \<Longrightarrow> emits P v w \<Longrightarrow> emits P u w"
  unfolding emits_def by (metis append_assoc list_all_append)

interpretation emits: effect "emits P" for P
  by unfold_locales (auto intro: emits_refl emits_trans)

interpretation quiet: effect "quiet P" for P
  by unfold_locales (auto simp: quiet_def intro: emits_refl emits_trans)

lemma quiet_mono: "io_within (quiet P) m \<Longrightarrow> (\<And>e. P e \<Longrightarrow> Q e) \<Longrightarrow> io_within (quiet Q) m"
  unfolding io_within_def quiet_def emits_def by (metis list.pred_mono_strong)

lemma quiet_emits: "io_within (quiet P) m \<Longrightarrow> io_within (emits P) m"
  by (auto simp: io_within_def quiet_def)

lemma quiet_steps [simp, intro]:
  "io_within (quiet P) (on_out err m)" "io_within (quiet P) (read_store f)" "io_within (quiet P) (on_audit g)"
  "io_within (quiet P) (read_audit h)" "io_within (quiet P) (read_out i)" "io_within (quiet P) (now r)"
  "io_within (quiet P) (journal_load r flatID)" "io_within (quiet P) (journal_list r)"
  by (auto simp: io_within_def quiet_def emits_def on_out_def read_store_def on_audit_def read_audit_def read_out_def
      now_def journal_load_def journal_list_def split: prod.splits)

lemma quiet_logged [intro]: "P e \<Longrightarrow> io_within (quiet P) (logged e)"
  by (auto simp: io_within_def quiet_def emits_def logged_def)

lemma emits_steps [simp, intro]:
  "io_within (emits P) (on_out err m)" "io_within (emits P) (read_store f)" "io_within (emits P) (on_audit g)"
  "io_within (emits P) (read_audit h)" "io_within (emits P) (read_out i)" "io_within (emits P) (now r)"
  by (simp_all add: quiet_emits)

lemma emits_store [simp, intro]: "io_within (emits P) (on_store r run)" "io_within (emits P) (journal_save r rcd)"
  by (auto simp: io_within_def emits_def on_store_def journal_save_def split: prod.splits)

lemma emits_logged [intro]: "P e \<Longrightarrow> io_within (emits P) (logged e)"
  by (rule quiet_emits) (rule quiet_logged)

text \<open>The reads of a role are quiet; a statement is within what its event allows.\<close>

lemma quiet_reads [simp, intro]:
  "io_within (quiet P) (activeParts r db table)" "io_within (quiet P) (scanParts r table' sch names)"
  "io_within (quiet P) (partitionContentScan r db table sch partitionID)"
  "io_within (quiet P) (partitionContentRoot r db table sch partitionID)"
  "io_within (quiet P) (schemaFor r tableID)" "io_within (quiet P) (requireOwned r tableID)"
  "io_within (quiet P) (stateRootTables r)" "io_within (quiet P) (ownerAuditTables r)"
  by (auto simp: ownerAuditTables_def Let_def activeParts_def scanParts_def partitionContentScan_def partitionContentRoot_def schemaFor_def
      requireOwned_def stateRootTables_def split: prod.splits option.splits intro!: quiet.bind)

lemma quiet_exec [intro]: "P e \<Longrightarrow> io_within (quiet P) (exec r e)"
  unfolding exec_def by (intro quiet.bind quiet_logged) auto

lemma quiet_drop [intro]:
  "P (DropPartition db table partitionID) \<Longrightarrow> io_within (quiet P) (dropPartitionIfPresent r db table sch partitionID)"
  unfolding dropPartitionIfPresent_def by (intro quiet.bind quiet_logged) auto

lemma quiet_send [intro]:
  "P (SendAck ack) \<Longrightarrow> io_within (quiet P) (sendAck r ack)"
  "P (SendCleanupAck cack) \<Longrightarrow> io_within (quiet P) (sendCleanupAck r cack)"
  unfolding sendAck_def sendCleanupAck_def by (intro quiet.bind quiet_logged; auto)+

end
