(* ===== verification/SNode_Audit.thy ===== *)
theory SNode_Audit
  imports SNode_Role
begin

text \<open>
  The owner audit as it runs (\<open>snode/owner_audit.go\<close>): before a promotion builds its shadow, over every
  table in a full pass, and again over the partitions with a finding. The decisions are those of
  \<open>Owner_Audit\<close>; this theory reads the inventories and ClickHouse, drops the twins of a plan in repair
  mode, and records the verdict.
\<close>

section \<open>One partition\<close>

definition ownerAuditMode :: "('o, 'h) role \<Rightarrow> string" where
  "ownerAuditMode r = (if r_OwnerAudit r = ''repair'' then ''repair'' else ''report'')"

abbreviation repairs :: "('o, 'h) role \<Rightarrow> bool" where
  "repairs r \<equiv> ownerAuditMode r = ''repair''"

definition OwnerAuditClean :: "('o, 'h) role \<Rightarrow> string \<Rightarrow> 'o world \<Rightarrow> bool" where
  "OwnerAuditClean r tableID w \<longleftrightarrow> (if \<not> repairs r then True else \<not> blocks tableID (w_audit w))"

definition TableReady :: "('o, 'h) role \<Rightarrow> string \<Rightarrow> 'o world \<Rightarrow> bool" where
  "TableReady r tableID w \<longleftrightarrow> r_tablesReady r tableID (w_out w) \<and> OwnerAuditClean r tableID w"

text \<open>The arbiter's states of a table by partition, or \<open>None\<close> when they could not be read.\<close>

definition ownerAuditFSM :: "('o, 'h) role \<Rightarrow> string \<Rightarrow> string \<Rightarrow> ('o, (string, PartitionState) fmap option) act" where
  "ownerAuditFSM r tableID partitionID =
     io_try (on_out (\<lambda>_. ErrSend) (r_GetPartitionStates r tableID partitionID)) (\<lambda>res.
     case res of
       Inl _ \<Rightarrow> io_bind (on_audit countFSMUnavailable) (\<lambda>_. io_return None)
     | Inr states \<Rightarrow> io_return (Some (foldl (\<lambda>m p. fmupd (fs_PartitionID p) p m) fmempty states)))"

definition loadSafeTable :: "('o, 'h) role \<Rightarrow> string \<Rightarrow> ('o, unit) act" where
  "loadSafeTable r table =
     io_try (exec r (LoadTable (r_SafeDatabase r @ ''.'' @ table))) (\<lambda>res.
     case res of
       Inr _ \<Rightarrow> io_return ()
     | Inl e \<Rightarrow> if e = ErrCH ErrUnknownTable \<or> e = ErrCH ErrUnknownDatabase then io_return () else io_fail e)"

definition safePartitionParts :: "('o, 'h) role \<Rightarrow> TableSchema \<Rightarrow> string \<Rightarrow> string \<Rightarrow> ('o, Part list) act" where
  "safePartitionParts r sch table partitionID =
     io_bind (activeParts r (r_SafeDatabase r) table) (\<lambda>parts.
     io_return (PartsInLogicalPartition parts sch partitionID))"

definition recordOwnerAudit ::
    "('o, 'h) role \<Rightarrow> string \<Rightarrow> partitionKey \<Rightarrow> ownerAuditPlan \<Rightarrow> ('o, OwnerAuditFinding option) act" where
  "recordOwnerAudit r trigger k plan =
     (case pl_Reason plan of
        None \<Rightarrow> io_bind (on_audit (clear_finding k)) (\<lambda>_. io_return None)
      | Some reason \<Rightarrow>
          io_bind (now r) (\<lambda>t.
          let f = \<lparr>af_TableID = pk_Table k, af_PartitionID = pk_Partition k, af_Reason = reason, af_Parts = pl_Parts plan,
                   af_Trigger = trigger, af_At = t\<rparr> in
          io_bind (on_audit (\<lambda>a. snd (set_finding f a))) (\<lambda>_. io_return (Some f))))"

definition dropResurrectedTwins ::
    "('o, 'h) role \<Rightarrow> TableSchema \<Rightarrow> string \<Rightarrow> partitionKey \<Rightarrow> ownerAuditReference \<Rightarrow> ownerAuditPlan \<Rightarrow>
     ('o, ownerAuditPlan) act" where
  "dropResurrectedTwins r sch table k ref plan =
     io_bind (io_each (\<lambda>name.
        io_bind (exec r (DropPart (r_SafeDatabase r @ ''.'' @ table) name)) (\<lambda>_. on_audit countDropped)) (pl_Drop plan)) (\<lambda>_.
     io_bind (safePartitionParts r sch table (pk_Partition k)) (\<lambda>active.
     io_return ((planOwnerAudit (Some ref) active)\<lparr>pl_Drop := []\<rparr>)))"

text \<open>The plan of a partition: the refusal of the reference, or the comparison with it.\<close>

definition planFor :: "reference_choice \<Rightarrow> Part list \<Rightarrow> ownerAuditPlan" where
  "planFor choice active =
     (case choice of
        Refused reason \<Rightarrow> \<lparr>pl_Reason = Some reason, pl_Parts = activePartNames active, pl_Drop = []\<rparr>
      | NoReference \<Rightarrow> planOwnerAudit None active
      | Reference ref \<Rightarrow> planOwnerAudit (Some ref) active)"

definition auditInputs ::
    "partitionKey \<Rightarrow> (string, PartitionState) fmap option \<Rightarrow> stateStore \<Rightarrow> ownerAuditInputs" where
  "auditInputs k fsm st =
     \<lparr>in_Watermark = Watermark k st, in_Local = AckedSafeInventory k st, in_FSMAvailable = (fsm \<noteq> None),
      in_FSM = (case fsm of None \<Rightarrow> None | Some states \<Rightarrow> fmlookup states (pk_Partition k))\<rparr>"

definition auditPartitionLocked ::
    "('o, 'h) role \<Rightarrow> string \<Rightarrow> TableSchema \<Rightarrow> string \<Rightarrow> partitionKey \<Rightarrow> (string, PartitionState) fmap option \<Rightarrow>
     ('o, OwnerAuditFinding option) act" where
  "auditPartitionLocked r trigger sch table k fsm =
     io_bind (read_store (auditInputs k fsm)) (\<lambda>inputs.
     let choice = ownerAuditReferenceFor inputs in
     io_bind (loadSafeTable r table) (\<lambda>_.
     io_bind (safePartitionParts r sch table (pk_Partition k)) (\<lambda>active.
     let plan = planFor choice active in
     case (if pl_Drop plan \<noteq> [] \<and> repairs r then choice else NoReference) of
       Reference ref \<Rightarrow>
         io_try (dropResurrectedTwins r sch table k ref plan) (\<lambda>res.
         case res of
           Inl e \<Rightarrow> io_bind (recordOwnerAudit r trigger k (plan\<lparr>pl_Drop := []\<rparr>)) (\<lambda>_. io_fail e)
         | Inr repaired \<Rightarrow> recordOwnerAudit r trigger k repaired)
     | _ \<Rightarrow> recordOwnerAudit r trigger k plan)))"

section \<open>Before a promotion\<close>

definition auditBeforeShadow ::
    "('o, 'h) role \<Rightarrow> PromoteSafePartition \<Rightarrow> TableSchema \<Rightarrow> string \<Rightarrow> ('o, unit) act" where
  "auditBeforeShadow r cmd sch table =
     (let k = \<lparr>pk_Table = ps_TableID cmd, pk_Partition = ps_PartitionID cmd\<rparr> in
      io_bind (ownerAuditFSM r (ps_TableID cmd) (ps_PartitionID cmd)) (\<lambda>fsm.
      io_try (auditPartitionLocked r ''promotion'' sch table k fsm) (\<lambda>res.
      io_bind (now r) (\<lambda>t.
      io_bind (on_audit (ran ''promotion'' t)) (\<lambda>_.
      case res of
        Inl e \<Rightarrow> if repairs r then io_fail e else io_return ()
      | Inr None \<Rightarrow> io_return ()
      | Inr (Some f) \<Rightarrow> if repairs r then io_fail (ErrSafePartitionUnclean (af_Reason f) (af_Parts f)) else io_return ())))))"

section \<open>Passes\<close>

definition auditPassPartition ::
    "('o, 'h) role \<Rightarrow> string \<Rightarrow> TableSchema \<Rightarrow> string \<Rightarrow> (string, PartitionState) fmap option \<Rightarrow> partitionKey \<Rightarrow>
     ('o, unit) act" where
  "auditPassPartition r trigger sch table fsm k =
     io_bind (read_store (PendingPromotion k)) (\<lambda>intent.
     if intent \<noteq> None
     then io_bind (recordOwnerAudit r trigger k
            \<lparr>pl_Reason = Some OwnerAuditUnresolvedIntent, pl_Parts = [], pl_Drop = []\<rparr>) (\<lambda>_. io_return ())
     else io_bind (auditPartitionLocked r trigger sch table k fsm) (\<lambda>_. io_return ()))"

text \<open>
  The arbiter read of a table, with the pass's memory of a failed one: the states, and whether the arbiter
  is down now.
\<close>

definition passFSM :: "('o, 'h) role \<Rightarrow> string \<Rightarrow> bool \<Rightarrow> ('o, (string, PartitionState) fmap option \<times> bool) act" where
  "passFSM r tableID fsmDown =
     (if fsmDown then io_bind (on_audit countFSMUnavailable) (\<lambda>_. io_return (None, True))
      else io_bind (ownerAuditFSM r tableID []) (\<lambda>fsm. io_return (fsm, fsm = None)))"

definition tablePartitions ::
    "TableSchema \<Rightarrow> Part list \<Rightarrow> string list \<Rightarrow> (string, PartitionState) fmap option \<Rightarrow> string list \<Rightarrow> string list" where
  "tablePartitions sch parts acked fsm found =
     sorted_list_of_set (set (map (LogicalPartitionID sch) parts) \<union> set acked \<union>
       (case fsm of None \<Rightarrow> {}
        | Some states \<Rightarrow> set (filter (\<lambda>i. case fmlookup states i of
              Some st \<Rightarrow> fs_PublishSeq st > 0 \<or> length (fs_SafeParts st) > 0 | None \<Rightarrow> False) (fmkeys states))) \<union>
       set found)"

text \<open>
  The audit of one table: its error, if any, and whether the arbiter is down now. An error leaves the
  table pending.
\<close>

definition withTable ::
    "('o, 'h) role \<Rightarrow> string \<Rightarrow> bool \<Rightarrow>
     (TableSchema \<Rightarrow> string \<Rightarrow> (string, PartitionState) fmap option \<Rightarrow> ('o, unit) act) \<Rightarrow>
     ('o, (role_error, unit) result \<times> bool) act" where
  "withTable r tableID fsmDown body =
     io_try (schemaFor r tableID) (\<lambda>res.
     case res of
       Inl e \<Rightarrow> io_return (Inl e, fsmDown)
     | Inr sch \<Rightarrow>
         (let table = CHTableName tableID in
          io_try (loadSafeTable r table) (\<lambda>res.
          case res of
            Inl e \<Rightarrow> io_return (Inl e, fsmDown)
          | Inr _ \<Rightarrow>
              io_bind (passFSM r tableID fsmDown) (\<lambda>(fsm, down).
              io_try (body sch table fsm) (\<lambda>res. io_return (res, down))))))"

definition auditTable ::
    "('o, 'h) role \<Rightarrow> string \<Rightarrow> string \<Rightarrow> bool \<Rightarrow> ('o, (role_error, unit) result \<times> bool) act" where
  "auditTable r trigger tableID fsmDown =
     withTable r tableID fsmDown (\<lambda>sch table fsm.
       io_bind (activeParts r (r_SafeDatabase r) table) (\<lambda>parts.
       io_bind (read_store (ackedInventoryPartitions tableID)) (\<lambda>acked.
       io_bind (read_audit (findingPartitions tableID)) (\<lambda>found.
       io_each (\<lambda>i. auditPassPartition r trigger sch table fsm \<lparr>pk_Table = tableID, pk_Partition = i\<rparr>)
         (tablePartitions sch parts acked fsm found)))))"

definition reauditTable :: "('o, 'h) role \<Rightarrow> string \<Rightarrow> bool \<Rightarrow> ('o, (role_error, unit) result \<times> bool) act" where
  "reauditTable r tableID fsmDown =
     withTable r tableID fsmDown (\<lambda>sch table fsm.
       io_bind (read_audit (findingPartitions tableID)) (\<lambda>found.
       io_each (\<lambda>i. let k = \<lparr>pk_Table = tableID, pk_Partition = i\<rparr> in
           io_bind (read_audit (finding k)) (\<lambda>f.
           case f of None \<Rightarrow> io_return () | Some f \<Rightarrow> auditPassPartition r (af_Trigger f) sch table fsm k)) found))"

text \<open>The loop of a pass; the answer says whether it went through all tables.\<close>

fun passLoop :: "('o, 'h) role \<Rightarrow> string \<Rightarrow> bool \<Rightarrow> string list \<Rightarrow> ('o, bool) act" where
  "passLoop r trigger fsmDown [] = io_return True"
| "passLoop r trigger fsmDown (t # ts) =
     io_bind (read_out (r_ended r)) (\<lambda>ended.
     if ended then io_return False
     else io_bind (auditTable r trigger t fsmDown) (\<lambda>(res, down).
          io_bind (if is_ok res then on_audit (tableDone t) else io_return ()) (\<lambda>_.
          passLoop r trigger down ts)))"

definition begin_audit :: "string list \<Rightarrow> ('o, string) act" where
  "begin_audit tables w = (case begin_pass tables (w_audit w) of (trigger, a) \<Rightarrow> (Inr trigger, w\<lparr>w_audit := a\<rparr>))"

definition runOwnerAuditPass :: "('o, 'h) role \<Rightarrow> ('o, unit) act" where
  "runOwnerAuditPass r =
     (if \<not> r_hasConn r then io_return ()
      else io_bind (ownerAuditTables r) (\<lambda>tables.
           io_bind (begin_audit tables) (\<lambda>trigger.
           io_bind (passLoop r trigger False tables) (\<lambda>completed.
           if \<not> completed then io_return ()
           else io_bind (now r) (\<lambda>t. on_audit (ran trigger t))))))"

fun reauditLoop :: "('o, 'h) role \<Rightarrow> string list \<Rightarrow> bool \<Rightarrow> string list \<Rightarrow> ('o, unit) act" where
  "reauditLoop r served fsmDown [] = io_return ()"
| "reauditLoop r served fsmDown (t # ts) =
     io_bind (read_out (r_ended r)) (\<lambda>ended.
     if ended then io_return ()
     else if t \<notin> set served then io_bind (on_audit (forgetTable t)) (\<lambda>_. reauditLoop r served fsmDown ts)
     else io_bind (reauditTable r t fsmDown) (\<lambda>(res, down). reauditLoop r served down ts))"

definition reauditFindings :: "('o, 'h) role \<Rightarrow> ('o, unit) act" where
  "reauditFindings r =
     io_bind (read_audit findingTables) (\<lambda>tables.
     if tables = [] then io_return ()
     else io_bind (ownerAuditTables r) (\<lambda>served. reauditLoop r served False tables))"

text \<open>One turn of the worker: a due pass, or in repair mode the partitions with a finding.\<close>

definition auditTurn :: "('o, 'h) role \<Rightarrow> ('o, unit) act" where
  "auditTurn r =
     io_bind (read_audit due) (\<lambda>isDue.
     if isDue then runOwnerAuditPass r
     else if repairs r then reauditFindings r else io_return ())"

section \<open>Properties\<close>

text \<open>A part that ClickHouse listed as active and that another active part of the reference stands for.\<close>

definition listed :: "('o, 'h) role \<Rightarrow> TableSchema \<Rightarrow> string \<Rightarrow> string \<Rightarrow> Part list \<Rightarrow> bool" where
  "listed r sch table partitionID active \<longleftrightarrow>
     (\<exists>s parts. fst (conn_parts (r_Conn r) (r_SafeDatabase r) table s) = Inr parts \<and>
        active = PartsInLogicalPartition parts sch partitionID)"

lemma safePartitionParts_listed:
  "safePartitionParts r sch table partitionID w = (Inr active, w') \<Longrightarrow> listed r sch table partitionID active"
  unfolding safePartitionParts_def activeParts_def ActiveParts_def listed_def io_bind_Inr
  by (auto simp: on_out_def split: prod.splits) (metis fst_conv)

text \<open>The listing that left ClickHouse in the state \<open>s'\<close>.\<close>

definition listedAt :: "('o, 'h) role \<Rightarrow> TableSchema \<Rightarrow> string \<Rightarrow> string \<Rightarrow> Part list \<Rightarrow> 'o \<Rightarrow> bool" where
  "listedAt r sch table partitionID active s' \<longleftrightarrow>
     (\<exists>s parts. conn_parts (r_Conn r) (r_SafeDatabase r) table s = (Inr parts, s') \<and>
        active = PartsInLogicalPartition parts sch partitionID)"

lemma safePartitionParts_listedAt:
  "safePartitionParts r sch table partitionID w = (Inr active, w') \<Longrightarrow> listedAt r sch table partitionID active (w_out w')"
  unfolding safePartitionParts_def activeParts_def ActiveParts_def listedAt_def io_bind_Inr
  by (auto simp: on_out_def split: prod.splits) metis

lemma quiet_safePartitionParts [intro]: "io_within (quiet P) (safePartitionParts r sch table partitionID)"
  unfolding safePartitionParts_def by (intro quiet.bind) auto

lemma quiet_loadSafeTable: "P (LoadTable (r_SafeDatabase r @ ''.'' @ table)) \<Longrightarrow> io_within (quiet P) (loadSafeTable r table)"
  unfolding loadSafeTable_def by (intro quiet.attempt quiet_exec) (auto split: sum.splits)

lemma quiet_record [intro]: "io_within (quiet P) (recordOwnerAudit r trigger k plan)"
  unfolding recordOwnerAudit_def Let_def by (auto split: option.splits)

lemma quiet_twins:
  assumes "\<And>name. name \<in> set (pl_Drop plan) \<Longrightarrow> P (DropPart (r_SafeDatabase r @ ''.'' @ table) name)"
  shows "io_within (quiet P) (dropResurrectedTwins r sch table k ref plan)"
proof -
  have "io_within (quiet P) (io_each (\<lambda>name.
        io_bind (exec r (DropPart (r_SafeDatabase r @ ''.'' @ table) name)) (\<lambda>_. on_audit countDropped)) names)"
    if "set names \<subseteq> set (pl_Drop plan)" for names
    using that by (induction names) (auto intro!: quiet.bind quiet_exec assms [simplified])
  from this [of "pl_Drop plan"] show ?thesis
    unfolding dropResurrectedTwins_def by (intro quiet.bind) auto
qed

lemma planFor_drop:
  "pl_Drop (planFor choice active) \<noteq> [] \<Longrightarrow> \<exists>ref. choice = Reference ref \<and> planFor choice active = planOwnerAudit (Some ref) active"
  by (cases choice) (auto simp: planFor_def planOwnerAudit_def cleanPlan_def split: if_splits)

definition twinEvent :: "('o, 'h) role \<Rightarrow> TableSchema \<Rightarrow> string \<Rightarrow> partitionKey \<Rightarrow> reference_choice \<Rightarrow> role_event \<Rightarrow> bool" where
  "twinEvent r sch table k choice e \<longleftrightarrow>
     e = LoadTable (r_SafeDatabase r @ ''.'' @ table) \<or>
     (\<exists>ref active p q. repairs r \<and> choice = Reference ref \<and> listed r sch table (pk_Partition k) active \<and>
        p \<in> set active \<and> q \<in> set active \<and> audited p \<notin> set (ref_Parts ref) \<and> audited q \<in> set (ref_Parts ref) \<and>
        pt_PhysHash q = pt_PhysHash p \<and> e = DropPart (r_SafeDatabase r @ ''.'' @ table) (pt_Name p))"

lemma auditPartitionLocked_quiet:
  assumes choice: "ownerAuditReferenceFor (auditInputs k fsm (w_store w)) = choice"
    and run: "auditPartitionLocked r trigger sch table k fsm w = (res, w')"
  shows "quiet (twinEvent r sch table k choice) w w'"
proof -
  let ?P = "twinEvent r sch table k choice"
  define body where "body = (\<lambda>active.
     let plan = planFor choice active in
     case (if pl_Drop plan \<noteq> [] \<and> repairs r then choice else NoReference) of
       Reference ref \<Rightarrow>
         io_try (dropResurrectedTwins r sch table k ref plan) (\<lambda>res.
         case res of
           Inl e \<Rightarrow> io_bind (recordOwnerAudit r trigger k (plan\<lparr>pl_Drop := []\<rparr>)) (\<lambda>_. io_fail e)
         | Inr repaired \<Rightarrow> recordOwnerAudit r trigger k repaired)
     | _ \<Rightarrow> recordOwnerAudit r trigger k plan)"
  have body: "io_within (quiet ?P) (body active)" if act: "listed r sch table (pk_Partition k) active" for active
  proof (cases "pl_Drop (planFor choice active) \<noteq> [] \<and> repairs r")
    case False
    then show ?thesis by (auto simp: body_def Let_def)
  next
    case True
    then obtain ref where ref: "choice = Reference ref" "planFor choice active = planOwnerAudit (Some ref) active"
      using planFor_drop [of choice active] by auto
    have "?P (DropPart (r_SafeDatabase r @ ''.'' @ table) name)" if "name \<in> set (pl_Drop (planFor choice active))" for name
    proof -
      from plan_drop(1) [of ref active] True that ref obtain p where "p \<in> set active" "twin (set (ref_Parts ref)) active p"
        "name = pt_Name p" by auto
      with act True ref show ?thesis unfolding twinEvent_def twin_def by blast
    qed
    then show ?thesis
      using True ref by (auto simp: body_def Let_def intro!: quiet.attempt quiet.bind quiet_record quiet_twins split: sum.splits)
  qed
  have "auditPartitionLocked r trigger sch table k fsm w =
      io_bind (loadSafeTable r table) (\<lambda>_. io_bind (safePartitionParts r sch table (pk_Partition k)) body) w"
    unfolding body_def choice [symmetric]
    by (simp add: auditPartitionLocked_def io_bind_def [of "read_store _"] read_store_def Let_def)
  moreover have "io_within (quiet ?P)
      (io_bind (loadSafeTable r table) (\<lambda>_. io_bind (safePartitionParts r sch table (pk_Partition k)) body))"
    by (intro quiet.bind quiet_loadSafeTable quiet.bind_result quiet_safePartitionParts body)
      (auto simp: twinEvent_def dest: safePartitionParts_listed)
  ultimately show ?thesis using run by (metis io_withinD)
qed

text \<open>
  C26. What the audit does to a partition. It leaves the journal alone, and the only statement that changes
  ClickHouse is, in repair mode only, a DROP PART of an active part of the audited safe partition that the
  chosen reference does not carry and whose content another active part, which the reference carries, has.
\<close>

theorem audit_effects:
  assumes "auditPartitionLocked r trigger sch table k fsm w = (res, w')"
  shows "w_store w' = w_store w \<and>
    (\<exists>es. w_trace w' = w_trace w @ es \<and>
      (\<forall>e \<in> set es. e = LoadTable (r_SafeDatabase r @ ''.'' @ table) \<or>
        (\<exists>ref active p q. repairs r \<and> listed r sch table (pk_Partition k) active \<and>
           ownerAuditReferenceFor (auditInputs k fsm (w_store w)) = Reference ref \<and>
           p \<in> set active \<and> q \<in> set active \<and> audited p \<notin> set (ref_Parts ref) \<and> audited q \<in> set (ref_Parts ref) \<and>
           pt_PhysHash q = pt_PhysHash p \<and> e = DropPart (r_SafeDatabase r @ ''.'' @ table) (pt_Name p))))"
proof -
  from auditPartitionLocked_quiet [OF HOL.refl assms] obtain es where es: "w_store w' = w_store w"
    "w_trace w' = w_trace w @ es"
    "\<forall>e \<in> set es. twinEvent r sch table k (ownerAuditReferenceFor (auditInputs k fsm (w_store w))) e"
    unfolding quiet_def emits_def list_all_iff by blast
  then show ?thesis unfolding twinEvent_def by (intro conjI exI [of _ es] ballI) (simp_all, blast)
qed

subsection \<open>The gate of repair mode\<close>

lemma recordOwnerAudit_None:
  "recordOwnerAudit r trigger k plan w = (Inr None, w') \<Longrightarrow> clean plan \<and> finding k (w_audit w') = None \<and> w_out w' = w_out w"
  by (auto simp: recordOwnerAudit_def io_bind_Inr on_audit_def clean_def finding_def clear_finding_def Let_def
      split: option.splits)

lemma dropResurrectedTwins_listed:
  "dropResurrectedTwins r sch table k ref plan w = (Inr repaired, w') \<Longrightarrow>
     \<exists>active. listedAt r sch table (pk_Partition k) active (w_out w') \<and> repaired = (planOwnerAudit (Some ref) active)\<lparr>pl_Drop := []\<rparr>"
  by (auto simp: dropResurrectedTwins_def io_bind_Inr dest: safePartitionParts_listedAt)

lemma auditPartitionLocked_clean:
  assumes "auditPartitionLocked r trigger sch table k fsm w = (Inr None, w')"
  shows "\<exists>active. listedAt r sch table (pk_Partition k) active (w_out w') \<and>
     clean (planFor (ownerAuditReferenceFor (auditInputs k fsm (w_store w))) active) \<and> finding k (w_audit w') = None"
proof -
  let ?choice = "ownerAuditReferenceFor (auditInputs k fsm (w_store w))"
  obtain active w1 where a: "listedAt r sch table (pk_Partition k) active (w_out w1)" and
    run: "(let plan = planFor ?choice active in
       case (if pl_Drop plan \<noteq> [] \<and> repairs r then ?choice else NoReference) of
         Reference ref \<Rightarrow>
           io_try (dropResurrectedTwins r sch table k ref plan) (\<lambda>res.
           case res of
             Inl e \<Rightarrow> io_bind (recordOwnerAudit r trigger k (plan\<lparr>pl_Drop := []\<rparr>)) (\<lambda>_. io_fail e)
           | Inr repaired \<Rightarrow> recordOwnerAudit r trigger k repaired)
       | _ \<Rightarrow> recordOwnerAudit r trigger k plan) w1 = (Inr None, w')"
    using assms unfolding auditPartitionLocked_def Let_def io_bind_Inr
    by (auto simp: read_store_def dest: safePartitionParts_listedAt)
  show ?thesis
  proof (cases "pl_Drop (planFor ?choice active) \<noteq> [] \<and> repairs r")
    case False
    with run have "recordOwnerAudit r trigger k (planFor ?choice active) w1 = (Inr None, w')" by (auto simp: Let_def)
    from recordOwnerAudit_None [OF this] a show ?thesis by auto
  next
    case True
    then obtain ref where ref: "?choice = Reference ref" using planFor_drop by blast
    obtain res w2 where d: "dropResurrectedTwins r sch table k ref (planFor ?choice active) w1 = (res, w2)" by fastforce
    have "\<exists>repaired. res = Inr repaired \<and> recordOwnerAudit r trigger k repaired w2 = (Inr None, w')"
      using run True d ref by (cases res) (auto simp: Let_def io_try_def io_bind_Inr)
    then obtain repaired where rep: "res = Inr repaired" "recordOwnerAudit r trigger k repaired w2 = (Inr None, w')" by blast
    from dropResurrectedTwins_listed [of r sch table k ref "planFor ?choice active" w1 repaired w2] d rep(1)
    obtain active' where "listedAt r sch table (pk_Partition k) active' (w_out w2)"
      "repaired = (planOwnerAudit (Some ref) active')\<lparr>pl_Drop := []\<rparr>" by auto
    with recordOwnerAudit_None [OF rep(2)] ref show ?thesis by (auto simp: clean_def planFor_def)
  qed
qed

lemma planFor_clean:
  "clean (planFor choice active) \<longleftrightarrow>
     (case choice of Refused _ \<Rightarrow> False | NoReference \<Rightarrow> active = [] | Reference ref \<Rightarrow> audited ` set active = set (ref_Parts ref))"
proof (cases choice)
  case (Reference ref)
  then show ?thesis by (simp add: planFor_def plan_clean_iff)
qed (auto simp: planFor_def clean_def planOwnerAudit_def cleanPlan_def)

lemma ownerAuditFSM_store: "io_within (quiet P) (ownerAuditFSM r tableID partitionID)"
  unfolding ownerAuditFSM_def by (intro quiet.attempt) (auto split: sum.splits)


section \<open>A concrete node\<close>

text \<open>
  A ClickHouse of one table, as lists of parts that the statements of this node move about, and a node on
  it, for evaluating the handlers. A part keeps its name when it is attached or replaced.
\<close>

record demo_out =
  dm_safe :: "Part list"
  dm_unsafe :: "Part list"
  dm_promote :: "Part list"

definition demo_hash :: "string \<Rightarrow> string" where
  "demo_hash name = (if name = ''a'' then ''0xab00'' else if name = ''b'' then ''0x2000'' else ''0x0000'')"

definition demo_exec :: "string \<Rightarrow> (demo_out, ch_error, unit) io" where
  "demo_exec q s =
     (Inr (),
      if q = render (AttachPartition ''promote.t'' ''tuple()'' ''safe.t'') then s\<lparr>dm_promote := dm_promote s @ dm_safe s\<rparr>
      else if q = render (AttachPartition ''promote.t'' ''tuple()'' ''unsafe.t'') then s\<lparr>dm_promote := dm_promote s @ dm_unsafe s\<rparr>
      else if q = render (ReplacePartition ''safe.t'' ''tuple()'' ''promote.t'') then s\<lparr>dm_safe := dm_promote s\<rparr>
      else if q = ''ALTER TABLE promote.t DROP PARTITION tuple()'' then s\<lparr>dm_promote := []\<rparr>
      else if q = render (DropPart ''safe.t'' ''a'') then s\<lparr>dm_safe := filter (\<lambda>p. pt_Name p \<noteq> ''a'') (dm_safe s)\<rparr>
      else s)"

definition demo_conn :: "demo_out Conn" where
  "demo_conn =
     \<lparr>conn_parts = (\<lambda>db table s. (Inr (if db = ''safe'' then dm_safe s else if db = ''unsafe'' then dm_unsafe s else dm_promote s), s)),
      conn_exec = demo_exec,
      conn_scan = (\<lambda>table sch names s. (Inr (map (\<lambda>n. \<lparr>sc_PartName = n, sc_RowLtHash = demo_hash n, sc_RowCount = 1\<rparr>) names), s)),
      conn_tables = (\<lambda>db table s. (Inr 1, s)), conn_rowids = (\<lambda>table name s. (Inr [''row:0''], s)),
      conn_insert = (\<lambda>table rows s. (Inr (), s\<lparr>dm_unsafe := dm_unsafe s @ [demo_part ''a'' ''h'']\<rparr>))\<rparr>"

definition demo_schema :: TableSchema where
  "demo_schema = \<lparr>ts_TableID = ''t'', ts_PartitionBy = []\<rparr>"

definition demo_role :: "(demo_out, 16 word) role" where
  "demo_role =
     \<lparr>r_NodeID = ''n'', r_SafeDatabase = ''safe'', r_UnsafeDatabase = ''unsafe'', r_PromoteDatabase = ''promote'',
      r_OwnerAudit = ''repair'', r_Tables = [demo_schema], r_signs = False, r_IndexerID = 0, r_L = lane_lib,
      r_S = (\<lambda>hs. case lthashCombineHexAll lane_lib [] hs of Inr root \<Rightarrow> Some root | Inl _ \<Rightarrow> None),
      r_decode = (\<lambda>k j. None), r_hash = (\<lambda>sch. []), r_Conn = demo_conn, r_hasConn = True, r_disk = (\<lambda>s. (WriteOK, s)), r_now = (\<lambda>s. (0, s)),
      r_ended = (\<lambda>s. False), r_registry = (\<lambda>s. (zeroSnapshot, False)), r_tablesReady = (\<lambda>t s. True),
      r_AuthorizePromotion = (\<lambda>cmd jws. True), r_AuthorizeCleanup = (\<lambda>cmd jws. True),
      r_GetPartitionStates = (\<lambda>t p s. (Inl (), s)), r_AckPromotion = (\<lambda>ack s. (Inr (), s)),
      r_AckCleanup = (\<lambda>ack s. (Inr (), s)), r_RegisterResultClaim = (\<lambda>rc s. (Inr (), s)), r_journalRead = (\<lambda>s. (True, s)),
      r_NativeFormat = ''native'', r_DecodeRows = (\<lambda>sch rev payload. Some [[payload]]),
      r_RowID = (\<lambda>table flat ordinal. ''row:'' @ FormatUint ordinal), r_PartitionIDForRow = (\<lambda>sch values. Some ''all''),
      r_Digest = (\<lambda>b. b), r_hasPayloads = True, r_PutPayload = (\<lambda>ref b s. (Inr (), s)), r_DisableHardParts = False,
      r_HardPartsPerPartition = 2950, r_SchemaRoot = [], r_SchemaRootFromHashes = (\<lambda>hs. []),
      r_AssembleStateRoot = (\<lambda>root tables. Some root)\<rparr>"

definition demo_world :: "localState \<Rightarrow> demo_out \<Rightarrow> demo_out world" where
  "demo_world st s =
     \<lparr>w_store = \<lparr>st_mem = st, st_disk = Some st\<rparr>, w_intake = fmempty, w_audit = newOwnerAuditState False,
      w_settle = \<lparr>sc_answers = (\<lambda>_. 0), sc_last = 0\<rparr>, w_out = s, w_trace = []\<rparr>"

lemmas demo_node_defs = demo_role_def demo_conn_def demo_exec_def demo_world_def demo_schema_def demo_hash_def demo_part_def

text \<open>The twin \<open>a\<close> of the acknowledged part \<open>b\<close> is dropped.\<close>

definition demo_twin_state :: localState where
  "demo_twin_state = newLocalState\<lparr>Watermarks := fmupd (key ''t'' ''all'') 5 fmempty,
     AckedSafeInventories := fmupd (key ''t'' ''all'')
       \<lparr>inv_PromotionSeq = 5, inv_Parts = [\<lparr>sm_PartRowLtHash = ''0x2000'', sm_SafePartName = ''b'', sm_PartPhysHash = ''g''\<rparr>],
        inv_Rebuilt = False\<rparr> fmempty\<rparr>"

definition demo_twin_world :: "demo_out world" where
  "demo_twin_world = demo_world demo_twin_state
     \<lparr>dm_safe = [demo_part ''a'' ''g'', demo_part ''b'' ''g''], dm_unsafe = [], dm_promote = []\<rparr>"

lemma demo_twin_run:
  "\<exists>w'. auditPartitionLocked demo_role ''promotion'' demo_schema ''t'' \<lparr>pk_Table = ''t'', pk_Partition = ''all''\<rparr> None
       (demo_twin_world\<lparr>w_audit := a\<rparr>) = (Inr None, w') \<and> w_trace w' = [LoadTable ''safe.t'', DropPart ''safe.t'' ''a''] \<and> dm_safe (w_out w') = [demo_part ''b'' ''g'']"
  by (simp add: auditPartitionLocked_def auditInputs_def demo_twin_world_def demo_twin_state_def demo_node_defs
      io_bind_def io_try_def read_store_def AckedSafeInventory_def ackedSafeInventoryOf_def ownerAuditReferenceFor_def
      rebuiltPair_def localReference_def loadSafeTable_def exec_def logged_def on_out_def safePartitionParts_def activeParts_def
      ActiveParts_def PartsInLogicalPartition_def LogicalPartitionID_def planFor_def planOwnerAudit_def unacknowledgedNames_def
      twinNames_def missingNames_def overGroups_def groupOf_def kept_def audited_def Let_def ownerAuditMode_def
      dropResurrectedTwins_def on_audit_def recordOwnerAudit_def cleanPlan_def render_def)

theorem audit_effects_witness:
  "\<exists>w'. auditPartitionLocked demo_role ''promotion'' demo_schema ''t'' \<lparr>pk_Table = ''t'', pk_Partition = ''all''\<rparr> None demo_twin_world =
     (Inr None, w') \<and> w_store w' = w_store demo_twin_world \<and> w_trace w' = [LoadTable ''safe.t'', DropPart ''safe.t'' ''a'']"
proof -
  from demo_twin_run [of "w_audit demo_twin_world"] obtain w' where run: "auditPartitionLocked demo_role ''promotion'' demo_schema ''t''
      \<lparr>pk_Table = ''t'', pk_Partition = ''all''\<rparr> None demo_twin_world = (Inr None, w')"
    and trace: "w_trace w' = [LoadTable ''safe.t'', DropPart ''safe.t'' ''a'']" by auto
  from run trace conjunct1 [OF audit_effects [OF run]] show ?thesis by blast
qed

lemma demo_gate_run: "\<exists>w'. auditBeforeShadow demo_role demo_cmd demo_schema ''t'' demo_twin_world = (Inr (), w')"
proof -
  have fsm: "ownerAuditFSM demo_role ''t'' ''all'' demo_twin_world =
      (Inr None, demo_twin_world\<lparr>w_audit := countFSMUnavailable (w_audit demo_twin_world)\<rparr>)"
    by (simp add: ownerAuditFSM_def demo_role_def io_try_def io_bind_def on_out_def on_audit_def)
  have now: "now demo_role w = (Inr 0, w)" for w by (simp add: now_def demo_role_def)
  from demo_twin_run [of "countFSMUnavailable (w_audit demo_twin_world)"] obtain w' where
    "auditPartitionLocked demo_role ''promotion'' demo_schema ''t'' \<lparr>pk_Table = ''t'', pk_Partition = ''all''\<rparr> None
       (demo_twin_world\<lparr>w_audit := countFSMUnavailable (w_audit demo_twin_world)\<rparr>) = (Inr None, w')" by blast
  then show ?thesis
    by (simp add: auditBeforeShadow_def demo_cmd_def Let_def io_bind_def io_try_def fsm now on_audit_def)
qed


end
