(* ===== verification/SNode_Promote.thy ===== *)
theory SNode_Promote
  imports SNode_Audit
begin

text \<open>
  The promotion handler (\<open>snode/promote.go\<close>, \<open>promote_replace.go\<close>, \<open>promote_subset.go\<close>,
  \<open>promote_match.go\<close>) and the settle answer (\<open>snode/settle.go\<close>): what a promotion command does to
  ClickHouse, to the journal and to the arbiter. The decisions it takes on scanned parts are those of
  \<open>SNode_Match\<close>, its journal that of \<open>SNode_State\<close>, and the audit before a shadow that of
  \<open>SNode_Audit\<close>.
\<close>

section \<open>Reading a partition\<close>

definition safeMappings ::
    "('o, 'h :: ab_group_add) role \<Rightarrow> string \<Rightarrow> TableSchema \<Rightarrow> PromoteSafePartition \<Rightarrow> string \<Rightarrow> ('o, safePartMappings) act" where
  "safeMappings r table sch cmd post =
     io_bind (activeParts r (r_SafeDatabase r) table) (\<lambda>parts.
     let after = PartsInLogicalPartition parts sch (ps_PartitionID cmd) in
     io_bind (scanParts r (r_SafeDatabase r @ ''.'' @ table) sch (map pt_Name after)) (\<lambda>scans.
     io_lift (rmap_error ErrPromote (inventoryOf (r_L r) after scans cmd post))))"

definition shadowPartitionParts :: "('o, 'h) role \<Rightarrow> string \<Rightarrow> TableSchema \<Rightarrow> string \<Rightarrow> ('o, string list) act" where
  "shadowPartitionParts r table sch partitionID =
     io_bind (activeParts r (r_PromoteDatabase r) table) (\<lambda>parts.
     io_return (sort (map pt_Name (PartsInLogicalPartition parts sch partitionID))))"

text \<open>The loop over the shadow's parts: the base parts not met, the other parts, and those with rows.\<close>

fun originLoop :: "string list \<Rightarrow> Part list \<Rightarrow> string list \<times> string list \<times> string list" where
  "originLoop isBase [] = (isBase, [], [])"
| "originLoop isBase (p # ps) =
     (if pt_Name p \<in> set isBase then originLoop (removeAll (pt_Name p) isBase) ps
      else case originLoop isBase ps of
             (b, out, scan) \<Rightarrow> (b, pt_Name p # out, if pt_Rows p > 0 then pt_Name p # scan else scan))"

text \<open>The loop that gives each part its scanned hash.\<close>

fun hashLoop :: "string list \<Rightarrow> (string, string) fmap \<Rightarrow> string list \<Rightarrow>
    (role_error, shadowPart list \<times> (string, string) fmap) result" where
  "hashLoop scan hashes [] = Inr ([], hashes)"
| "hashLoop scan hashes (n # ns) =
     (case fmlookup hashes n of
        Some h \<Rightarrow> rbind (hashLoop scan (fmdrop n hashes) ns) (\<lambda>(out, rest). Inr (\<lparr>sh_Name = n, sh_RowLtHash = h\<rparr> # out, rest))
      | None \<Rightarrow>
          (if n \<in> set scan then Inl (ErrShadowScanOmitted n)
           else rbind (hashLoop scan hashes ns) (\<lambda>(out, rest). Inr (\<lparr>sh_Name = n, sh_RowLtHash = []\<rparr> # out, rest))))"

definition scannedHashes :: "PartScanResult list \<Rightarrow> (role_error, (string, string) fmap) result" where
  "scannedHashes scans =
     (case find (\<lambda>s. sc_RowLtHash s = []) scans of
        Some s \<Rightarrow> Inl (ErrShadowScanEmpty (sc_PartName s))
      | None \<Rightarrow> Inr (foldl (\<lambda>m s. fmupd (sc_PartName s) (sc_RowLtHash s) m) fmempty scans))"

definition unsafeOriginShadowParts ::
    "('o, 'h) role \<Rightarrow> string \<Rightarrow> TableSchema \<Rightarrow> string \<Rightarrow> string list \<Rightarrow> ('o, shadowPart list) act" where
  "unsafeOriginShadowParts r table sch partitionID base =
     io_bind (activeParts r (r_PromoteDatabase r) table) (\<lambda>parts.
     case originLoop base (PartsInLogicalPartition parts sch partitionID) of
       (missing, out, scan) \<Rightarrow>
         (if missing \<noteq> [] then io_fail (ErrShadowVanished (sort (remdups missing)))
          else if scan = [] then io_return (map (\<lambda>n. \<lparr>sh_Name = n, sh_RowLtHash = []\<rparr>) out)
          else io_bind (scanParts r (r_PromoteDatabase r @ ''.'' @ table) sch scan) (\<lambda>scans.
               io_bind (io_lift (scannedHashes scans)) (\<lambda>hashes.
               io_bind (io_lift (hashLoop scan hashes out)) (\<lambda>(attached, rest).
               if fmkeys rest \<noteq> [] then io_fail ErrShadowScanUnrequested else io_return attached)))))"

section \<open>Building the shadow\<close>

definition prepareShadow ::
    "('o, 'h) role \<Rightarrow> PromoteSafePartition \<Rightarrow> TableSchema \<Rightarrow> string \<Rightarrow> string \<Rightarrow> ('o, unit) act" where
  "prepareShadow r cmd sch table prt =
     io_bind (on_out ErrCH (conn_tables (r_Conn r) (r_PromoteDatabase r) table)) (\<lambda>exists.
     if exists = 0 then io_fail ErrPromoteTableMissing
     else io_bind (dropPartitionIfPresent r (r_PromoteDatabase r) table sch (ps_PartitionID cmd)) (\<lambda>_.
     if ps_BasePartitionRoot cmd = [] then io_return ()
     else exec r (AttachPartition (r_PromoteDatabase r @ ''.'' @ table) prt (r_SafeDatabase r @ ''.'' @ table))))"

definition candidatesCoverUnsafePartition ::
    "('o, 'h) role \<Rightarrow> PromoteSafePartition \<Rightarrow> TableSchema \<Rightarrow> string \<Rightarrow> ('o, bool) act" where
  "candidatesCoverUnsafePartition r cmd sch table =
     io_bind (activeParts r (r_UnsafeDatabase r) table) (\<lambda>parts.
     case find (\<lambda>cp. pr_PartName cp = []) (ps_CandidateParts cmd) of
       Some cp \<Rightarrow> io_fail (ErrEmptyPartName (pr_TableID cp) (pr_PartitionID cp))
     | None \<Rightarrow>
         (let candidates = remdups (map pr_PartName (ps_CandidateParts cmd));
              mine = PartsInLogicalPartition parts sch (ps_PartitionID cmd)
          in io_return (list_all (\<lambda>p. pt_Name p \<in> set candidates) mine \<and> length mine = length candidates)))"

definition attachSubset ::
    "('o, 'h :: ab_group_add) role \<Rightarrow> PromoteSafePartition \<Rightarrow> TableSchema \<Rightarrow> string \<Rightarrow> string \<Rightarrow> ('o, unit) act" where
  "attachSubset r cmd sch table prt =
     (let promote = r_PromoteDatabase r @ ''.'' @ table in
      io_bind (shadowPartitionParts r table sch (ps_PartitionID cmd)) (\<lambda>base.
      io_bind (exec r (AttachPartition promote prt (r_UnsafeDatabase r @ ''.'' @ table))) (\<lambda>_.
      io_bind (unsafeOriginShadowParts r table sch (ps_PartitionID cmd) base) (\<lambda>attached.
      io_bind (io_lift (rmap_error ErrPromote (matchShadowCandidates (r_L r) cmd attached))) (\<lambda>(keep, dropped).
      io_bind (io_each (\<lambda>name. exec r (DropPart promote name)) dropped) (\<lambda>_.
      io_bind (shadowPartitionParts r table sch (ps_PartitionID cmd)) (\<lambda>final.
      if final \<noteq> sort (base @ keep) then io_fail ErrShadowParts else io_return ())))))))"

definition attachCandidateSubset ::
    "('o, 'h :: ab_group_add) role \<Rightarrow> PromoteSafePartition \<Rightarrow> TableSchema \<Rightarrow> string \<Rightarrow> string \<Rightarrow> ('o, unit) act" where
  "attachCandidateSubset r cmd sch table prt =
     io_try (attachSubset r cmd sch table prt) (\<lambda>res.
     case res of
       Inr _ \<Rightarrow> io_return ()
     | Inl e \<Rightarrow> io_try (dropPartitionIfPresent r (r_PromoteDatabase r) table sch (ps_PartitionID cmd)) (\<lambda>_. io_fail e))"

definition attachCandidateParts ::
    "('o, 'h :: ab_group_add) role \<Rightarrow> PromoteSafePartition \<Rightarrow> TableSchema \<Rightarrow> string \<Rightarrow> string \<Rightarrow> ('o, unit) act" where
  "attachCandidateParts r cmd sch table prt =
     io_bind (candidatesCoverUnsafePartition r cmd sch table) (\<lambda>covered.
     if covered
     then exec r (AttachPartition (r_PromoteDatabase r @ ''.'' @ table) prt (r_UnsafeDatabase r @ ''.'' @ table))
     else attachCandidateSubset r cmd sch table prt)"

section \<open>Replacing the partition\<close>

abbreviation partition_of :: "PromoteSafePartition \<Rightarrow> partitionKey" where
  "partition_of cmd \<equiv> \<lparr>pk_Table = ps_TableID cmd, pk_Partition = ps_PartitionID cmd\<rparr>"

definition refuseShadow ::
    "('o, 'h) role \<Rightarrow> PromoteSafePartition \<Rightarrow> TableSchema \<Rightarrow> string \<Rightarrow> role_error \<Rightarrow> ('o, 'a) act" where
  "refuseShadow r cmd sch table e =
     io_try (dropPartitionIfPresent r (r_PromoteDatabase r) table sch (ps_PartitionID cmd)) (\<lambda>_. io_fail e)"

text \<open>The part of \<open>buildAndReplace\<close> that ends with the closed shadow: its root and the safe parts before.\<close>

definition buildShadow ::
    "('o, 'h :: ab_group_add) role \<Rightarrow> PromoteSafePartition \<Rightarrow> TableSchema \<Rightarrow> string \<Rightarrow> string \<Rightarrow> ('o, string \<times> Part list) act" where
  "buildShadow r cmd sch table prt =
     io_bind (io_lift (rmap_error ErrPromote (refuseDuplicateCandidates (r_L r) cmd))) (\<lambda>_.
     io_bind (auditBeforeShadow r cmd sch table) (\<lambda>_.
     io_bind (prepareShadow r cmd sch table prt) (\<lambda>_.
     io_bind (activeParts r (r_SafeDatabase r) table) (\<lambda>safeBefore.
     io_bind (attachCandidateParts r cmd sch table prt) (\<lambda>_.
     io_bind (io_lift (rmap_error ErrLt (lthashCombineHexAll (r_L r) (ps_BasePartitionRoot cmd) (candidateHashes cmd)))) (\<lambda>post.
     io_bind (partitionContentScan r (r_PromoteDatabase r) table sch (ps_PartitionID cmd)) (\<lambda>(shadowRoot, shadowParts).
     if shadowRoot \<noteq> post then refuseShadow r cmd sch table ErrShadowClosure
     else case duplicateShadowPartHash shadowParts of
            Inl e \<Rightarrow> refuseShadow r cmd sch table (ErrPromote e)
          | Inr _ \<Rightarrow> io_return (post, safeBefore))))))))"

definition buildAndReplace ::
    "('o, 'h :: ab_group_add) role \<Rightarrow> PromoteSafePartition \<Rightarrow> ('o, string \<times> safePartMappings) act" where
  "buildAndReplace r cmd =
     (if \<not> r_hasConn r then io_fail ErrNoConnection
      else
        io_bind (schemaFor r (ps_TableID cmd)) (\<lambda>sch.
        let table = CHTableName (ps_TableID cmd) in
        io_bind (io_lift (rmap_error ErrCH (QuotePartition sch (ps_PartitionID cmd)))) (\<lambda>prt.
        io_bind (buildShadow r cmd sch table prt) (\<lambda>(post, safeBefore).
        let intent = promotionIntentFor cmd post (PartsInLogicalPartition safeBefore sch (ps_PartitionID cmd)) in
        io_bind (on_store r (\<lambda>wo. BeginPromotion wo (partition_of cmd) intent)) (\<lambda>_.
        io_bind (exec r (ReplacePartition (r_SafeDatabase r @ ''.'' @ table) prt (r_PromoteDatabase r @ ''.'' @ table))) (\<lambda>_.
        io_bind (dropPartitionIfPresent r (r_PromoteDatabase r) table sch (ps_PartitionID cmd)) (\<lambda>_.
        io_bind (safeMappings r table sch cmd post) (\<lambda>mappings.
        io_return (post, mappings)))))))))"

section \<open>Recovery\<close>

text \<open>The published root and inventory of an intent whose REPLACE is visible, \<open>None\<close> when it never ran.\<close>

definition reconcilePromotionIntent ::
    "('o, 'h :: ab_group_add) role \<Rightarrow> PromoteSafePartition \<Rightarrow> promotionIntent \<Rightarrow> ('o, (string \<times> safePartMappings) option) act" where
  "reconcilePromotionIntent r cmd intent =
     io_bind (io_lift (rmap_error ErrLt (lthashCombineHexAll (r_L r) (ps_BasePartitionRoot cmd) (candidateHashes cmd)))) (\<lambda>post.
     if \<not> promotionIntentMatchesCommand intent cmd post then io_fail (ErrIntentMismatch (pi_PromotionSeq intent) (ps_PromotionSeq cmd))
     else
       io_bind (schemaFor r (ps_TableID cmd)) (\<lambda>sch.
       let table = CHTableName (ps_TableID cmd) in
       io_bind (io_lift (rmap_error ErrCH (QuotePartition sch (ps_PartitionID cmd)))) (\<lambda>prt.
       io_bind (partitionContentRoot r (r_SafeDatabase r) table sch (ps_PartitionID cmd)) (\<lambda>currentRoot.
       io_bind (io_lift (rmap_error ErrLt (lthashCombineHexAll (r_L r) (ps_BasePartitionRoot cmd) []))) (\<lambda>baseRoot.
       if currentRoot = baseRoot then io_return None
       else if currentRoot \<noteq> post then io_fail (ErrUnresolvedRoot currentRoot)
       else
         io_bind (dropPartitionIfPresent r (r_PromoteDatabase r) table sch (ps_PartitionID cmd)) (\<lambda>_.
         io_bind (safeMappings r table sch cmd post) (\<lambda>mappings.
         io_return (Some (post, mappings)))))))))"

section \<open>Acknowledging\<close>

definition appliedAck :: "('o, 'h) role \<Rightarrow> PromoteSafePartition \<Rightarrow> string \<Rightarrow> safePartMappings \<Rightarrow> PromotionAck" where
  "appliedAck r cmd post mappings =
     \<lparr>pa_NodeID = r_NodeID r, pa_PromotionSeq = ps_PromotionSeq cmd, pa_TableID = ps_TableID cmd,
      pa_PartitionID = ps_PartitionID cmd, pa_PostPartitionCommitment = post, pa_Parts = mp_Candidates mappings,
      pa_SafePartitionParts = mp_Partition mappings, pa_Applied = True, pa_Detail = []\<rparr>"

definition refusedAck :: "('o, 'h) role \<Rightarrow> PromoteSafePartition \<Rightarrow> string \<Rightarrow> PromotionAck" where
  "refusedAck r cmd details =
     \<lparr>pa_NodeID = r_NodeID r, pa_PromotionSeq = ps_PromotionSeq cmd, pa_TableID = ps_TableID cmd,
      pa_PartitionID = ps_PartitionID cmd, pa_PostPartitionCommitment = [], pa_Parts = [], pa_SafePartitionParts = [],
      pa_Applied = False, pa_Detail = details\<rparr>"

definition finishAppliedPromotion ::
    "('o, 'h :: ab_group_add) role \<Rightarrow> partitionKey \<Rightarrow> PromoteSafePartition \<Rightarrow> string \<Rightarrow> safePartMappings \<Rightarrow> ('o, unit) act" where
  "finishAppliedPromotion r k cmd post mappings =
     (let ack = appliedAck r cmd post mappings in
      io_bind (on_store r (\<lambda>wo. RecordAppliedPromotion (r_L r) wo k (ps_PromotionSeq cmd) ack post (ps_BaseSafeSnapshotID cmd)
                 (candidateHashes cmd) (map pr_PartName (ps_CandidateParts cmd)))) (\<lambda>_.
      io_bind (on_audit (clear_finding k)) (\<lambda>_.
      sendAck r ack)))"

definition refreshedAck ::
    "('o, 'h :: ab_group_add) role \<Rightarrow> PromoteSafePartition \<Rightarrow> PromotionAck \<Rightarrow> ('o, PromotionAck) act" where
  "refreshedAck r cmd ack =
     io_bind (io_lift (rmap_error ErrPromote (legacyAckMatchesCommand (r_L r) ack cmd))) (\<lambda>_.
     io_bind (schemaFor r (ps_TableID cmd)) (\<lambda>sch.
     io_bind (safeMappings r (CHTableName (ps_TableID cmd)) sch cmd (pa_PostPartitionCommitment ack)) (\<lambda>mappings.
     io_return (ack\<lparr>pa_Parts := mp_Candidates mappings, pa_SafePartitionParts := mp_Partition mappings\<rparr>))))"

definition resendStoredAck ::
    "('o, 'h :: ab_group_add) role \<Rightarrow> partitionKey \<Rightarrow> PromoteSafePartition \<Rightarrow> PromotionAck \<Rightarrow> ('o, unit) act" where
  "resendStoredAck r k cmd ack =
     (if pa_Applied ack \<and> pa_SafePartitionParts ack = []
      then io_bind (refreshedAck r cmd ack) (\<lambda>ack'.
           io_bind (on_store r (\<lambda>wo. RecordRefreshedAck wo k ack')) (\<lambda>_.
           sendAck r ack'))
      else sendAck r ack)"

section \<open>The settle answer\<close>

definition countSettle :: "('o, 'h) role \<Rightarrow> SettleOutcome \<Rightarrow> ('o, unit) act" where
  "countSettle r o' =
     io_bind (now r) (\<lambda>t w.
     (Inr (), w\<lparr>w_settle := \<lparr>sc_answers = (sc_answers (w_settle w))(o' := sc_answers (w_settle w) o' + 1), sc_last = t\<rparr>\<rparr>))"

definition dropSettledShadow :: "('o, 'h) role \<Rightarrow> PromoteSafePartition \<Rightarrow> ('o, unit) act" where
  "dropSettledShadow r cmd =
     (if \<not> r_hasConn r then io_return ()
      else io_bind (schemaFor r (ps_TableID cmd)) (\<lambda>sch.
           io_bind (io_lift (rmap_error ErrCH (QuotePartition sch (ps_PartitionID cmd)))) (\<lambda>_.
           dropPartitionIfPresent r (r_PromoteDatabase r) (CHTableName (ps_TableID cmd)) sch (ps_PartitionID cmd))))"

definition settleNotAppliedDetail :: "u64 \<Rightarrow> string" where
  "settleNotAppliedDetail seq = ''settle: promotion '' @ FormatUint seq @ '' was not applied on this SNode''"

definition settleNotApplied :: "('o, 'h) role \<Rightarrow> partitionKey \<Rightarrow> PromoteSafePartition \<Rightarrow> ('o, unit) act" where
  "settleNotApplied r k cmd =
     io_bind (read_store (BaseRoot k)) (\<lambda>(baseRoot, baseSnapshotID).
     let ack = refusedAck r cmd (settleNotAppliedDetail (ps_PromotionSeq cmd)) in
     io_bind (on_store r (\<lambda>wo. RecordSettledNotApplied wo k (ps_PromotionSeq cmd) ack baseRoot baseSnapshotID)) (\<lambda>_.
     io_try (dropSettledShadow r cmd) (\<lambda>_.
     io_bind (sendAck r ack) (\<lambda>_.
     countSettle r SettleNotApplied))))"

definition answerSettle :: "('o, 'h :: ab_group_add) role \<Rightarrow> partitionKey \<Rightarrow> PromoteSafePartition \<Rightarrow> ('o, unit) act" where
  "answerSettle r k cmd =
     io_bind (read_store (\<lambda>st. (Watermark k st, LastAck k st, PendingPromotion k st))) (\<lambda>(watermark, ack, intent).
     if ps_PromotionSeq cmd \<le> watermark
     then (case ack of
             Some a \<Rightarrow>
               (if pa_PromotionSeq a = ps_PromotionSeq cmd
                then io_bind (resendStoredAck r k cmd a) (\<lambda>_. countSettle r SettleJournaled)
                else countSettle r SettleUnanswerable)
           | None \<Rightarrow> countSettle r SettleUnanswerable)
     else case intent of
            Some i \<Rightarrow>
              io_bind (reconcilePromotionIntent r cmd i) (\<lambda>published.
              case published of
                Some (post, mappings) \<Rightarrow>
                  io_bind (finishAppliedPromotion r k cmd post mappings) (\<lambda>_. countSettle r SettleReconciled)
              | None \<Rightarrow> settleNotApplied r k cmd)
          | None \<Rightarrow> settleNotApplied r k cmd)"

section \<open>The handler\<close>

definition casMismatchDetail :: "string \<Rightarrow> string \<Rightarrow> string" where
  "casMismatchDetail local cmdRoot = ''base CAS mismatch: local '' @ local @ '', command '' @ cmdRoot"

text \<open>From the base comparison on: refuse the command, or build, replace and acknowledge.\<close>

definition applyPromotion :: "('o, 'h :: ab_group_add) role \<Rightarrow> partitionKey \<Rightarrow> PromoteSafePartition \<Rightarrow> ('o, unit) act" where
  "applyPromotion r k cmd =
     io_bind (read_store (BaseRoot k)) (\<lambda>(baseRoot, baseSnapshotID).
     if ps_BasePartitionRoot cmd \<noteq> baseRoot
     then (let ack = refusedAck r cmd (casMismatchDetail baseRoot (ps_BasePartitionRoot cmd)) in
           io_bind (on_store r (\<lambda>wo. RecordAck wo k (ps_PromotionSeq cmd) ack baseRoot baseSnapshotID)) (\<lambda>_.
           sendAck r ack))
     else io_bind (buildAndReplace r cmd) (\<lambda>(post, mappings). finishAppliedPromotion r k cmd post mappings))"

definition promoteLocked :: "('o, 'h :: ab_group_add) role \<Rightarrow> partitionKey \<Rightarrow> PromoteSafePartition \<Rightarrow> ('o, unit) act" where
  "promoteLocked r k cmd =
     io_bind (read_store (\<lambda>st. (Watermark k st, LastAck k st, PendingPromotion k st))) (\<lambda>(watermark, ack, intent).
     if ps_PromotionSeq cmd \<le> watermark
     then (case ack of
             Some a \<Rightarrow> if pa_PromotionSeq a = ps_PromotionSeq cmd then resendStoredAck r k cmd a else io_return ()
           | None \<Rightarrow> io_return ())
     else case intent of
            Some i \<Rightarrow>
              io_bind (reconcilePromotionIntent r cmd i) (\<lambda>published.
              case published of
                Some (post, mappings) \<Rightarrow> finishAppliedPromotion r k cmd post mappings
              | None \<Rightarrow> applyPromotion r k cmd)
          | None \<Rightarrow> applyPromotion r k cmd)"

definition handlePromote :: "('o, 'h :: ab_group_add) role \<Rightarrow> PromoteSafePartition \<Rightarrow> string \<Rightarrow> bool \<Rightarrow> ('o, unit) act" where
  "handlePromote r cmd jws settle =
     (if \<not> r_AuthorizePromotion r cmd jws then io_fail ErrAuthority
      else io_try (requireOwned r (ps_TableID cmd)) (\<lambda>res.
           case res of
             Inl _ \<Rightarrow> io_return ()
           | Inr _ \<Rightarrow> if settle then answerSettle r (partition_of cmd) cmd else promoteLocked r (partition_of cmd) cmd))"

end
