(* ===== verification/Promote_Safety.thy ===== *)
theory Promote_Safety
  imports SNode_Promote
begin

text \<open>
  What the promotion handler guarantees: when a partition is replaced, what a settle answer may do, that an
  acknowledgement is journaled before it is sent, and that a redelivery applies nothing again.
\<close>

section \<open>Events\<close>

fun replaces :: "role_event \<Rightarrow> bool" where
  "replaces (ReplacePartition _ _ _) \<longleftrightarrow> True"
| "replaces _ \<longleftrightarrow> False"

fun sends :: "role_event \<Rightarrow> bool" where
  "sends (SendAck _) \<longleftrightarrow> True"
| "sends (SendCleanupAck _) \<longleftrightarrow> True"
| "sends _ \<longleftrightarrow> False"

text \<open>A statement of a shadow build: it reads the safe and unsafe tables and writes the shadow, except for a dropped twin.\<close>

definition building :: "role_event \<Rightarrow> bool" where
  "building e \<longleftrightarrow> \<not> replaces e \<and> \<not> sends e"

lemma building_simps [simp]:
  "building (AttachPartition t p s)" "building (DropPart t n)" "building (DropPartition d t p)" "building (LoadTable t)"
  "\<not> building (ReplacePartition t p s)" "\<not> building (SendAck a)" "\<not> building (SendCleanupAck c)"
  by (simp_all add: building_def)

lemma twinEvent_building: "twinEvent r sch table k choice e \<Longrightarrow> building e"
  by (auto simp: twinEvent_def)

text \<open>The only statement that can reach the safe tables outside a REPLACE is the DROP PART of the audit.\<close>

lemma quiet_FSM [intro]: "io_within (quiet P) (ownerAuditFSM r tableID partitionID)"
  by (rule ownerAuditFSM_store)

lemma quiet_audit_before [intro]: "io_within (quiet building) (auditBeforeShadow r cmd sch table)"
proof -
  have "io_within (quiet building) (auditPartitionLocked r trigger sch table k fsm)" for trigger k fsm
    unfolding io_within_def
  proof
    fix w
    obtain res w' where run: "auditPartitionLocked r trigger sch table k fsm w = (res, w')" by fastforce
    from auditPartitionLocked_quiet [OF HOL.refl this] show "quiet building w (snd (auditPartitionLocked r trigger sch table k fsm w))"
      unfolding quiet_def emits_def run by (auto simp: list_all_iff intro: twinEvent_building)
  qed
  then show ?thesis
    unfolding auditBeforeShadow_def Let_def
    by (intro quiet.bind quiet.attempt) (auto split: sum.splits option.splits)
qed

lemma quiet_shadow_reads [simp, intro]:
  "io_within (quiet P) (safeMappings r table sch cmd post)"
  "io_within (quiet P) (shadowPartitionParts r table sch partitionID)"
  "io_within (quiet P) (unsafeOriginShadowParts r table sch partitionID base)"
  "io_within (quiet P) (candidatesCoverUnsafePartition r cmd sch table)"
  unfolding safeMappings_def shadowPartitionParts_def unsafeOriginShadowParts_def candidatesCoverUnsafePartition_def Let_def
  by (intro quiet.bind; auto split: prod.splits option.splits intro!: quiet.bind)+

lemma quiet_prepareShadow [intro]: "io_within (quiet building) (prepareShadow r cmd sch table prt)"
  unfolding prepareShadow_def by (intro quiet.bind) (auto intro!: quiet.bind)

lemma quiet_attach [intro]: "io_within (quiet building) (attachCandidateParts r cmd sch table prt)"
proof -
  have "io_within (quiet building) (attachSubset r cmd sch table prt)"
    unfolding attachSubset_def Let_def by (intro quiet.bind quiet_exec) (auto intro!: quiet.bind quiet.each split: prod.splits)
  then have "io_within (quiet building) (attachCandidateSubset r cmd sch table prt)"
    unfolding attachCandidateSubset_def by (intro quiet.attempt) (auto intro!: quiet.attempt split: sum.splits)
  then show ?thesis unfolding attachCandidateParts_def by (intro quiet.bind) auto
qed

lemma quiet_refuseShadow [intro]: "io_within (quiet building) (refuseShadow r cmd sch table e)"
  unfolding refuseShadow_def by (intro quiet.attempt) auto

lemma quiet_buildShadow [intro]: "io_within (quiet building) (buildShadow r cmd sch table prt)"
  unfolding buildShadow_def
  by (intro quiet.bind quiet_audit_before quiet_prepareShadow quiet_attach) (auto split: prod.splits sum.splits)

section \<open>The closed shadow\<close>

lemma buildShadow_closed:
  assumes "buildShadow r cmd sch table prt w = (Inr (post, safeBefore), w')"
  shows "refuseDuplicateCandidates (r_L r) cmd = Inr () \<and>
    lthashCombineHexAll (r_L r) (ps_BasePartitionRoot cmd) (candidateHashes cmd) = Inr post \<and>
    (\<exists>w1 parts. partitionContentScan r (r_PromoteDatabase r) table sch (ps_PartitionID cmd) w1 = (Inr (post, parts), w') \<and>
       distinct (map sh_RowLtHash parts))"
proof -
  have no: "refuseShadow r cmd sch table e u \<noteq> (Inr a, v)" for e u v and a :: "string \<times> Part list"
    by (auto simp: refuseShadow_def io_try_iff)
  with assms show ?thesis
    unfolding buildShadow_def io_bind_Inr
    by (auto split: if_splits sum.splits simp: duplicateShadow_iff [symmetric])
qed

text \<open>What a successful \<open>BeginPromotion\<close> leaves in memory, and in the file when the file held the memory's intent.\<close>

definition intent_on_file :: "partitionKey \<Rightarrow> stateStore \<Rightarrow> bool" where
  "intent_on_file k st \<longleftrightarrow> PendingPromotion k (openStateStore (st_disk st)) = PendingPromotion k st"

lemma intentsEqual_matches:
  "promotionIntentCommandEqual i (promotionIntentFor cmd post before) \<Longrightarrow> promotionIntentMatchesCommand i cmd post"
  by (simp add: promotionIntentCommandEqual_def promotionIntentFor_def promotionIntentMatchesCommand_def)

definition intent_journaled :: "partitionKey \<Rightarrow> PromoteSafePartition \<Rightarrow> string \<Rightarrow> stateStore \<Rightarrow> stateStore \<Rightarrow> bool" where
  "intent_journaled k cmd post st st' \<longleftrightarrow>
     (\<exists>i. PendingPromotion k st' = Some i \<and> promotionIntentMatchesCommand i cmd post \<and> (intent_on_file k st \<longrightarrow> intent_on_file k st'))"

lemma BeginPromotion_journals:
  assumes "BeginPromotion wo k (promotionIntentFor cmd post before) st = (Inr (), st')"
  shows "intent_journaled k cmd post st st'"
proof -
  have "promotionIntentCommandEqual (promotionIntentFor cmd post before) (promotionIntentFor cmd post before)"
    by (simp add: promotionIntentCommandEqual_def)
  note self = intentsEqual_matches [OF this]
  show ?thesis
    using assms self unfolding intent_journaled_def
    by (auto simp: BeginPromotion_def Let_def persistStateLocked_def PendingPromotion_def intent_on_file_def openStateStore_def
        readLocalState_def promotionIntentsEqual_def split: option.splits if_splits write_outcome.splits
        intro: intentsEqual_matches)
qed

section \<open>Replacing\<close>

definition new_events :: "'o world \<Rightarrow> 'o world \<Rightarrow> role_event list" where
  "new_events w w' = drop (length (w_trace w)) (w_trace w')"

lemma emits_new: "emits P w w' \<longleftrightarrow> w_trace w' = w_trace w @ new_events w w' \<and> list_all P (new_events w w')"
  by (auto simp: emits_def new_events_def)

text \<open>
  A guarded REPLACE, between the worlds \<open>w\<close> and \<open>w'\<close>: its candidates are valid and distinct, the shadow was scanned
  with the promised root and no repeated content, the intent was journaled, and nothing but the journal write lies
  between the scan and the statement; before and after it, no other statement replaces a partition.
\<close>

definition guarded_replace ::
    "('o, 'h :: ab_group_add) role \<Rightarrow> PromoteSafePartition \<Rightarrow> role_event \<Rightarrow> 'o world \<Rightarrow> 'o world \<Rightarrow> bool" where
  "guarded_replace r cmd e w w' \<longleftrightarrow>
     (\<exists>sch prt post parts before w1 w2 w3 res w4.
        e = ReplacePartition (r_SafeDatabase r @ ''.'' @ CHTableName (ps_TableID cmd)) prt
              (r_PromoteDatabase r @ ''.'' @ CHTableName (ps_TableID cmd)) \<and>
        QuotePartition sch (ps_PartitionID cmd) = Inr prt \<and>
        refuseDuplicateCandidates (r_L r) cmd = Inr () \<and>
        lthashCombineHexAll (r_L r) (ps_BasePartitionRoot cmd) (candidateHashes cmd) = Inr post \<and>
        partitionContentScan r (r_PromoteDatabase r) (CHTableName (ps_TableID cmd)) sch (ps_PartitionID cmd) w1 = (Inr (post, parts), w2) \<and>
        distinct (map sh_RowLtHash parts) \<and>
        quiet building w w2 \<and>
        on_store r (\<lambda>wo. BeginPromotion wo (partition_of cmd) (promotionIntentFor cmd post before)) w2 = (Inr (), w3) \<and>
        intent_journaled (partition_of cmd) cmd post (w_store w) (w_store w3) \<and>
        exec r e w3 = (res, w4) \<and> emits (\<lambda>e. \<not> replaces e) w4 w')"

lemma on_store_Inr:
  "on_store r run w = (Inr a, w') \<longleftrightarrow>
     (\<exists>wo s st. r_disk r (w_out w) = (wo, s) \<and> run wo (w_store w) = (Inr a, st) \<and> w' = w\<lparr>w_out := s, w_store := st\<rparr>)"
  by (auto simp: on_store_def split: prod.splits)

lemma on_store_trace [simp]: "on_store r run w = (res, w') \<Longrightarrow> w_trace w' = w_trace w"
  by (auto simp: on_store_def split: prod.splits)

lemma io_bind_step:
  assumes "io_bind m k w = (res, w')"
  obtains res1 w1 where "m w = (res1, w1)"
    "case res1 of Inl e \<Rightarrow> res = Inl e \<and> w' = w1 | Inr a \<Rightarrow> k a w1 = (res, w')"
  using assms by (auto simp: io_bind_def split: prod.splits sum.splits)

abbreviation calm :: "role_event \<Rightarrow> bool" where
  "calm e \<equiv> \<not> replaces e"

lemma calm_simps [simp]: "building e \<Longrightarrow> calm e" "building e \<Longrightarrow> \<not> sends e"
  by (simp_all add: building_def)

lemma quiet_building_calm: "quiet building w w' \<Longrightarrow> emits calm w w'"
  unfolding quiet_def emits_def by (auto simp: list_all_iff)

lemma guarded_replace_after:
  assumes "quiet building w w1" "guarded_replace r cmd e w1 w'"
  shows "guarded_replace r cmd e w w'"
proof -
  from assms(2) obtain sch prt post parts before u1 u2 u3 res u4 where *:
    "e = ReplacePartition (r_SafeDatabase r @ ''.'' @ CHTableName (ps_TableID cmd)) prt
           (r_PromoteDatabase r @ ''.'' @ CHTableName (ps_TableID cmd))"
    "QuotePartition sch (ps_PartitionID cmd) = Inr prt" "refuseDuplicateCandidates (r_L r) cmd = Inr ()"
    "lthashCombineHexAll (r_L r) (ps_BasePartitionRoot cmd) (candidateHashes cmd) = Inr post"
    "partitionContentScan r (r_PromoteDatabase r) (CHTableName (ps_TableID cmd)) sch (ps_PartitionID cmd) u1 = (Inr (post, parts), u2)"
    "distinct (map sh_RowLtHash parts)" and q: "quiet building w1 u2" and **:
    "on_store r (\<lambda>wo. BeginPromotion wo (partition_of cmd) (promotionIntentFor cmd post before)) u2 = (Inr (), u3)"
    "intent_journaled (partition_of cmd) cmd post (w_store w1) (w_store u3)" "exec r e u3 = (res, u4)" "emits calm u4 w'"
    unfolding guarded_replace_def by blast
  moreover have "w_store w1 = w_store w" using assms(1) by (simp add: quiet_def)
  ultimately have "intent_journaled (partition_of cmd) cmd post (w_store w) (w_store u3)" by simp
  with quiet.trans [OF assms(1) q] * ** show ?thesis unfolding guarded_replace_def by blast
qed

lemma guarded_replace_then:
  assumes "guarded_replace r cmd e w w1" "emits calm w1 w'"
  shows "guarded_replace r cmd e w w'"
  using assms(1) emits.trans [OF _ assms(2)] unfolding guarded_replace_def by blast

text \<open>A step that replaces nothing, or whose one REPLACE is guarded.\<close>

definition staged :: "('o, 'h :: ab_group_add) role \<Rightarrow> PromoteSafePartition \<Rightarrow> ('o, 'a) act \<Rightarrow> 'o world \<Rightarrow> bool" where
  "staged r cmd m w \<longleftrightarrow> emits calm w (snd (m w)) \<or> (\<exists>e. guarded_replace r cmd e w (snd (m w)))"

lemma staged_calm: "io_within (emits calm) m \<Longrightarrow> staged r cmd m w"
  by (simp add: staged_def io_within_def)

lemma staged_bind:
  assumes "io_within (quiet building) m" "\<And>a w1. m w = (Inr a, w1) \<Longrightarrow> staged r cmd (k a) w1"
  shows "staged r cmd (io_bind m k) w"
proof -
  obtain res w1 where m: "m w = (res, w1)" by fastforce
  from io_withinD [OF assms(1) m] have q: "quiet building w w1" .
  show ?thesis
  proof (cases res)
    case (Inl e)
    with m q show ?thesis by (simp add: staged_def io_bind_def quiet_building_calm)
  next
    case (Inr a)
    with assms(2) m have "staged r cmd (k a) w1" by blast
    then show ?thesis
      using Inr m q emits.trans [OF quiet_building_calm [OF q]]
      by (auto simp: staged_def io_bind_def intro: guarded_replace_after)
  qed
qed

lemma staged_then:
  assumes "staged r cmd m w" "\<And>a. io_within (emits calm) (k a)"
  shows "staged r cmd (io_bind m k) w"
proof -
  obtain res w1 where m: "m w = (res, w1)" by fastforce
  have "emits calm w1 (snd (io_bind m k w))"
    using assms(2) by (cases res) (auto simp: io_bind_def m io_within_def emits.refl)
  with assms(1) show ?thesis
    unfolding staged_def m by (auto intro: emits.trans guarded_replace_then)
qed

lemma staged_replace:
  assumes "QuotePartition sch (ps_PartitionID cmd) = Inr prt"
    and "refuseDuplicateCandidates (r_L r) cmd = Inr ()"
    and "lthashCombineHexAll (r_L r) (ps_BasePartitionRoot cmd) (candidateHashes cmd) = Inr post"
    and "partitionContentScan r (r_PromoteDatabase r) (CHTableName (ps_TableID cmd)) sch (ps_PartitionID cmd) w1 = (Inr (post, parts), w2)"
    and "distinct (map sh_RowLtHash parts)"
  shows "staged r cmd
    (io_bind (on_store r (\<lambda>wo. BeginPromotion wo (partition_of cmd) (promotionIntentFor cmd post before))) (\<lambda>_.
     exec r (ReplacePartition (r_SafeDatabase r @ ''.'' @ CHTableName (ps_TableID cmd)) prt
       (r_PromoteDatabase r @ ''.'' @ CHTableName (ps_TableID cmd))))) w2"
proof -
  let ?e = "ReplacePartition (r_SafeDatabase r @ ''.'' @ CHTableName (ps_TableID cmd)) prt
       (r_PromoteDatabase r @ ''.'' @ CHTableName (ps_TableID cmd))"
  obtain res w3 where store: "on_store r (\<lambda>wo. BeginPromotion wo (partition_of cmd) (promotionIntentFor cmd post before)) w2 = (res, w3)"
    by fastforce
  obtain res4 w4 where stmt: "exec r ?e w3 = (res4, w4)" by fastforce
  show ?thesis
  proof (cases res)
    case (Inl e)
    with store on_store_trace [OF store] show ?thesis by (simp add: staged_def io_bind_def emits_def)
  next
    case (Inr u)
    with store have "intent_journaled (partition_of cmd) cmd post (w_store w2) (w_store w3)"
      by (auto simp: on_store_Inr intro: BeginPromotion_journals)
    with Inr have "guarded_replace r cmd ?e w2 w4"
      using assms store stmt quiet.refl [of building w2] emits.refl [of calm w4]
      unfolding guarded_replace_def
      by (intro exI [of _ sch] exI [of _ prt] exI [of _ post] exI [of _ parts] exI [of _ before] exI [of _ w1] exI [of _ w2]
          exI [of _ w3] exI [of _ res4] exI [of _ w4]) simp
    with Inr store stmt show ?thesis by (auto simp: staged_def io_bind_def)
  qed
qed

lemma io_bind_assoc: "io_bind (io_bind m k) h = io_bind m (\<lambda>a. io_bind (k a) h)"
  by (rule ext) (auto simp: io_bind_def split: prod.splits sum.splits)

lemma emits_building_calm: "io_within (quiet building) m \<Longrightarrow> io_within (emits calm) m"
  unfolding io_within_def using quiet_building_calm by blast

lemma staged_buildAndReplace: "staged r cmd (buildAndReplace r cmd) w"
proof (cases "r_hasConn r")
  case False
  then show ?thesis by (simp add: buildAndReplace_def staged_calm)
next
  case True
  let ?t = "CHTableName (ps_TableID cmd)"
  have core: "staged r cmd (io_bind (on_store r (\<lambda>wo. BeginPromotion wo (partition_of cmd) (promotionIntentFor cmd post before))) (\<lambda>_.
      io_bind (exec r (ReplacePartition (r_SafeDatabase r @ ''.'' @ ?t) prt (r_PromoteDatabase r @ ''.'' @ ?t))) (\<lambda>_.
      io_bind (dropPartitionIfPresent r (r_PromoteDatabase r) ?t sch (ps_PartitionID cmd)) (\<lambda>_.
      io_bind (safeMappings r ?t sch cmd post) (\<lambda>mappings. io_return (post, mappings)))))) w2"
    if quoted: "QuotePartition sch (ps_PartitionID cmd) = Inr prt" and built: "buildShadow r cmd sch ?t prt w1 = (Inr (post, sb), w2)"
    for sch prt post before w1 w2 sb
  proof -
    from buildShadow_closed [OF built] obtain u parts where
      "refuseDuplicateCandidates (r_L r) cmd = Inr ()"
      "lthashCombineHexAll (r_L r) (ps_BasePartitionRoot cmd) (candidateHashes cmd) = Inr post"
      "partitionContentScan r (r_PromoteDatabase r) ?t sch (ps_PartitionID cmd) u = (Inr (post, parts), w2)"
      "distinct (map sh_RowLtHash parts)" by blast
    note replaced = staged_replace [OF quoted this, of before]
    have "io_within (emits calm) (io_bind (dropPartitionIfPresent r (r_PromoteDatabase r) ?t sch (ps_PartitionID cmd)) (\<lambda>_.
        io_bind (safeMappings r ?t sch cmd post) (\<lambda>mappings. io_return (post, mappings))))"
      by (intro emits_building_calm quiet.bind quiet_drop) auto
    from staged_then [OF replaced this] show ?thesis unfolding io_bind_assoc .
  qed
  show ?thesis
  proof (simp only: buildAndReplace_def Let_def True not_True_eq_False if_False,
      intro staged_bind quiet_reads quiet.pure quiet_buildShadow, goal_cases)
    case (1 sch u prt v pb w2)
    then show ?case by (cases pb) (auto intro!: core [simplified])
  qed
qed

section \<open>The other steps\<close>

text \<open>The steps outside a shadow build drop the shadow of the command's partition and send acknowledgements.\<close>

definition answering :: "('o, 'h) role \<Rightarrow> PromoteSafePartition \<Rightarrow> role_event \<Rightarrow> bool" where
  "answering r cmd e \<longleftrightarrow>
     (\<exists>ack. e = SendAck ack) \<or> e = DropPartition (r_PromoteDatabase r) (CHTableName (ps_TableID cmd)) (ps_PartitionID cmd)"

lemma answering_simps [simp]:
  "answering r cmd (SendAck ack)"
  "answering r cmd (DropPartition (r_PromoteDatabase r) (CHTableName (ps_TableID cmd)) (ps_PartitionID cmd))"
  by (simp_all add: answering_def)

lemma answering_calm: "answering r cmd e \<Longrightarrow> calm e"
  by (auto simp: answering_def)

lemma emits_send [intro]:
  "P (SendAck ack) \<Longrightarrow> io_within (emits P) (sendAck r ack)"
  "P (SendCleanupAck cack) \<Longrightarrow> io_within (emits P) (sendCleanupAck r cack)"
  by (auto intro: quiet_emits)

lemma quiet_reconcile [intro]:
  assumes "P (DropPartition (r_PromoteDatabase r) (CHTableName (ps_TableID cmd)) (ps_PartitionID cmd))"
  shows "io_within (quiet P) (reconcilePromotionIntent r cmd i)"
  unfolding reconcilePromotionIntent_def Let_def using assms by (auto intro!: quiet.bind quiet_drop)

lemma emits_finish [intro]: "io_within (emits (answering r cmd)) (finishAppliedPromotion r k cmd post mappings)"
  unfolding finishAppliedPromotion_def Let_def by (intro emits.bind) (auto intro: quiet_emits)

lemma quiet_refreshedAck [intro]: "io_within (quiet P) (refreshedAck r cmd ack)"
  unfolding refreshedAck_def by (auto intro!: quiet.bind)

lemma emits_resend [intro]: "io_within (emits (answering r cmd)) (resendStoredAck r k cmd ack)"
  unfolding resendStoredAck_def by (auto intro!: emits.bind intro: quiet_emits)

lemma quiet_countSettle [intro]: "io_within (quiet P) (countSettle r out)"
  unfolding countSettle_def
  by (rule quiet.bind) (simp, simp add: io_within_def quiet_def emits_def)

lemma emits_settleNotApplied [intro]: "io_within (emits (answering r cmd)) (settleNotApplied r k cmd)"
proof -
  have "io_within (quiet (answering r cmd)) (dropSettledShadow r cmd)"
    unfolding dropSettledShadow_def by (auto intro!: quiet.bind quiet_drop)
  then show ?thesis
    unfolding settleNotApplied_def Let_def
    by (auto intro!: emits.bind emits.attempt intro: quiet_emits split: prod.splits)
qed

lemma emits_answerSettle [intro]: "io_within (emits (answering r cmd)) (answerSettle r k cmd)"
  unfolding answerSettle_def
  by (auto intro!: emits.bind emits_finish emits_resend emits_settleNotApplied quiet_emits [OF quiet_countSettle]
      quiet_emits [OF quiet_reconcile] split: prod.splits option.splits)

lemma emits_calm_answering: "io_within (emits (answering r cmd)) m \<Longrightarrow> io_within (emits calm) m"
  unfolding io_within_def emits_def by (metis (mono_tags, lifting) answering_calm list.pred_mono_strong)

lemma emits_record_ack: "io_within (emits (answering r cmd)) (io_bind (on_store r run) (\<lambda>_. sendAck r ack))"
  by (intro emits.bind) auto

lemma staged_apply: "staged r cmd (applyPromotion r k cmd) w"
proof -
  have "staged r cmd (io_bind (buildAndReplace r cmd) (\<lambda>(post, mappings). finishAppliedPromotion r k cmd post mappings)) v" for v
    by (intro staged_then staged_buildAndReplace) (auto intro: emits_calm_answering split: prod.splits)
  moreover have "staged r cmd (io_bind (on_store r run) (\<lambda>_. sendAck r ack)) v" for run :: "unit state_run" and ack v
    by (rule staged_calm [OF emits_calm_answering [OF emits_record_ack]])
  ultimately show ?thesis
    unfolding applyPromotion_def Let_def by (intro staged_bind) (auto split: prod.splits)
qed

lemma guarded_replace_once:
  assumes "guarded_replace r cmd e w w'" "x \<in> set (new_events w w')" "replaces x"
  shows "x = e"
proof -
  from assms(1) obtain u2 u3 res u4 wo where "emits calm w u2" and store: "on_store r wo u2 = (Inr (), u3)"
    and stmt: "exec r e u3 = (res, u4)" and "emits calm u4 w'"
    unfolding guarded_replace_def by (blast intro: quiet_building_calm)
  moreover from stmt have "w_trace u4 = w_trace u3 @ [e]"
    by (auto simp: exec_def io_bind_def logged_def on_out_def split: prod.splits sum.splits)
  ultimately obtain es fs where "w_trace w' = w_trace w @ es @ e # fs" "list_all calm es" "list_all calm fs"
    using on_store_trace [OF store] by (auto simp: emits_def)
  with assms(2,3) show ?thesis by (auto simp: new_events_def list_all_iff)
qed

lemma emits_calm_new: "emits calm w w' \<Longrightarrow> x \<in> set (new_events w w') \<Longrightarrow> calm x"
  by (auto simp: emits_new list_all_iff)

section \<open>The branches of the handler\<close>

lemma requireOwned_pure: "requireOwned r tableID w = (res, w') \<Longrightarrow> w' = w"
  by (auto simp: requireOwned_def io_bind_def read_out_def split: if_splits option.splits prod.splits)

lemma handlePromote_cases:
  assumes "handlePromote r cmd jws settle w = (res, w')"
  obtains (ignored) "w' = w"
  | (settled) "r_AuthorizePromotion r cmd jws" "settle" "answerSettle r (partition_of cmd) cmd w = (res, w')"
  | (promoted) "r_AuthorizePromotion r cmd jws" "\<not> settle" "promoteLocked r (partition_of cmd) cmd w = (res, w')"
proof -
  obtain owned w1 where own: "requireOwned r (ps_TableID cmd) w = (owned, w1)" by fastforce
  with assms requireOwned_pure [OF own] that show ?thesis
    by (auto simp: handlePromote_def io_try_def split: sum.splits if_splits)
qed

abbreviation drops_shadow :: "('o, 'h) role \<Rightarrow> PromoteSafePartition \<Rightarrow> role_event \<Rightarrow> bool" where
  "drops_shadow r cmd e \<equiv> e = DropPartition (r_PromoteDatabase r) (CHTableName (ps_TableID cmd)) (ps_PartitionID cmd)"

lemma quiet_weaken: "quiet P w w' \<Longrightarrow> (\<And>e. P e \<Longrightarrow> Q e) \<Longrightarrow> quiet Q w w'"
  by (auto simp: quiet_def emits_def list_all_iff)

text \<open>Past the watermark, a pending intent is reconciled first; what follows it runs on the same journal.\<close>

lemma promoteLocked_cases:
  assumes "promoteLocked r k cmd w = (res, w')"
  obtains (stale) "ps_PromotionSeq cmd \<le> Watermark k (w_store w)" "w' = w"
  | (resend) ack where "ps_PromotionSeq cmd \<le> Watermark k (w_store w)" "LastAck k (w_store w) = Some ack"
      "pa_PromotionSeq ack = ps_PromotionSeq cmd" "resendStoredAck r k cmd ack w = (res, w')"
  | (failed) "Watermark k (w_store w) < ps_PromotionSeq cmd" "quiet (drops_shadow r cmd) w w'"
  | (finish) w1 post mappings where "Watermark k (w_store w) < ps_PromotionSeq cmd" "quiet (drops_shadow r cmd) w w1"
      "finishAppliedPromotion r k cmd post mappings w1 = (res, w')"
  | (apply_it) w1 where "Watermark k (w_store w) < ps_PromotionSeq cmd" "quiet (drops_shadow r cmd) w w1"
      "applyPromotion r k cmd w1 = (res, w')"
proof (cases "ps_PromotionSeq cmd \<le> Watermark k (w_store w)")
  case True
  with assms that(1,2) show ?thesis
    by (auto simp: promoteLocked_def io_bind_def read_store_def split: option.splits if_splits)
next
  case False
  then have lt: "Watermark k (w_store w) < ps_PromotionSeq cmd" by simp
  show ?thesis
  proof (cases "PendingPromotion k (w_store w)")
    case None
    with False assms have "applyPromotion r k cmd w = (res, w')"
      by (simp add: promoteLocked_def io_bind_def read_store_def)
    with that(5) [OF lt quiet.refl] show ?thesis .
  next
    case (Some i)
    obtain res1 w1 where rec: "reconcilePromotionIntent r cmd i w = (res1, w1)" by fastforce
    have q: "quiet (drops_shadow r cmd) w w1"
      by (rule io_withinD [OF quiet_reconcile rec]) simp
    from assms False Some rec that(3) [OF lt] that(4,5) [OF lt q] q show ?thesis
      by (auto simp: promoteLocked_def io_bind_def read_store_def split: sum.splits option.splits)
  qed
qed

lemma applyPromotion_cases:
  assumes "applyPromotion r k cmd w = (res, w')"
  obtains (refused) ack where "fst (BaseRoot k (w_store w)) \<noteq> ps_BasePartitionRoot cmd"
      "ack = refusedAck r cmd (casMismatchDetail (fst (BaseRoot k (w_store w))) (ps_BasePartitionRoot cmd))"
      "io_bind (on_store r (\<lambda>wo. RecordAck wo k (ps_PromotionSeq cmd) ack (fst (BaseRoot k (w_store w))) (snd (BaseRoot k (w_store w)))))
         (\<lambda>_. sendAck r ack) w = (res, w')"
  | (built) "fst (BaseRoot k (w_store w)) = ps_BasePartitionRoot cmd"
      "io_bind (buildAndReplace r cmd) (\<lambda>(post, mappings). finishAppliedPromotion r k cmd post mappings) w = (res, w')"
  using assms that by (auto simp: applyPromotion_def io_bind_def [of "read_store _"] read_store_def Let_def split: if_splits prod.splits)

lemma applyPromotion_noisy:
  assumes "applyPromotion r (partition_of cmd) cmd w = (res, w')" "\<not> emits calm w w'"
  shows "fst (BaseRoot (partition_of cmd) (w_store w)) = ps_BasePartitionRoot cmd \<and> (\<exists>e. guarded_replace r cmd e w w')"
  using assms(1)
proof (cases rule: applyPromotion_cases)
  case (refused ack)
  have "emits calm w w'" by (rule io_withinD [OF emits_calm_answering [OF emits_record_ack] refused(3)])
  with assms(2) show ?thesis ..
next
  case built
  with staged_apply [of r cmd "partition_of cmd" w] assms show ?thesis by (auto simp: staged_def)
qed

lemma promoteLocked_noisy:
  assumes "promoteLocked r (partition_of cmd) cmd w = (res, w')" "\<not> emits calm w w'"
  shows "Watermark (partition_of cmd) (w_store w) < ps_PromotionSeq cmd \<and>
    fst (BaseRoot (partition_of cmd) (w_store w)) = ps_BasePartitionRoot cmd \<and> (\<exists>e. guarded_replace r cmd e w w')"
proof -
  have drops: "quiet building w w1" if "quiet (drops_shadow r cmd) w w1" for w1
    using that by (rule quiet_weaken) simp
  note calmly = io_withinD [OF emits_calm_answering]
  from assms(1) show ?thesis
  proof (cases rule: promoteLocked_cases)
    case (apply_it w1)
    have "emits calm w w1" by (rule quiet_building_calm [OF drops [OF apply_it(2)]])
    with assms(2) have "\<not> emits calm w1 w'" using emits.trans by blast
    from applyPromotion_noisy [OF apply_it(3) this] obtain e where
      "fst (BaseRoot (partition_of cmd) (w_store w1)) = ps_BasePartitionRoot cmd" "guarded_replace r cmd e w1 w'" by blast
    with apply_it(1,2) guarded_replace_after [OF drops [OF apply_it(2)] this(2)] show ?thesis by (auto simp: quiet_def)
  next
    case (finish w1 post mappings)
    with assms(2) emits.trans [OF quiet_building_calm [OF drops [OF finish(2)]] calmly [OF emits_finish finish(3)]]
    show ?thesis by simp
  next
    case (resend ack)
    with assms(2) calmly [OF emits_resend resend(4)] show ?thesis by simp
  next
    case failed
    with assms(2) quiet_building_calm [OF drops [OF failed(2)]] show ?thesis by simp
  qed (use assms(2) in \<open>simp add: emits.refl\<close>)
qed

section \<open>Properties\<close>

text \<open>
  C1. When hg_safe is replaced. A promotion handler issues REPLACE PARTITION only for an authorized command that is not
  streamed to settle, is past the partition's watermark and names the partition's base root; then it issues exactly one.
  Right before it, with only the journal write in between, the shadow was scanned to the root base plus candidates with
  no two parts of equal content, and the intent of the command is journaled: it is in memory, and in the file too if the
  file agreed with memory on the partition's intent before.
\<close>

theorem replace_is_guarded:
  assumes "handlePromote r cmd jws settle w = (res, w')" "e \<in> set (new_events w w')" "replaces e"
  shows "\<not> settle \<and> r_AuthorizePromotion r cmd jws \<and> Watermark (partition_of cmd) (w_store w) < ps_PromotionSeq cmd \<and>
    fst (BaseRoot (partition_of cmd) (w_store w)) = ps_BasePartitionRoot cmd \<and> guarded_replace r cmd e w w'"
  using assms(1)
proof (cases rule: handlePromote_cases)
  case promoted
  have "\<not> emits calm w w'" using emits_calm_new assms(2,3) by blast
  from promoteLocked_noisy [OF promoted(3) this] obtain e' where "guarded_replace r cmd e' w w'"
    and rest: "Watermark (partition_of cmd) (w_store w) < ps_PromotionSeq cmd" "fst (BaseRoot (partition_of cmd) (w_store w)) = ps_BasePartitionRoot cmd"
    by blast
  with guarded_replace_once [OF _ assms(2,3)] promoted(1,2) show ?thesis by blast
next
  case settled
  with io_withinD [OF emits_calm_answering [OF emits_answerSettle] settled(3)] emits_calm_new assms(2,3) show ?thesis by blast
qed (use assms(2) in \<open>simp add: new_events_def\<close>)

text \<open>
  C37. The settle answer. Whatever a settle-streamed command finds, its handler only drops the partition's shadow and sends
  acknowledgements: it attaches nothing, replaces nothing and drops no part of hg_safe or hg_unsafe.
\<close>

theorem settle_never_publishes:
  assumes "handlePromote r cmd jws True w = (res, w')" "e \<in> set (new_events w w')"
  shows "(\<exists>ack. e = SendAck ack) \<or> e = DropPartition (r_PromoteDatabase r) (CHTableName (ps_TableID cmd)) (ps_PartitionID cmd)"
  using assms(1)
proof (cases rule: handlePromote_cases)
  case settled
  from io_withinD [OF emits_answerSettle settled(3)] assms(2) show ?thesis
    by (auto simp: emits_new list_all_iff answering_def)
qed (use assms(2) in \<open>auto simp: new_events_def\<close>)

end
