(* ===== verification/Promote_Once.thy ===== *)
theory Promote_Once
  imports Promote_Safety
begin

text \<open>
  Acknowledgements and redelivery: an acknowledgement is journaled before it is sent, so a command delivered again, also
  after a crash, is answered from the journal and applied at most once; and a handler changes only its own partition.
\<close>

section \<open>What the journal writes leave\<close>

definition synced :: "stateStore \<Rightarrow> bool" where
  "synced st \<longleftrightarrow> st_disk st = Some (st_mem st)"

lemma persist_ok: "persistStateLocked wo nxt st = (Inr (), st') \<longleftrightarrow> wo = WriteOK \<and> st' = st\<lparr>st_mem := nxt, st_disk := Some nxt\<rparr>"
  by (auto simp: persistStateLocked_def split: write_outcome.splits)

text \<open>The acknowledgement \<open>ack\<close> of sequence \<open>seq\<close> is the stored one.\<close>

definition stored :: "partitionKey \<Rightarrow> PromotionAck \<Rightarrow> stateStore \<Rightarrow> bool" where
  "stored k ack st \<longleftrightarrow> LastAck k st = Some ack \<and> pa_PromotionSeq ack \<le> Watermark k st"

lemma RecordAck_stores:
  "RecordAck wo k (pa_PromotionSeq ack) ack r i st = (Inr (), st') \<Longrightarrow> stored k ack st' \<and> synced st'"
  by (auto simp: RecordAck_def persist_ok withAck_def stored_def LastAck_def Watermark_def synced_def)

lemma RecordSettled_stores:
  "RecordSettledNotApplied wo k (pa_PromotionSeq ack) ack r i st = (Inr (), st') \<Longrightarrow> stored k ack st' \<and> synced st'"
  by (auto simp: RecordSettledNotApplied_def Let_def persist_ok withAck_def stored_def LastAck_def Watermark_def synced_def
      split: option.splits if_splits)

lemma recordAcked_keeps [simp]:
  "LastAcks (recordAckedSafeInventory ks ack s) = LastAcks s" "Watermarks (recordAckedSafeInventory ks ack s) = Watermarks s"
  by (auto simp: recordAckedSafeInventory_def Let_def)

lemma RecordApplied_stores:
  "RecordAppliedPromotion L wo k (pa_PromotionSeq ack) ack root snap hs ns st = (Inr (), st') \<Longrightarrow> stored k ack st' \<and> synced st'"
  by (auto simp: RecordAppliedPromotion_def Let_def persist_ok stored_def LastAck_def Watermark_def synced_def
      split: sum.splits if_splits)

lemma RecordRefreshed_stores:
  "RecordRefreshedAck wo k ack st = (Inr (), st') \<Longrightarrow> stored k ack st' \<and> synced st'"
  by (auto simp: RecordRefreshedAck_def Let_def persist_ok stored_def LastAck_def Watermark_def synced_def
      split: option.splits if_splits)

lemma BeginPromotion_synced: "BeginPromotion wo k i st = (Inr (), st') \<Longrightarrow> synced st \<Longrightarrow> synced st'"
  by (auto simp: BeginPromotion_def Let_def persist_ok synced_def split: option.splits if_splits)

section \<open>Answers\<close>

text \<open>Every acknowledgement sent between two worlds is the stored one of the later world.\<close>

definition answers :: "partitionKey \<Rightarrow> u64 \<Rightarrow> 'o world \<Rightarrow> 'o world \<Rightarrow> bool" where
  "answers k seq w w' \<longleftrightarrow>
     (\<exists>es. w_trace w' = w_trace w @ es \<and>
        (\<forall>ack. SendAck ack \<in> set es \<longrightarrow>
           stored k ack (w_store w') \<and> pa_PromotionSeq ack = seq \<and> (synced (w_store w) \<longrightarrow> synced (w_store w'))))"

abbreviation silent :: "role_event \<Rightarrow> bool" where
  "silent e \<equiv> \<not> sends e"

lemma answers_silent: "emits silent w w' \<Longrightarrow> answers k seq w w'"
  by (force simp: emits_def answers_def list_all_iff)

lemma answers_after:
  assumes "emits silent w w1" "synced (w_store w) \<Longrightarrow> synced (w_store w1)" "answers k seq w1 w'"
  shows "answers k seq w w'"
proof -
  from assms(1) obtain es where es: "w_trace w1 = w_trace w @ es" "\<forall>e \<in> set es. silent e" by (auto simp: emits_def list_all_iff)
  from assms(3) obtain fs where fs: "w_trace w' = w_trace w1 @ fs" "\<forall>ack. SendAck ack \<in> set fs \<longrightarrow>
      stored k ack (w_store w') \<and> pa_PromotionSeq ack = seq \<and> (synced (w_store w1) \<longrightarrow> synced (w_store w'))"
    by (auto simp: answers_def)
  have "SendAck ack \<notin> set es" for ack using es(2) by force
  with es(1) fs assms(2) show ?thesis by (auto simp: answers_def intro!: exI [of _ "es @ fs"])
qed

lemma answers_quiet_after: "quiet silent w w1 \<Longrightarrow> answers k seq w1 w' \<Longrightarrow> answers k seq w w'"
  by (rule answers_after) (auto simp: quiet_def)

lemma answers_then:
  assumes "answers k seq w w1" "quiet silent w1 w'"
  shows "answers k seq w w'"
proof -
  from assms(2) obtain es where es: "w_trace w' = w_trace w1 @ es" "\<forall>e \<in> set es. silent e" "w_store w' = w_store w1"
    by (auto simp: quiet_def emits_def list_all_iff)
  have "SendAck ack \<notin> set es" for ack using es(2) by force
  with assms(1) es(1,3) show ?thesis by (auto simp: answers_def)
qed

lemma answers_send:
  assumes "sendAck r ack w = (res, w')" "stored k ack (w_store w)" "pa_PromotionSeq ack = seq"
  shows "answers k seq w w'"
proof -
  have "quiet (\<lambda>e. e = SendAck ack) w w'" by (rule io_withinD [OF quiet_send(1) assms(1)]) simp
  with assms(2,3) show ?thesis by (auto simp: quiet_def emits_def list_all_iff answers_def)
qed

text \<open>A write that stores the acknowledgement, silent steps, and the send.\<close>

lemma answers_record:
  assumes run: "io_bind (on_store r write) (\<lambda>_. io_bind m (\<lambda>_. sendAck r ack)) w = (res, w')"
    and stores: "\<And>wo st st'. write wo st = (Inr (), st') \<Longrightarrow> stored k ack st' \<and> synced st'"
    and m: "io_within (quiet silent) m" and seq: "pa_PromotionSeq ack = seq"
  shows "answers k seq w w'"
  using run
proof (cases rule: io_bind_cases)
  case (fail e)
  then show ?thesis by (intro answers_silent) (simp add: emits_def)
next
  case (ok u w1)
  from ok(1) stores have st: "stored k ack (w_store w1)" "synced (w_store w1)" by (auto simp: on_store_Inr)
  from ok(2) have "answers k seq w1 w'"
  proof (cases rule: io_bind_cases)
    case (fail e)
    then show ?thesis using io_withinD [OF m] by (intro answers_silent) (auto simp: quiet_def)
  next
    case (ok v w2)
    have q: "quiet silent w1 w2" by (rule io_withinD [OF m ok(1)])
    then have "stored k ack (w_store w2)" using st by (simp add: quiet_def)
    from answers_quiet_after [OF q answers_send [OF ok(2) this seq]] show ?thesis .
  qed
  moreover have "emits silent w w1" using on_store_trace [OF ok(1)] by (simp add: emits_def)
  ultimately show ?thesis using st(2) answers_after by blast
qed

lemma io_return_bind [simp]: "io_bind (io_return a) k = k a"
  by (rule ext) (simp add: io_bind_def)

lemma io_try_const: "io_try m (\<lambda>_. h) = io_bind (io_try m (\<lambda>_. io_return ())) (\<lambda>_. h)"
  by (rule ext) (auto simp: io_try_def io_bind_def split: prod.splits)

lemma answers_finish: "finishAppliedPromotion r k cmd post mappings w = (res, w') \<Longrightarrow> answers k (ps_PromotionSeq cmd) w w'"
  unfolding finishAppliedPromotion_def Let_def
  by (erule answers_record) (auto simp: appliedAck_def dest: RecordApplied_stores [where ack = "appliedAck r cmd post mappings", unfolded appliedAck_def, simplified])

lemma answers_refused:
  assumes "io_bind (on_store r (\<lambda>wo. RecordAck wo k (ps_PromotionSeq cmd) (refusedAck r cmd why) root snap)) (\<lambda>_. sendAck r (refusedAck r cmd why)) w
     = (res, w')"
  shows "answers k (ps_PromotionSeq cmd) w w'"
proof (rule answers_record [where m = "io_return ()"])
  show "stored k (refusedAck r cmd why) st' \<and> synced st'"
    if "RecordAck wo k (ps_PromotionSeq cmd) (refusedAck r cmd why) root snap st = (Inr (), st')" for wo st st'
    using that RecordAck_stores [of wo k "refusedAck r cmd why" root snap st st'] by (simp add: refusedAck_def)
qed (use assms in \<open>auto simp: refusedAck_def\<close>)

lemma quiet_dropSettled: "io_within (quiet silent) (io_try (dropSettledShadow r cmd) (\<lambda>_. io_return ()))"
proof -
  have "io_within (quiet building) (dropSettledShadow r cmd)"
    unfolding dropSettledShadow_def by (auto intro!: quiet.bind quiet_drop)
  then show ?thesis by (intro quiet.attempt quiet_mono [where P = building and Q = silent]) auto
qed

lemma answers_settleNotApplied:
  assumes "settleNotApplied r k cmd w = (res, w')"
  shows "answers k (ps_PromotionSeq cmd) w w'"
proof -
  let ?ack = "refusedAck r cmd (settleNotAppliedDetail (ps_PromotionSeq cmd))"
  obtain root snap where root: "BaseRoot k (w_store w) = (root, snap)" by fastforce
  let ?journal = "on_store r (\<lambda>wo. RecordSettledNotApplied wo k (ps_PromotionSeq cmd) ?ack root snap)"
  let ?answer = "io_bind ?journal (\<lambda>_. io_bind (io_try (dropSettledShadow r cmd) (\<lambda>_. io_return ())) (\<lambda>_. sendAck r ?ack))"
  from assms root have run: "io_bind ?answer (\<lambda>_. countSettle r SettleNotApplied) w = (res, w')"
    unfolding settleNotApplied_def io_bind_assoc
    by (subst (asm) io_try_const) (simp add: io_bind_def [of "read_store _"] read_store_def Let_def)
  have sent: "answers k (ps_PromotionSeq cmd) w w1" if "?answer w = (res1, w1)" for res1 w1
  proof (rule answers_record [OF that _ quiet_dropSettled])
    show "stored k ?ack st' \<and> synced st'"
      if "RecordSettledNotApplied wo k (ps_PromotionSeq cmd) ?ack root snap st = (Inr (), st')" for wo st st'
      using that RecordSettled_stores [of wo k ?ack root snap st st'] by (simp add: refusedAck_def)
  qed (simp add: refusedAck_def)
  from run show ?thesis
  proof (cases rule: io_bind_cases)
    case (ok u w1)
    from answers_then [OF sent [OF ok(1)] io_withinD [OF quiet_countSettle ok(2)]] show ?thesis .
  qed (use sent in blast)
qed

lemma refreshedAck_seq: "refreshedAck r cmd ack w = (Inr ack', w') \<Longrightarrow> pa_PromotionSeq ack' = pa_PromotionSeq ack"
  by (auto simp: refreshedAck_def io_bind_Inr)

lemma answers_resend:
  assumes run: "resendStoredAck r k cmd ack w = (res, w')" and "stored k ack (w_store w)" "pa_PromotionSeq ack = seq"
  shows "answers k seq w w'"
proof (cases "pa_Applied ack \<and> pa_SafePartitionParts ack = []")
  case False
  with run have "sendAck r ack w = (res, w')" by (auto simp: resendStoredAck_def)
  from answers_send [OF this assms(2,3)] show ?thesis .
next
  case True
  with run have "io_bind (refreshedAck r cmd ack) (\<lambda>ack'. io_bind (on_store r (\<lambda>wo. RecordRefreshedAck wo k ack')) (\<lambda>_. sendAck r ack')) w = (res, w')"
    by (simp add: resendStoredAck_def)
  then show ?thesis
  proof (cases rule: io_bind_cases)
    case (fail e)
    from io_withinD [OF quiet_refreshedAck fail(1), of silent] show ?thesis by (intro answers_silent) (simp add: quiet_def)
  next
    case (ok ack' w1)
    from ok(2) have sent: "io_bind (on_store r (\<lambda>wo. RecordRefreshedAck wo k ack')) (\<lambda>_. io_bind (io_return ()) (\<lambda>_. sendAck r ack')) w1 = (res, w')"
      by simp
    have "answers k seq w1 w'"
      by (rule answers_record [OF sent RecordRefreshed_stores]) (use refreshedAck_seq [OF ok(1)] assms(3) in auto)
    with io_withinD [OF quiet_refreshedAck ok(1)] show ?thesis by (rule answers_quiet_after)
  qed
qed

section \<open>Every answer is journaled\<close>

lemma emits_building_silent: "io_within (quiet building) m \<Longrightarrow> io_within (emits silent) m"
  by (rule quiet_emits, erule quiet_mono) simp

text \<open>A successful step keeps the file equal to memory.\<close>

definition keeps_sync :: "('o, 'a) act \<Rightarrow> bool" where
  "keeps_sync m \<longleftrightarrow> (\<forall>w a w'. m w = (Inr a, w') \<longrightarrow> synced (w_store w) \<longrightarrow> synced (w_store w'))"

lemma keeps_syncD: "keeps_sync m \<Longrightarrow> m w = (Inr a, w') \<Longrightarrow> synced (w_store w) \<Longrightarrow> synced (w_store w')"
  unfolding keeps_sync_def by blast

lemma keeps_sync_quiet: "io_within (quiet P) m \<Longrightarrow> keeps_sync m"
  unfolding keeps_sync_def using io_withinD by (fastforce simp: quiet_def)

lemma keeps_sync_bind: "keeps_sync m \<Longrightarrow> (\<And>a. keeps_sync (k a)) \<Longrightarrow> keeps_sync (io_bind m k)"
  by (auto simp: keeps_sync_def io_bind_Inr)

lemma keeps_sync_begin: "keeps_sync (on_store r (\<lambda>wo. BeginPromotion wo k i))"
  by (auto simp: keeps_sync_def on_store_Inr dest: BeginPromotion_synced)

lemma buildAndReplace_silent: "io_within (emits silent) (buildAndReplace r cmd)"
  unfolding buildAndReplace_def Let_def
  by (auto intro!: emits.bind emits_building_silent [OF quiet_buildShadow] quiet_emits [OF quiet_exec] quiet_emits [OF quiet_drop]
      quiet_emits [OF quiet_reads(5)] quiet_emits [OF quiet_shadow_reads(1)] split: prod.splits)

lemma buildAndReplace_sync: "keeps_sync (buildAndReplace r cmd)"
  unfolding buildAndReplace_def Let_def
  by (auto intro!: keeps_sync_bind keeps_sync_begin keeps_sync_quiet [OF quiet_buildShadow] keeps_sync_quiet [OF quiet_exec [where P = "\<lambda>_. True"]]
      keeps_sync_quiet [OF quiet_drop [where P = "\<lambda>_. True"]] keeps_sync_quiet [OF quiet_reads(5)] keeps_sync_quiet [OF quiet_shadow_reads(1)]
      keeps_sync_quiet [OF quiet.pure(1)] keeps_sync_quiet [OF quiet.pure(2)] keeps_sync_quiet [OF quiet.pure(3)] split: prod.splits)

lemma answers_apply:
  assumes "applyPromotion r k cmd w = (res, w')"
  shows "answers k (ps_PromotionSeq cmd) w w'"
  using assms
proof (cases rule: applyPromotion_cases)
  case (refused ack)
  then show ?thesis by (auto intro: answers_refused)
next
  case built
  from this(2) show ?thesis
  proof (cases rule: io_bind_cases)
    case (fail e)
    from io_withinD [OF buildAndReplace_silent fail(1)] show ?thesis by (rule answers_silent)
  next
    case (ok a w1)
    obtain post mappings where a: "a = (post, mappings)" by fastforce
    with ok(2) have "finishAppliedPromotion r k cmd post mappings w1 = (res, w')" by simp
    with io_withinD [OF buildAndReplace_silent ok(1)] keeps_syncD [OF buildAndReplace_sync ok(1)] show ?thesis
      by (intro answers_after [OF _ _ answers_finish])
  qed
qed

lemma answers_promoteLocked:
  assumes "promoteLocked r k cmd w = (res, w')"
  shows "answers k (ps_PromotionSeq cmd) w w'"
proof -
  have drops: "quiet silent w w1" if "quiet (drops_shadow r cmd) w w1" for w1 using that by (rule quiet_weaken) simp
  from assms show ?thesis
  proof (cases rule: promoteLocked_cases)
    case stale
    then show ?thesis by (auto intro: answers_silent emits.refl)
  next
    case (resend ack)
    then have "stored k ack (w_store w)" by (simp add: stored_def)
    from answers_resend [OF resend(4) this resend(3)] show ?thesis .
  next
    case failed
    from drops [OF failed(2)] show ?thesis by (intro answers_silent) (simp add: quiet_def)
  next
    case (finish w1 post mappings)
    from answers_quiet_after [OF drops [OF finish(2)] answers_finish [OF finish(3)]] show ?thesis .
  next
    case (apply_it w1)
    from answers_quiet_after [OF drops [OF apply_it(2)] answers_apply [OF apply_it(3)]] show ?thesis .
  qed
qed

lemma answers_answerSettle:
  assumes "answerSettle r k cmd w = (res, w')"
  shows "answers k (ps_PromotionSeq cmd) w w'"
proof -
  have count: "answers k (ps_PromotionSeq cmd) w w'"
    if "io_bind m (\<lambda>_. countSettle r out) w = (res, w')" "\<And>res1 w1. m w = (res1, w1) \<Longrightarrow> answers k (ps_PromotionSeq cmd) w w1"
    for m :: "('a, unit) act" and out w
    using that(1)
  proof (cases rule: io_bind_cases)
    case (ok u w1)
    from answers_then [OF that(2) [OF ok(1)] io_withinD [OF quiet_countSettle ok(2)]] show ?thesis .
  qed (use that(2) in blast)
  have unanswerable: "answers k (ps_PromotionSeq cmd) w w'" if "countSettle r out w = (res, w')" for out
    using io_withinD [OF quiet_countSettle that, of silent] by (intro answers_silent) (simp add: quiet_def)
  show ?thesis
  proof (cases "ps_PromotionSeq cmd \<le> Watermark k (w_store w)")
    case True
    with assms unanswerable show ?thesis
      by (auto simp: answerSettle_def io_bind_def [of "read_store _"] read_store_def stored_def intro!: count answers_resend
          split: option.splits if_splits)
  next
    case False
    show ?thesis
    proof (cases "PendingPromotion k (w_store w)")
      case None
      with False assms have "settleNotApplied r k cmd w = (res, w')"
        by (simp add: answerSettle_def io_bind_def [of "read_store _"] read_store_def)
      then show ?thesis by (rule answers_settleNotApplied)
    next
      case (Some i)
      with False assms have "io_bind (reconcilePromotionIntent r cmd i) (\<lambda>published.
          case published of
            Some (post, mappings) \<Rightarrow> io_bind (finishAppliedPromotion r k cmd post mappings) (\<lambda>_. countSettle r SettleReconciled)
          | None \<Rightarrow> settleNotApplied r k cmd) w = (res, w')"
        by (simp add: answerSettle_def io_bind_def [of "read_store _"] read_store_def)
      then show ?thesis
      proof (cases rule: io_bind_cases)
        case (fail e)
        have "quiet building w w'" by (rule io_withinD [OF quiet_reconcile fail(1)]) simp
        then show ?thesis by (intro answers_silent) (auto simp: quiet_def emits_def list_all_iff)
      next
        case (ok published w1)
        have "quiet building w w1" by (rule io_withinD [OF quiet_reconcile ok(1)]) simp
        then have "quiet silent w w1" by (rule quiet_weaken) simp
        moreover from ok(2) have "answers k (ps_PromotionSeq cmd) w1 w'"
          by (cases published) (auto intro: answers_settleNotApplied count answers_finish)
        ultimately show ?thesis by (rule answers_quiet_after)
      qed
    qed
  qed
qed

lemma answers_handlePromote:
  "handlePromote r cmd jws settle w = (res, w') \<Longrightarrow> answers (partition_of cmd) (ps_PromotionSeq cmd) w w'"
  by (erule handlePromote_cases) (auto intro: answers_silent emits.refl answers_answerSettle answers_promoteLocked)

lemma answersD:
  "answers k seq w w' \<Longrightarrow> SendAck ack \<in> set (new_events w w') \<Longrightarrow>
     stored k ack (w_store w') \<and> pa_PromotionSeq ack = seq \<and> (synced (w_store w) \<longrightarrow> synced (w_store w'))"
  by (auto simp: answers_def new_events_def)


section \<open>Redelivery\<close>

text \<open>A crash and restart: memory is read back from the file, the audit and the counters start afresh, and the outside goes on.\<close>

definition crash :: "'o \<Rightarrow> ownerAuditState \<Rightarrow> settleCounters \<Rightarrow> 'o world \<Rightarrow> 'o world" where
  "crash s a c w = w\<lparr>w_store := openStateStore (st_disk (w_store w)), w_audit := a, w_settle := c, w_out := s\<rparr>"

text \<open>Nothing but the stored acknowledgement and the audit's inventory may differ.\<close>

definition same_ledger :: "localState \<Rightarrow> localState \<Rightarrow> bool" where
  "same_ledger s s' \<longleftrightarrow> s\<lparr>LastAcks := LastAcks s', AckedSafeInventories := AckedSafeInventories s'\<rparr> = s'"

definition resends :: "'o world \<Rightarrow> 'o world \<Rightarrow> bool" where
  "resends w w' \<longleftrightarrow>
     emits (\<lambda>e. \<exists>ack. e = SendAck ack) w w' \<and> same_ledger (st_mem (w_store w)) (st_mem (w_store w'))"

interpretation resends: effect resends
proof
  show "resends w w" for w :: "'o world" by (simp add: resends_def emits_refl same_ledger_def)
  show "resends u w" if "resends u v" "resends v w" for u v w :: "'o world"
    using that emits_trans [of _ u v w] by (cases "st_mem (w_store u)"; cases "st_mem (w_store v)"; cases "st_mem (w_store w)")
      (auto simp: resends_def same_ledger_def)
qed

lemma resends_quiet: "io_within (quiet (\<lambda>e. \<exists>ack. e = SendAck ack)) m \<Longrightarrow> io_within resends m"
  by (auto simp: io_within_def quiet_def resends_def same_ledger_def)

lemma recordAcked_same: "same_ledger s (recordAckedSafeInventory ks ack s)"
  by (cases s) (auto simp: recordAckedSafeInventory_def same_ledger_def Let_def)

lemma same_ledger_ack: "same_ledger s (s\<lparr>LastAcks := m\<rparr>)" "same_ledger s (recordAckedSafeInventory ks ack (s\<lparr>LastAcks := m\<rparr>))"
  by (cases s; auto simp: recordAckedSafeInventory_def same_ledger_def Let_def)+

lemma RecordRefreshed_same: "same_ledger (st_mem st) (st_mem (snd (RecordRefreshedAck wo k ack st)))"
proof -
  have "same_ledger s s" for s by (simp add: same_ledger_def)
  then show ?thesis
    by (auto simp: RecordRefreshedAck_def Let_def persistStateLocked_def same_ledger_ack split: option.splits write_outcome.splits)
qed

lemma on_store_snd:
  "w_store (snd (on_store r run w)) = snd (run (fst (r_disk r (w_out w))) (w_store w))" "w_trace (snd (on_store r run w)) = w_trace w"
  "w_intake (snd (on_store r run w)) = w_intake w"
  by (simp_all add: on_store_def split: prod.splits)

lemma resends_refresh: "io_within resends (on_store r (\<lambda>wo. RecordRefreshedAck wo k ack))"
  by (simp add: io_within_def resends_def emits_def on_store_snd RecordRefreshed_same)

lemma resends_resend: "io_within resends (resendStoredAck r k cmd ack)"
  unfolding resendStoredAck_def
  by (auto intro!: resends.bind resends_quiet [OF quiet_refreshedAck] resends_refresh resends_quiet [OF quiet_send(1)])

text \<open>A command at or below the watermark is answered from the journal and changes nothing else.\<close>

lemma stale_command_resends:
  assumes run: "handlePromote r cmd jws settle w = (res, w')" and stale: "ps_PromotionSeq cmd \<le> Watermark (partition_of cmd) (w_store w)"
  shows "resends w w'"
  using run
proof (cases rule: handlePromote_cases)
  case ignored
  then show ?thesis by (simp add: resends.refl)
next
  case settled
  from settled(3) stale show ?thesis
    using io_withinD [OF resends.bind [OF resends_resend resends_quiet [OF quiet_countSettle]]] io_withinD [OF resends_quiet [OF quiet_countSettle]]
    by (auto simp: answerSettle_def io_bind_def [of "read_store _"] read_store_def split: option.splits if_splits)
next
  case promoted
  from promoted(3) show ?thesis
    by (cases rule: promoteLocked_cases) (use stale in \<open>auto intro: resends.refl io_withinD [OF resends_resend]\<close>)
qed

text \<open>
  C2. Applied once. After a handler acknowledged a command, the same command delivered again, to settle or not, after a
  crash with any outside state and audit, issues no ClickHouse statement: it only sends acknowledgements of that sequence, and
  watermarks, base roots, unpromoted sums, intents, promoted parts, intake and owed acknowledgements stay as they are.
\<close>

theorem promotion_applied_once:
  assumes "handlePromote r cmd jws settle w = (res, w1)" "SendAck ack \<in> set (new_events w w1)" "synced (w_store w)"
    and "handlePromote r cmd jws' settle' (crash s a c w1) = (res', w2)"
  shows "(\<forall>e \<in> set (new_events w1 w2). \<exists>ack'. e = SendAck ack' \<and> pa_PromotionSeq ack' = ps_PromotionSeq cmd) \<and>
    same_ledger (st_mem (w_store w1)) (st_mem (w_store w2))"
proof -
  from answersD [OF answers_handlePromote [OF assms(1)] assms(2)] assms(3)
  have st: "stored (partition_of cmd) ack (w_store w1)" "pa_PromotionSeq ack = ps_PromotionSeq cmd" "synced (w_store w1)" by auto
  then have same: "w_store (crash s a c w1) = w_store w1"
    by (cases "w_store w1") (simp add: crash_def openStateStore_def readLocalState_def synced_def)
  have "new_events (crash s a c w1) w2 = new_events w1 w2" by (simp add: new_events_def crash_def)
  moreover have "ps_PromotionSeq cmd \<le> Watermark (partition_of cmd) (w_store (crash s a c w1))"
    using st(1,2) same by (simp add: stored_def)
  from stale_command_resends [OF assms(4) this] same
  have "emits (\<lambda>e. \<exists>ack. e = SendAck ack) (crash s a c w1) w2" "same_ledger (st_mem (w_store w1)) (st_mem (w_store w2))"
    by (simp_all add: resends_def)
  ultimately show ?thesis
    using answersD [OF answers_handlePromote [OF assms(4)]] by (fastforce simp: emits_new list_all_iff)
qed

section \<open>One partition\<close>

text \<open>The journal entries of the other partitions, and the entries no promotion writes, stay; the watermark stays or becomes \<open>seq\<close>.\<close>

definition same_elsewhere :: "string \<Rightarrow> localState \<Rightarrow> localState \<Rightarrow> bool" where
  "same_elsewhere ks s s' \<longleftrightarrow>
     (\<forall>ks'. ks' \<noteq> ks \<longrightarrow>
        fmlookup (Watermarks s') ks' = fmlookup (Watermarks s) ks' \<and> fmlookup (LastAcks s') ks' = fmlookup (LastAcks s) ks' \<and>
        fmlookup (BaseRoots s') ks' = fmlookup (BaseRoots s) ks' \<and> fmlookup (BaseSnapshotIDs s') ks' = fmlookup (BaseSnapshotIDs s) ks' \<and>
        fmlookup (UnpromotedSums s') ks' = fmlookup (UnpromotedSums s) ks' \<and>
        fmlookup (PromotedUnsafeParts s') ks' = fmlookup (PromotedUnsafeParts s) ks' \<and>
        fmlookup (PromotionIntents s') ks' = fmlookup (PromotionIntents s) ks' \<and>
        fmlookup (AckedSafeInventories s') ks' = fmlookup (AckedSafeInventories s) ks') \<and>
     IntakeParts s' = IntakeParts s \<and> RegistrationSeq s' = RegistrationSeq s \<and> OwedCleanupAcks s' = OwedCleanupAcks s"

definition touches :: "partitionKey \<Rightarrow> u64 \<Rightarrow> 'o world \<Rightarrow> 'o world \<Rightarrow> bool" where
  "touches k seq w w' \<longleftrightarrow>
     same_elsewhere (pkey k) (st_mem (w_store w)) (st_mem (w_store w')) \<and>
     Watermark k (w_store w') \<in> {Watermark k (w_store w), seq}"

interpretation touches: effect "touches k seq" for k seq
  by unfold_locales (auto simp: touches_def same_elsewhere_def)

lemma touches_quiet: "io_within (quiet P) m \<Longrightarrow> io_within (touches k seq) m"
  by (auto simp: io_within_def quiet_def touches_def same_elsewhere_def)

text \<open>A write whose planned state stays within the partition.\<close>

lemma touches_store:
  assumes "\<And>wo st. same_elsewhere (pkey k) (st_mem st) (st_mem (snd (run wo st))) \<and> Watermark k (snd (run wo st)) \<in> {Watermark k st, seq}"
  shows "io_within (touches k seq) (on_store r run)"
  using assms by (simp add: io_within_def touches_def on_store_snd)

lemma same_elsewhere_refl [simp]: "same_elsewhere ks s s"
  by (simp add: same_elsewhere_def)

lemma touches_begin: "io_within (touches k seq) (on_store r (\<lambda>wo. BeginPromotion wo k i))"
  by (rule touches_store)
    (auto simp: BeginPromotion_def Let_def persistStateLocked_def same_elsewhere_def Watermark_def split: option.splits write_outcome.splits)

lemma withAck_elsewhere: "same_elsewhere ks s (withAck ks seq ack root snap s)" "fmget 0 (Watermarks (withAck ks seq ack root snap s)) ks = seq"
  by (auto simp: withAck_def same_elsewhere_def fmget_def split: option.splits)

lemma touches_record: "io_within (touches k seq) (on_store r (\<lambda>wo. RecordAck wo k seq ack root snap))"
  by (rule touches_store)
    (auto simp: RecordAck_def persistStateLocked_def withAck_elsewhere Watermark_def split: write_outcome.splits)

lemma touches_settled: "io_within (touches k seq) (on_store r (\<lambda>wo. RecordSettledNotApplied wo k seq ack root snap))"
  using withAck_elsewhere [where ks = "pkey k" and seq = seq and ack = ack and root = root and snap = snap]
  by (intro touches_store)
    (auto simp: RecordSettledNotApplied_def Let_def persistStateLocked_def same_elsewhere_def Watermark_def
      split: write_outcome.splits option.splits)

lemma recordAcked_elsewhere: "same_elsewhere ks s s' \<Longrightarrow> same_elsewhere ks s (recordAckedSafeInventory ks ack s')"
  by (auto simp: recordAckedSafeInventory_def same_elsewhere_def Let_def)

lemma touches_refreshed: "io_within (touches k seq) (on_store r (\<lambda>wo. RecordRefreshedAck wo k ack))"
proof (rule touches_store)
  fix wo st
  have "same_elsewhere (pkey k) s (s\<lparr>LastAcks := fmupd (pkey k) ack (LastAcks s)\<rparr>)" for s by (simp add: same_elsewhere_def)
  then show "same_elsewhere (pkey k) (st_mem st) (st_mem (snd (RecordRefreshedAck wo k ack st))) \<and>
      Watermark k (snd (RecordRefreshedAck wo k ack st)) \<in> {Watermark k st, seq}"
    by (auto simp: RecordRefreshedAck_def Let_def persistStateLocked_def recordAcked_elsewhere Watermark_def
        split: option.splits write_outcome.splits)
qed

lemma touches_applied: "io_within (touches k seq) (on_store r (\<lambda>wo. RecordAppliedPromotion L wo k seq ack root snap hs ns))"
proof (rule touches_store)
  fix wo st
  have acked: "same_elsewhere (pkey k) s (recordAckedSafeInventory (pkey k) ack s)" for s by (rule recordAcked_elsewhere) simp
  show "same_elsewhere (pkey k) (st_mem st) (st_mem (snd (RecordAppliedPromotion L wo k seq ack root snap hs ns st))) \<and>
      Watermark k (snd (RecordAppliedPromotion L wo k seq ack root snap hs ns st)) \<in> {Watermark k st, seq}"
    by (auto simp: RecordAppliedPromotion_def Let_def persistStateLocked_def recordAckedSafeInventory_def same_elsewhere_def Watermark_def
        split: option.splits write_outcome.splits sum.splits)
qed

lemma touches_finish: "io_within (touches k (ps_PromotionSeq cmd)) (finishAppliedPromotion r k cmd post mappings)"
  unfolding finishAppliedPromotion_def Let_def
  by (intro touches.bind touches_applied touches_quiet [OF quiet_steps(3)] touches_quiet [OF quiet_send(1) [where P = "\<lambda>_. True"]]) simp

lemma touches_resend: "io_within (touches k seq) (resendStoredAck r k cmd ack)"
  unfolding resendStoredAck_def
  by (auto intro!: touches.bind touches_quiet [OF quiet_refreshedAck] touches_refreshed touches_quiet [OF quiet_send(1) [where P = "\<lambda>_. True"]])

lemma touches_build: "io_within (touches (partition_of cmd) seq) (buildAndReplace r cmd)"
  unfolding buildAndReplace_def Let_def
  by (auto intro!: touches.bind touches_begin touches_quiet [OF quiet_buildShadow] touches_quiet [OF quiet_exec [where P = "\<lambda>_. True"]]
      touches_quiet [OF quiet_drop [where P = "\<lambda>_. True"]] touches_quiet [OF quiet_reads(5)] touches_quiet [OF quiet_shadow_reads(1)]
      split: prod.splits)

lemma touches_apply: "io_within (touches (partition_of cmd) (ps_PromotionSeq cmd)) (applyPromotion r (partition_of cmd) cmd)"
  unfolding applyPromotion_def Let_def
  by (auto intro!: touches.bind touches_record touches_build touches_finish touches_quiet [OF quiet_steps(2)]
      touches_quiet [OF quiet_send(1) [where P = "\<lambda>_. True"]] split: prod.splits)

lemma touches_reconcile: "io_within (touches k seq) (reconcilePromotionIntent r cmd i)"
  by (rule touches_quiet [OF quiet_reconcile [where P = "\<lambda>_. True"]]) simp

lemma touches_settleNotApplied: "io_within (touches k (ps_PromotionSeq cmd)) (settleNotApplied r k cmd)"
  unfolding settleNotApplied_def Let_def
  by (subst io_try_const)
    (auto intro!: touches.bind touches_settled touches_quiet [OF quiet_steps(2)] touches_quiet [OF quiet_dropSettled]
      touches_quiet [OF quiet_countSettle] touches_quiet [OF quiet_send(1) [where P = "\<lambda>_. True"]] split: prod.splits)

lemma touches_handlePromote:
  assumes "handlePromote r cmd jws settle w = (res, w')"
  shows "touches (partition_of cmd) (ps_PromotionSeq cmd) w w'"
proof -
  have settle: "io_within (touches (partition_of cmd) (ps_PromotionSeq cmd)) (answerSettle r (partition_of cmd) cmd)"
    unfolding answerSettle_def
    by (auto intro!: touches.bind touches_quiet [OF quiet_steps(2)] touches_quiet [OF quiet_countSettle] touches_resend touches_reconcile
        touches_finish touches_settleNotApplied split: prod.splits option.splits)
  have promote: "io_within (touches (partition_of cmd) (ps_PromotionSeq cmd)) (promoteLocked r (partition_of cmd) cmd)"
    unfolding promoteLocked_def
    by (auto intro!: touches.bind touches_quiet [OF quiet_steps(2)] touches_resend touches_reconcile touches_finish touches_apply
        split: prod.splits option.splits)
  from assms show ?thesis
    by (cases rule: handlePromote_cases) (auto intro: io_withinD [OF settle] io_withinD [OF promote] touches.refl)
qed

text \<open>
  C38. One partition, forward. A promotion handler changes the journal entries of its own partition only, leaves intake,
  registration and owed acknowledgements alone, and moves the partition's watermark, if at all, up to the command's sequence.
\<close>

theorem promotion_stays_in_partition:
  assumes "handlePromote r cmd jws settle w = (res, w')"
  shows "same_elsewhere (pkey (partition_of cmd)) (st_mem (w_store w)) (st_mem (w_store w')) \<and>
    Watermark (partition_of cmd) (w_store w') \<in> {Watermark (partition_of cmd) (w_store w), ps_PromotionSeq cmd} \<and>
    Watermark (partition_of cmd) (w_store w) \<le> Watermark (partition_of cmd) (w_store w')"
proof (cases "ps_PromotionSeq cmd \<le> Watermark (partition_of cmd) (w_store w)")
  case True
  from stale_command_resends [OF assms True] have "Watermarks (st_mem (w_store w')) = Watermarks (st_mem (w_store w))"
    unfolding resends_def same_ledger_def by (metis (no_types, lifting) localState.select_convs(1) localState.surjective localState.update_convs(2,11))
  with touches_handlePromote [OF assms] show ?thesis by (auto simp: touches_def Watermark_def)
qed (use touches_handlePromote [OF assms] in \<open>auto simp: touches_def\<close>)

end
