(* ===== verification/SNode_Cleanup.thy ===== *)
theory SNode_Cleanup
  imports Promote_Once
begin

text \<open>
  The cleanup handler and the re-send of owed acknowledgements (\<open>snode/cleanup.go\<close>), and the purge gate of a table
  (\<open>snode/registry.go\<close>). A cleanup drops the named parts of hg_unsafe, journals that it did, which makes its
  acknowledgement owed, and sends it; only the arbiter's acceptance clears the debt.
\<close>

section \<open>Cleanup\<close>

definition isMissingPartErr :: "role_error \<Rightarrow> bool" where
  "isMissingPartErr e \<longleftrightarrow> e = ErrCH ErrNoSuchDataPart"

definition isCleanupGoneErr :: "role_error \<Rightarrow> bool" where
  "isCleanupGoneErr e \<longleftrightarrow> isMissingPartErr e \<or> e = ErrCH ErrUnknownTable"

text \<open>One turn of the loop over the named parts.\<close>

definition dropCleanupPart :: "('o, 'h) role \<Rightarrow> string \<Rightarrow> PartRef \<Rightarrow> ('o, unit) act" where
  "dropCleanupPart r table p =
     (if pr_PartName p = [] then io_fail (ErrEmptyPartName (pr_TableID p) (pr_PartitionID p))
      else io_try (exec r (DropPart (r_UnsafeDatabase r @ ''.'' @ table) (pr_PartName p))) (\<lambda>res.
           case res of
             Inr _ \<Rightarrow> io_return ()
           | Inl e \<Rightarrow> if isCleanupGoneErr e then io_return () else io_fail e))"

definition cleanupAckFor :: "('o, 'h) role \<Rightarrow> UnsafeCleanup \<Rightarrow> CleanupAck" where
  "cleanupAckFor r cmd =
     \<lparr>ca_NodeID = r_NodeID r, ca_PromotionSeq = uc_PromotionSeq cmd, ca_TableID = uc_TableID cmd,
      ca_PartitionID = uc_PartitionID cmd, ca_RejectedBlockSeq = uc_RejectedBlockSeq cmd\<rparr>"

definition confirmCleanupAck :: "('o, 'h) role \<Rightarrow> CleanupAck \<Rightarrow> ('o, unit) act" where
  "confirmCleanupAck r ack =
     io_bind (sendCleanupAck r ack) (\<lambda>_.
     io_try (on_store r (\<lambda>wo. ClearOwedCleanupAck wo ack)) (\<lambda>res.
     case res of
       Inr _ \<Rightarrow> io_return ()
     | Inl e \<Rightarrow> io_fail (case e of ErrState se \<Rightarrow> ErrOwedAckNotCleared se | _ \<Rightarrow> e)))"

text \<open>From the check of a rejected-part cleanup on.\<close>

definition executeCleanup :: "('o, 'h :: ab_group_add) role \<Rightarrow> UnsafeCleanup \<Rightarrow> ('o, unit) act" where
  "executeCleanup r cmd =
     io_bind (read_store (CheckRejectedParts (cleanup_key cmd) (uc_PromotionSeq cmd) (uc_Parts cmd))) (\<lambda>checked.
     io_bind (if uc_RejectedBlockSeq cmd \<noteq> 0 then io_lift (rmap_error ErrState checked) else io_return ()) (\<lambda>_.
     io_bind (io_each (dropCleanupPart r (CHTableName (uc_TableID cmd))) (uc_Parts cmd)) (\<lambda>_.
     io_bind (on_store r (\<lambda>wo. RecordExecutedCleanup (r_L r) wo cmd (cleanupAckFor r cmd))) (\<lambda>_.
     confirmCleanupAck r (cleanupAckFor r cmd)))))"

definition handleCleanup :: "('o, 'h :: ab_group_add) role \<Rightarrow> UnsafeCleanup \<Rightarrow> string \<Rightarrow> ('o, unit) act" where
  "handleCleanup r cmd jws =
     (if \<not> r_AuthorizeCleanup r cmd jws then io_fail ErrAuthority
      else io_try (requireOwned r (uc_TableID cmd)) (\<lambda>res.
           case res of Inl _ \<Rightarrow> io_return () | Inr _ \<Rightarrow> executeCleanup r cmd))"

section \<open>Re-sending\<close>

text \<open>The loop of a pass; \<open>expired\<close> says that the pass ran out of its interval.\<close>

fun resendLoop :: "('o, 'h) role \<Rightarrow> ('o \<Rightarrow> bool) \<Rightarrow> CleanupAck list \<Rightarrow> ('o, unit) act" where
  "resendLoop r expired [] = io_return ()"
| "resendLoop r expired (ack # acks) =
     io_bind (read_out (\<lambda>s. r_ended r s \<or> expired s)) (\<lambda>over.
     if over then io_return ()
     else io_try (confirmCleanupAck r ack) (\<lambda>_.
          io_bind (read_out (r_ended r)) (\<lambda>ended.
          if ended then io_return () else resendLoop r expired acks)))"

definition resendOwedCleanupAcks :: "('o, 'h) role \<Rightarrow> ('o \<Rightarrow> bool) \<Rightarrow> ('o, unit) act" where
  "resendOwedCleanupAcks r expired = io_bind (read_store OwedCleanupAcksOf) (\<lambda>owed. resendLoop r expired owed)"

section \<open>The purge gate\<close>

definition unfinishedIntake :: "string \<Rightarrow> intakeRecord \<Rightarrow> bool" where
  "unfinishedIntake tableID rcd \<longleftrightarrow>
     env_TargetTableID (ir_Envelope rcd) = tableID \<and>
     ir_Lifecycle rcd \<in> {LifecyclePreparing, LifecycleAbortPending, LifecycleUnsafeWritten}"

definition tableQuiescent :: "('o, 'h :: ab_group_add) role \<Rightarrow> string \<Rightarrow> ('o, bool) act" where
  "tableQuiescent r tableID =
     io_bind (journal_list r) (\<lambda>records.
     if list_ex (unfinishedIntake tableID) records then io_return False
     else io_bind (read_store (quiescent (r_L r) tableID)) (\<lambda>q. io_lift (rmap_error ErrState q)))"

definition forgetDroppedTable :: "('o, 'h :: ab_group_add) role \<Rightarrow> string \<Rightarrow> ('o, unit) act" where
  "forgetDroppedTable r tableID =
     io_bind (on_store r (\<lambda>wo. ForgetTable (r_L r) wo tableID)) (\<lambda>_. on_audit (forgetTable tableID))"

end
