(* ===== verification/Cleanup_Safety.thy ===== *)
theory Cleanup_Safety
  imports SNode_Cleanup
begin

text \<open>
  What a cleanup and the re-send of owed acknowledgements do: a cleanup is journaled and acknowledged only after every
  named part is gone, its acknowledgement stays owed until the arbiter accepts it, and a pass that reaches the arbiter
  clears every debt.
\<close>

section \<open>The drops\<close>

abbreviation drop_event :: "('o, 'h) role \<Rightarrow> string \<Rightarrow> PartRef \<Rightarrow> role_event" where
  "drop_event r table p \<equiv> DropPart (r_UnsafeDatabase r @ ''.'' @ table) (pr_PartName p)"

text \<open>ClickHouse answered each DROP, one after the other, that the part is dropped or was not there.\<close>

fun parts_gone :: "('o, 'h) role \<Rightarrow> string \<Rightarrow> PartRef list \<Rightarrow> 'o \<Rightarrow> 'o \<Rightarrow> bool" where
  "parts_gone r table [] s s' \<longleftrightarrow> s' = s"
| "parts_gone r table (p # ps) s s' \<longleftrightarrow>
     pr_PartName p \<noteq> [] \<and>
     (\<exists>res s1. conn_exec (r_Conn r) (render (drop_event r table p)) s = (res, s1) \<and>
        res \<in> {Inr (), Inl ErrNoSuchDataPart, Inl ErrUnknownTable} \<and> parts_gone r table ps s1 s')"

lemma dropCleanupPart_ok:
  assumes "dropCleanupPart r table p w = (Inr (), w')"
  shows "parts_gone r table [p] (w_out w) (w_out w') \<and> w_trace w' = w_trace w @ [drop_event r table p] \<and> w_store w' = w_store w"
proof -
  obtain res s1 where run: "conn_exec (r_Conn r) (render (drop_event r table p)) (w_out w) = (res, s1)" by fastforce
  then have ex: "exec r (drop_event r table p) w = (rmap_error ErrCH res, w\<lparr>w_trace := w_trace w @ [drop_event r table p], w_out := s1\<rparr>)"
    by (simp add: exec_def io_bind_def logged_def on_out_def)
  from assms ex have "pr_PartName p \<noteq> []" "w' = w\<lparr>w_trace := w_trace w @ [drop_event r table p], w_out := s1\<rparr>"
    "\<And>e. res = Inl e \<Longrightarrow> isCleanupGoneErr (ErrCH e)"
    by (auto simp: dropCleanupPart_def io_try_def split: if_splits sum.splits)
  with run show ?thesis by (cases res) (auto simp: isCleanupGoneErr_def isMissingPartErr_def)
qed

lemma drops_ok:
  "io_each (dropCleanupPart r table) ps w = (Inr (), w') \<Longrightarrow>
     parts_gone r table ps (w_out w) (w_out w') \<and> w_trace w' = w_trace w @ map (drop_event r table) ps \<and> w_store w' = w_store w"
proof (induction ps arbitrary: w)
  case (Cons p ps)
  then obtain w1 where one: "dropCleanupPart r table p w = (Inr (), w1)" and rest: "io_each (dropCleanupPart r table) ps w1 = (Inr (), w')"
    by (auto simp: io_bind_Inr)
  from dropCleanupPart_ok [OF one] Cons.IH [OF rest] show ?case by auto
qed simp

lemma drops_quiet: "io_within (quiet (\<lambda>e. e \<in> drop_event r table ` set ps)) (io_each (dropCleanupPart r table) ps)"
proof -
  have "io_within (quiet (\<lambda>e. e \<in> drop_event r table ` set qs)) (io_each (dropCleanupPart r table) ps)" if "set ps \<subseteq> set qs" for qs
    using that
  proof (induction ps)
    case (Cons p ps)
    then have "io_within (quiet (\<lambda>e. e \<in> drop_event r table ` set qs)) (dropCleanupPart r table p)"
      by (auto simp: dropCleanupPart_def intro!: quiet.attempt quiet_exec split: sum.splits)
    with Cons show ?case by (auto intro!: quiet.bind)
  qed auto
  then show ?thesis by blast
qed

section \<open>The handler\<close>

text \<open>
  The cleanup took place: it was authorized, every part is gone, the write of the journal was attempted on the store
  as it was, and the acknowledgement was sent only when that succeeded. It is cleared only after the arbiter took it.
\<close>

definition cleaned_up :: "('o, 'h :: ab_group_add) role \<Rightarrow> UnsafeCleanup \<Rightarrow> 'o world \<Rightarrow> 'o world \<Rightarrow> bool" where
  "cleaned_up r cmd w w' \<longleftrightarrow>
     (\<exists>s wo recorded st.
        parts_gone r (CHTableName (uc_TableID cmd)) (uc_Parts cmd) (w_out w) s \<and>
        RecordExecutedCleanup (r_L r) wo cmd (cleanupAckFor r cmd) (w_store w) = (recorded, st) \<and>
        (recorded \<noteq> Inr () \<and> w_store w' = st \<and>
           new_events w w' = map (drop_event r (CHTableName (uc_TableID cmd))) (uc_Parts cmd) \<or>
         recorded = Inr () \<and>
           new_events w w' = map (drop_event r (CHTableName (uc_TableID cmd))) (uc_Parts cmd) @ [SendCleanupAck (cleanupAckFor r cmd)] \<and>
           (w_store w' = st \<or>
            (\<exists>s1 s2 wo'. r_AckCleanup r (cleanupAckFor r cmd) s1 = (Inr (), s2) \<and>
               w_store w' = snd (ClearOwedCleanupAck wo' (cleanupAckFor r cmd) st)))))"

lemma confirm_run:
  assumes "confirmCleanupAck r ack w = (res, w')"
  shows "w_trace w' = w_trace w @ [SendCleanupAck ack] \<and> w_intake w' = w_intake w \<and>
    (w_store w' = w_store w \<or>
     (\<exists>s1 s2 wo. r_AckCleanup r ack s1 = (Inr (), s2) \<and> w_store w' = snd (ClearOwedCleanupAck wo ack (w_store w))))"
proof -
  obtain sent w1 where send: "sendCleanupAck r ack w = (sent, w1)" by fastforce
  then obtain s where w1: "w1 = w\<lparr>w_trace := w_trace w @ [SendCleanupAck ack], w_out := s\<rparr>"
    and acc: "sent = Inr () \<Longrightarrow> r_AckCleanup r ack (w_out w) = (Inr (), s)"
    by (auto simp: sendCleanupAck_def io_bind_def logged_def on_out_def split: prod.splits)
  show ?thesis
  proof (cases sent)
    case (Inl e)
    with assms send w1 show ?thesis by (auto simp: confirmCleanupAck_def io_bind_def)
  next
    case (Inr u)
    with assms send have "w' = snd (on_store r (\<lambda>wo. ClearOwedCleanupAck wo ack) w1)"
      by (auto simp: confirmCleanupAck_def io_bind_def io_try_def split: prod.splits sum.splits)
    moreover have "r_AckCleanup r ack (w_out w) = (Inr (), s)" using acc Inr by simp
    ultimately show ?thesis using w1 on_store_snd [of r "\<lambda>wo. ClearOwedCleanupAck wo ack" w1] by auto
  qed
qed

lemma journaled_cleanup:
  assumes "parts_gone r (CHTableName (uc_TableID cmd)) (uc_Parts cmd) (w_out w) s" "w_store w1 = w_store w"
    and trace: "w_trace w1 = w_trace w @ map (drop_event r (CHTableName (uc_TableID cmd))) (uc_Parts cmd)"
    and run: "io_bind (on_store r (\<lambda>wo. RecordExecutedCleanup (r_L r) wo cmd (cleanupAckFor r cmd))) (\<lambda>_. confirmCleanupAck r (cleanupAckFor r cmd)) w1 = (res, w')"
  shows "cleaned_up r cmd w w'"
proof -
  let ?ack = "cleanupAckFor r cmd"
  obtain wo s1 recd st where disk: "r_disk r (w_out w1) = (wo, s1)" and rec: "RecordExecutedCleanup (r_L r) wo cmd ?ack (w_store w) = (recd, st)"
    by fastforce
  then have step: "on_store r (\<lambda>wo. RecordExecutedCleanup (r_L r) wo cmd ?ack) w1 = (rmap_error ErrState recd, w1\<lparr>w_out := s1, w_store := st\<rparr>)"
    by (simp add: on_store_def assms(2))
  show ?thesis
  proof (cases recd)
    case (Inl e)
    with run step trace have "w_store w' = st" "new_events w w' = map (drop_event r (CHTableName (uc_TableID cmd))) (uc_Parts cmd)"
      by (auto simp: io_bind_def new_events_def)
    with assms(1) rec Inl show ?thesis unfolding cleaned_up_def by blast
  next
    case (Inr u)
    with run step have "confirmCleanupAck r ?ack (w1\<lparr>w_out := s1, w_store := st\<rparr>) = (res, w')" by (simp add: io_bind_def)
    note conf = confirm_run [OF this]
    with trace have "new_events w w' = map (drop_event r (CHTableName (uc_TableID cmd))) (uc_Parts cmd) @ [SendCleanupAck ?ack]"
      by (simp add: new_events_def)
    moreover have "w_store w' = st \<or> (\<exists>s1 s2 wo'. r_AckCleanup r ?ack s1 = (Inr (), s2) \<and> w_store w' = snd (ClearOwedCleanupAck wo' ?ack st))"
      using conf by simp
    moreover have "RecordExecutedCleanup (r_L r) wo cmd ?ack (w_store w) = (Inr (), st)" using rec Inr by simp
    ultimately show ?thesis using assms(1) unfolding cleaned_up_def by blast
  qed
qed

lemma executeCleanup_run:
  assumes "executeCleanup r cmd w = (res, w')"
  obtains (stopped) "quiet (\<lambda>e. e \<in> drop_event r (CHTableName (uc_TableID cmd)) ` set (uc_Parts cmd)) w w'"
  | (cleaned) "uc_RejectedBlockSeq cmd \<noteq> 0 \<Longrightarrow> CheckRejectedParts (cleanup_key cmd) (uc_PromotionSeq cmd) (uc_Parts cmd) (w_store w) = Inr ()"
      "cleaned_up r cmd w w'"
proof -
  let ?t = "CHTableName (uc_TableID cmd)" and ?ack = "cleanupAckFor r cmd"
  let ?journal = "on_store r (\<lambda>wo. RecordExecutedCleanup (r_L r) wo cmd ?ack)"
  let ?check = "CheckRejectedParts (cleanup_key cmd) (uc_PromotionSeq cmd) (uc_Parts cmd) (w_store w)"
  from assms consider (refused) "w' = w"
    | (go) "uc_RejectedBlockSeq cmd \<noteq> 0 \<Longrightarrow> ?check = Inr ()"
        "io_bind (io_each (dropCleanupPart r ?t) (uc_Parts cmd)) (\<lambda>_. io_bind ?journal (\<lambda>_. confirmCleanupAck r ?ack)) w = (res, w')"
    by (cases ?check) (auto simp: executeCleanup_def io_bind_def [of "read_store _"] read_store_def io_bind_def [of "io_lift _"]
        io_bind_def [of "io_return _"] split: if_splits)
  then show thesis
  proof cases
    case refused
    with stopped show thesis by (simp add: quiet.refl)
  next
    case go
    from go(2) show thesis
    proof (cases rule: io_bind_cases)
      case (fail e)
      from stopped io_withinD [OF drops_quiet fail(1)] show thesis by simp
    next
      case (ok u w1)
      have "parts_gone r ?t (uc_Parts cmd) (w_out w) (w_out w1)" "w_store w1 = w_store w"
        "w_trace w1 = w_trace w @ map (drop_event r ?t) (uc_Parts cmd)"
        using drops_ok [of r ?t "uc_Parts cmd" w w1] ok(1) by auto
      from journaled_cleanup [OF this ok(2)] cleaned go(1) show thesis by blast
    qed
  qed
qed

text \<open>
  C39. A cleanup is acknowledged after its parts are gone. Either the handler only sent DROPs of named parts and the
  journal is as it was, or it was authorized, a rejected-part cleanup passed its check, ClickHouse answered for every
  named part that it is gone, and only then the journal was written and, when that succeeded, the acknowledgement was
  sent. The debt is cleared only after the arbiter took the acknowledgement.
\<close>

theorem cleanup_acked_after_drops:
  assumes "handleCleanup r cmd jws w = (res, w')"
  shows "quiet (\<lambda>e. e \<in> drop_event r (CHTableName (uc_TableID cmd)) ` set (uc_Parts cmd)) w w' \<or>
    r_AuthorizeCleanup r cmd jws \<and>
    (uc_RejectedBlockSeq cmd \<noteq> 0 \<longrightarrow>
       CheckRejectedParts (cleanup_key cmd) (uc_PromotionSeq cmd) (uc_Parts cmd) (w_store w) = Inr ()) \<and>
    cleaned_up r cmd w w'"
proof -
  obtain owned w1 where own: "requireOwned r (uc_TableID cmd) w = (owned, w1)" by fastforce
  with assms requireOwned_pure [OF own] consider "w' = w" | "r_AuthorizeCleanup r cmd jws" "executeCleanup r cmd w = (res, w')"
    by (auto simp: handleCleanup_def io_try_def split: sum.splits if_splits)
  then show ?thesis
  proof cases
    case 2
    from 2(2) show ?thesis by (cases rule: executeCleanup_run) (use 2(1) in blast)+
  qed (simp add: quiet.refl)
qed

section \<open>The re-send pass\<close>

text \<open>The arbiter takes every acknowledgement, the disk every write, and nothing ends the pass.\<close>

definition undisturbed :: "('o, 'h) role \<Rightarrow> ('o \<Rightarrow> bool) \<Rightarrow> bool" where
  "undisturbed r expired \<longleftrightarrow>
     (\<forall>ack s. fst (r_AckCleanup r ack s) = Inr ()) \<and> (\<forall>s. fst (r_disk r s) = WriteOK) \<and> (\<forall>s. \<not> r_ended r s \<and> \<not> expired s)"

lemma confirm_accepted:
  assumes "undisturbed r expired"
  shows "w_store (snd (confirmCleanupAck r ack w)) = snd (ClearOwedCleanupAck WriteOK ack (w_store w))"
proof -
  obtain s1 where sent: "r_AckCleanup r ack (w_out w) = (Inr (), s1)"
    using assms by (metis prod.collapse undisturbed_def)
  obtain s2 where disk: "r_disk r s1 = (WriteOK, s2)"
    using assms by (metis prod.collapse undisturbed_def)
  show ?thesis
    by (simp add: confirmCleanupAck_def sendCleanupAck_def io_bind_def logged_def on_out_def sent io_try_def on_store_def disk
        split: prod.splits sum.splits)
qed

text \<open>The entries of \<open>acks\<close> are gone from memory, and from the file whenever it agreed.\<close>

definition settled_debts :: "CleanupAck list \<Rightarrow> stateStore \<Rightarrow> stateStore \<Rightarrow> bool" where
  "settled_debts acks st st' \<longleftrightarrow>
     (\<exists>m. st_mem st' = (st_mem st)\<lparr>OwedCleanupAcks := m\<rparr> \<and>
        (\<forall>k. fmlookup m k = (if k \<in> cleanupAckKey ` set acks then None else fmlookup (OwedCleanupAcks (st_mem st)) k))) \<and>
     (synced st \<longrightarrow> synced st')"

lemma ClearOwed_settles:
  assumes "fmlookup (OwedCleanupAcks (st_mem st)) (cleanupAckKey ack) = Some ack"
    and "settled_debts acks (snd (ClearOwedCleanupAck WriteOK ack st)) st'"
  shows "settled_debts (ack # acks) st st'"
proof -
  let ?s = "st_mem st" and ?st = "snd (ClearOwedCleanupAck WriteOK ack st)"
  have mem: "st_mem ?st = ?s\<lparr>OwedCleanupAcks := fmdrop (cleanupAckKey ack) (OwedCleanupAcks ?s)\<rparr>" "synced ?st"
    using assms(1) by (simp_all add: ClearOwedCleanupAck_def Let_def persistStateLocked_def synced_def)
  from assms(2) obtain m where "st_mem st' = (st_mem ?st)\<lparr>OwedCleanupAcks := m\<rparr>"
    and look: "\<And>k. fmlookup m k = (if k \<in> cleanupAckKey ` set acks then None else fmlookup (OwedCleanupAcks (st_mem ?st)) k)"
    and "synced st'" using mem(2) unfolding settled_debts_def by blast
  then show ?thesis unfolding settled_debts_def by (auto simp: mem(1) intro!: exI [of _ m])
qed

lemma resendLoop_settles:
  assumes "undisturbed r expired"
  shows "distinct (map cleanupAckKey acks) \<Longrightarrow>
    list_all (\<lambda>ack. fmlookup (OwedCleanupAcks (st_mem (w_store w))) (cleanupAckKey ack) = Some ack) acks \<Longrightarrow>
    settled_debts acks (w_store w) (w_store (snd (resendLoop r expired acks w)))"
proof (induction acks arbitrary: w)
  case Nil
  show ?case by (auto simp: settled_debts_def intro: exI [of _ "OwedCleanupAcks (st_mem (w_store w))"])
next
  case (Cons ack acks)
  obtain res w1 where conf: "confirmCleanupAck r ack w = (res, w1)" by fastforce
  have w1: "w_store w1 = snd (ClearOwedCleanupAck WriteOK ack (w_store w))"
    using confirm_accepted [OF assms, of ack w] conf by simp
  have owed: "fmlookup (OwedCleanupAcks (st_mem (w_store w))) (cleanupAckKey ack) = Some ack" using Cons.prems(2) by simp
  have mem: "OwedCleanupAcks (st_mem (w_store w1)) = fmdrop (cleanupAckKey ack) (OwedCleanupAcks (st_mem (w_store w)))"
    using owed by (simp add: w1 ClearOwedCleanupAck_def Let_def persistStateLocked_def)
  have "fmlookup (OwedCleanupAcks (st_mem (w_store w1))) (cleanupAckKey a) = Some a" if "a \<in> set acks" for a
  proof -
    have "cleanupAckKey a \<noteq> cleanupAckKey ack" using Cons.prems(1) imageI [OF that, of cleanupAckKey] unfolding list.map distinct.simps set_map by metis
    with Cons.prems(2) that show ?thesis by (simp add: mem list_all_iff)
  qed
  then have "settled_debts acks (w_store w1) (w_store (snd (resendLoop r expired acks w1)))"
    using Cons.prems(1) by (intro Cons.IH) (simp_all add: list_all_iff)
  moreover have "resendLoop r expired (ack # acks) w = resendLoop r expired acks w1"
    using assms conf by (simp add: undisturbed_def io_bind_def read_out_def io_try_def)
  ultimately show ?case using ClearOwed_settles [OF owed] w1 by simp
qed

text \<open>
  C40. Owed acknowledgements get through. When the arbiter takes acknowledgements, the disk writes and nothing ends the
  pass, one pass of the background re-send clears every debt of a well-formed journal and changes nothing else of it,
  in the file as in memory; no debt then holds any table's purge.
\<close>

theorem resend_pass_clears_debts:
  assumes "undisturbed r expired" and "wf_state L (st_mem (w_store w))" and "resendOwedCleanupAcks r expired w = (res, w')"
  shows "st_mem (w_store w') = (st_mem (w_store w))\<lparr>OwedCleanupAcks := fmempty\<rparr> \<and>
    (synced (w_store w) \<longrightarrow> synced (w_store w')) \<and> owedCleanupAckOf table (st_mem (w_store w')) = None"
proof -
  let ?owed = "OwedCleanupAcks (st_mem (w_store w))" and ?acks = "OwedCleanupAcksOf (w_store w)"
  have key: "cleanupAckKey (the (fmlookup ?owed ak)) = ak" if "ak |\<in>| fmdom ?owed" for ak
    using assms(2) that by (auto simp: wf_state_def fmpred_iff fmlookup_dom_iff)
  then have keys: "map cleanupAckKey ?acks = fmkeys ?owed"
    by (auto simp: OwedCleanupAcksOf_def Let_def intro!: map_idI)
  have "list_all (\<lambda>ack. fmlookup ?owed (cleanupAckKey ack) = Some ack) ?acks"
    using key by (auto simp: OwedCleanupAcksOf_def Let_def list_all_iff fmlookup_dom_iff)
  from resendLoop_settles [OF assms(1) _ this] assms(3) have "settled_debts ?acks (w_store w) (w_store w')"
    by (simp add: keys resendOwedCleanupAcks_def io_bind_def read_store_def)
  then obtain m where m: "st_mem (w_store w') = (st_mem (w_store w))\<lparr>OwedCleanupAcks := m\<rparr>"
    "\<And>k. fmlookup m k = (if k \<in> cleanupAckKey ` set ?acks then None else fmlookup ?owed k)"
    and "synced (w_store w) \<Longrightarrow> synced (w_store w')" unfolding settled_debts_def by blast
  moreover have "m = fmempty"
  proof (rule fmap_ext)
    fix k
    have "cleanupAckKey ` set ?acks = set (fmkeys ?owed)" using arg_cong [OF keys, of set] by simp
    then show "fmlookup m k = fmlookup fmempty k" by (simp add: m(2) fmdom_notD)
  qed
  ultimately show ?thesis by (simp add: owedCleanupAckOf_def fmkeys_def sorted_list_of_fset.rep_eq)
qed

end
