(* ===== verification/Promote_Demo.thy ===== *)
theory Promote_Demo
  imports Promote_Once
begin

text \<open>
  A promotion on the concrete node of \<open>SNode_Audit\<close>, evaluated from the command to its acknowledgement: hg_safe holds the
  part \<open>b\<close>, hg_unsafe the candidate \<open>a\<close>, and the journal the base root of \<open>b\<close>.
\<close>

definition demo_base_state :: localState where
  "demo_base_state = demo_twin_state\<lparr>Watermarks := fmupd (key ''t'' ''all'') 4 fmempty,
     AckedSafeInventories := fmupd (key ''t'' ''all'')
       \<lparr>inv_PromotionSeq = 4, inv_Parts = [\<lparr>sm_PartRowLtHash = ''0x2000'', sm_SafePartName = ''b'', sm_PartPhysHash = ''g''\<rparr>],
        inv_Rebuilt = False\<rparr> fmempty,
     BaseRoots := fmupd (key ''t'' ''all'') ''0x2000'' fmempty,
     UnpromotedSums := fmupd (key ''t'' ''all'') ''0xab00'' fmempty\<rparr>"

definition demo_base_world :: "demo_out world" where
  "demo_base_world = demo_world demo_base_state
     \<lparr>dm_safe = [demo_part ''b'' ''g''], dm_unsafe = [demo_part ''a'' ''h''], dm_promote = []\<rparr>"

lemma demo_fields [simp]:
  "r_NodeID demo_role = ''n''" "r_SafeDatabase demo_role = ''safe''" "r_UnsafeDatabase demo_role = ''unsafe''"
  "r_PromoteDatabase demo_role = ''promote''" "r_L demo_role = lane_lib" "r_hasConn demo_role"
  "r_disk demo_role s = (WriteOK, s)" "r_now demo_role s = (0, s)" "r_AuthorizePromotion demo_role cmd jws"
  "r_registry demo_role s = (zeroSnapshot, False)" "r_AckPromotion demo_role ack s = (Inr (), s)" "repairs demo_role"
  "conn_parts (r_Conn demo_role) db t s = (Inr (if db = ''safe'' then dm_safe s else if db = ''unsafe'' then dm_unsafe s else dm_promote s), s)"
  "conn_exec (r_Conn demo_role) q s = demo_exec q s" "conn_tables (r_Conn demo_role) db t s = (Inr 1, s)"
  "conn_scan (r_Conn demo_role) t sch names s = (Inr (map (\<lambda>n. \<lparr>sc_PartName = n, sc_RowLtHash = demo_hash n, sc_RowCount = 1\<rparr>) names), s)"
  "r_GetPartitionStates demo_role t p s = (Inl (), s)"
  by (simp_all add: demo_role_def demo_conn_def ownerAuditMode_def)

lemma demo_schemaFor [simp]: "schemaFor demo_role ''t'' w = (Inr demo_schema, w)"
  by (simp add: schemaFor_def io_bind_def read_out_def genesisSchema_def) (simp add: demo_role_def demo_schema_def)

lemma demo_roots [simp]:
  "lthashCombineHexAll lane_lib ''0x2000'' [''0xAB00''] = Inr ''0xcb00''"
  "r_S demo_role [''0x2000'', ''0xab00''] = Some ''0xcb00''"
  by (simp_all add: demo_role_def lthashCombineHexAll_def lane_parse lane_hex)

lemma demo_exec_simps [simp]:
  "demo_exec (render (AttachPartition ''promote.t'' ''tuple()'' ''safe.t'')) s = (Inr (), s\<lparr>dm_promote := dm_promote s @ dm_safe s\<rparr>)"
  "demo_exec (render (AttachPartition ''promote.t'' ''tuple()'' ''unsafe.t'')) s = (Inr (), s\<lparr>dm_promote := dm_promote s @ dm_unsafe s\<rparr>)"
  "demo_exec (render (ReplacePartition ''safe.t'' ''tuple()'' ''promote.t'')) s = (Inr (), s\<lparr>dm_safe := dm_promote s\<rparr>)"
  "demo_exec (render (LoadTable ''safe.t'')) s = (Inr (), s)"
  "demo_exec ''ALTER TABLE promote.t DROP PARTITION tuple()'' s = (Inr (), s\<lparr>dm_promote := []\<rparr>)"
  by (simp_all add: demo_exec_def render_def)

lemma demo_parts [simp]:
  "PartsInLogicalPartition [] demo_schema ''all'' = []"
  "PartsInLogicalPartition (demo_part n g # ps) demo_schema ''all'' = demo_part n g # PartsInLogicalPartition ps demo_schema ''all''"
  "pt_Name (demo_part n g) = n" "pt_PhysHash (demo_part n g) = g"
  by (simp_all add: PartsInLogicalPartition_def LogicalPartitionID_def demo_schema_def demo_part_def)

lemma demo_quote [simp]: "QuotePartition demo_schema ''all'' = Inr ''tuple()''"
  by (simp add: QuotePartition_def demo_schema_def)

lemmas demo_steps = io_bind_def io_try_def read_store_def exec_def logged_def on_out_def activeParts_def ActiveParts_def scanParts_def
  on_audit_def now_def dropPartitionIfPresent_def DropPartitionIfPresent_def partitionContentScan_def PartitionContentScan_def sum_result_def

lemma demo_audit_clean:
  "\<exists>a. auditBeforeShadow demo_role demo_cmd demo_schema ''t'' demo_base_world =
     (Inr (), demo_base_world\<lparr>w_audit := a, w_trace := [LoadTable ''safe.t'']\<rparr>)"
  by (simp add: auditBeforeShadow_def auditPartitionLocked_def ownerAuditFSM_def demo_cmd_def Let_def demo_steps loadSafeTable_def
      safePartitionParts_def planFor_def auditInputs_def recordOwnerAudit_def
      demo_base_world_def demo_world_def demo_base_state_def AckedSafeInventory_def ackedSafeInventoryOf_def ownerAuditReferenceFor_def
      rebuiltPair_def localReference_def planOwnerAudit_def unacknowledgedNames_def
      twinNames_def missingNames_def overGroups_def groupOf_def kept_def audited_def cleanPlan_def)

lemma demo_prepare:
  assumes "w_out w = \<lparr>dm_safe = [demo_part ''b'' ''g''], dm_unsafe = [demo_part ''a'' ''h''], dm_promote = []\<rparr>"
  shows "prepareShadow demo_role demo_cmd demo_schema ''t'' ''tuple()'' w =
    (Inr (), w\<lparr>w_out := (w_out w)\<lparr>dm_promote := [demo_part ''b'' ''g'']\<rparr>,
       w_trace := w_trace w @ [DropPartition ''promote'' ''t'' ''all'', AttachPartition ''promote.t'' ''tuple()'' ''safe.t'']\<rparr>)"
  using assms by (simp add: prepareShadow_def demo_steps demo_cmd_def)

lemma demo_attach:
  assumes "w_out w = \<lparr>dm_safe = [demo_part ''b'' ''g''], dm_unsafe = [demo_part ''a'' ''h''], dm_promote = [demo_part ''b'' ''g'']\<rparr>"
  shows "attachCandidateParts demo_role demo_cmd demo_schema ''t'' ''tuple()'' w =
    (Inr (), w\<lparr>w_out := (w_out w)\<lparr>dm_promote := [demo_part ''b'' ''g'', demo_part ''a'' ''h'']\<rparr>,
       w_trace := w_trace w @ [AttachPartition ''promote.t'' ''tuple()'' ''unsafe.t'']\<rparr>)"
  using assms by (simp add: attachCandidateParts_def candidatesCoverUnsafePartition_def demo_steps demo_cmd_def Let_def)

lemma demo_refuse [simp]: "refuseDuplicateCandidates lane_lib demo_cmd = Inr ()"
  by (simp add: refuseDuplicate_iff demo_cmd_def parses_def lane_parse)

lemma demo_hashes [simp]: "demo_hash ''a'' = ''0xab00''" "demo_hash ''b'' = ''0x2000''" "candidateHashes demo_cmd = [''0xAB00'']"
  "ps_BasePartitionRoot demo_cmd = ''0x2000''" "ps_PartitionID demo_cmd = ''all''" "ps_TableID demo_cmd = ''t''" "ps_PromotionSeq demo_cmd = 5"
  by (simp_all add: demo_hash_def candidateHashes_def demo_cmd_def)

lemma demo_base_sel [simp]:
  "w_out demo_base_world = \<lparr>dm_safe = [demo_part ''b'' ''g''], dm_unsafe = [demo_part ''a'' ''h''], dm_promote = []\<rparr>"
  "w_trace demo_base_world = []" "w_store demo_base_world = \<lparr>st_mem = demo_base_state, st_disk = Some demo_base_state\<rparr>"
  by (simp_all add: demo_base_world_def demo_world_def)

lemma demo_build:
  "\<exists>a. buildShadow demo_role demo_cmd demo_schema ''t'' ''tuple()'' demo_base_world =
     (Inr (''0xcb00'', [demo_part ''b'' ''g'']),
      demo_base_world\<lparr>w_audit := a,
        w_out := \<lparr>dm_safe = [demo_part ''b'' ''g''], dm_unsafe = [demo_part ''a'' ''h''], dm_promote = [demo_part ''b'' ''g'', demo_part ''a'' ''h'']\<rparr>,
        w_trace := [LoadTable ''safe.t'', DropPartition ''promote'' ''t'' ''all'', AttachPartition ''promote.t'' ''tuple()'' ''safe.t'',
          AttachPartition ''promote.t'' ''tuple()'' ''unsafe.t'']\<rparr>)"
proof -
  from demo_audit_clean obtain a where audit: "auditBeforeShadow demo_role demo_cmd demo_schema ''t'' demo_base_world =
     (Inr (), demo_base_world\<lparr>w_audit := a, w_trace := [LoadTable ''safe.t'']\<rparr>)" by blast
  show ?thesis
    by (intro exI [of _ a])
      (simp add: buildShadow_def io_bind_def audit demo_prepare demo_attach activeParts_def ActiveParts_def on_out_def
        partitionContentScan_def PartitionContentScan_def sum_result_def duplicateShadowPartHash_def)
qed

text \<open>The journal after the intent, and after the applied promotion.\<close>

definition demo_promotion_intent :: promotionIntent where
  "demo_promotion_intent = promotionIntentFor demo_cmd ''0xcb00'' [demo_part ''b'' ''g'']"

definition demo_intent_state :: localState where
  "demo_intent_state = demo_base_state\<lparr>PromotionIntents := fmupd (key ''t'' ''all'') demo_promotion_intent fmempty\<rparr>"

definition demo_mappings :: safePartMappings where
  "demo_mappings = \<lparr>mp_Candidates = [\<lparr>sm_PartRowLtHash = ''0xAB00'', sm_SafePartName = ''a'', sm_PartPhysHash = ''h''\<rparr>],
     mp_Partition = [\<lparr>sm_PartRowLtHash = ''0x2000'', sm_SafePartName = ''b'', sm_PartPhysHash = ''g''\<rparr>,
       \<lparr>sm_PartRowLtHash = ''0xab00'', sm_SafePartName = ''a'', sm_PartPhysHash = ''h''\<rparr>]\<rparr>"

lemma demo_begin:
  "BeginPromotion WriteOK \<lparr>pk_Table = ''t'', pk_Partition = ''all''\<rparr> demo_promotion_intent \<lparr>st_mem = demo_base_state, st_disk = Some demo_base_state\<rparr> =
     (Inr (), \<lparr>st_mem = demo_intent_state, st_disk = Some demo_intent_state\<rparr>)"
  by (simp add: BeginPromotion_def demo_base_state_def demo_twin_state_def newLocalState_def persistStateLocked_def demo_intent_state_def Let_def)

lemma demo_safeMappings:
  assumes "dm_safe (w_out w) = [demo_part ''b'' ''g'', demo_part ''a'' ''h'']"
  shows "safeMappings demo_role ''t'' demo_schema demo_cmd ''0xcb00'' w = (Inr demo_mappings, w)"
proof -
  have none: "fmkeys (fmdrop ''a'' (fmdrop ''b'' (fmupd ''a'' x (fmupd ''b'' y fmempty)))) = []" for x y :: Part
    by (simp add: fmkeys_def sorted_list_of_fset.rep_eq fmdrop_fmupd)
  then show ?thesis
    using assms
    by (simp add: safeMappings_def demo_steps Let_def inventoryOf_def lane_parse lane_hex demo_mappings_def)
      (simp add: demo_cmd_def lane_parse lane_hex)
qed

definition demo_applied_ack :: PromotionAck where
  "demo_applied_ack = appliedAck demo_role demo_cmd ''0xcb00'' demo_mappings"

definition demo_trace :: "role_event list" where
  "demo_trace = [LoadTable ''safe.t'', DropPartition ''promote'' ''t'' ''all'', AttachPartition ''promote.t'' ''tuple()'' ''safe.t'',
     AttachPartition ''promote.t'' ''tuple()'' ''unsafe.t'', ReplacePartition ''safe.t'' ''tuple()'' ''promote.t'',
     DropPartition ''promote'' ''t'' ''all'']"

lemma demo_replace:
  "\<exists>a. buildAndReplace demo_role demo_cmd demo_base_world =
     (Inr (''0xcb00'', demo_mappings),
      demo_base_world\<lparr>w_audit := a,
        w_out := \<lparr>dm_safe = [demo_part ''b'' ''g'', demo_part ''a'' ''h''], dm_unsafe = [demo_part ''a'' ''h''], dm_promote = []\<rparr>,
        w_store := \<lparr>st_mem = demo_intent_state, st_disk = Some demo_intent_state\<rparr>,
        w_trace := demo_trace\<rparr>)"
proof -
  from demo_build obtain a where build: "buildShadow demo_role demo_cmd demo_schema ''t'' ''tuple()'' demo_base_world =
     (Inr (''0xcb00'', [demo_part ''b'' ''g'']),
      demo_base_world\<lparr>w_audit := a,
        w_out := \<lparr>dm_safe = [demo_part ''b'' ''g''], dm_unsafe = [demo_part ''a'' ''h''], dm_promote = [demo_part ''b'' ''g'', demo_part ''a'' ''h'']\<rparr>,
        w_trace := [LoadTable ''safe.t'', DropPartition ''promote'' ''t'' ''all'', AttachPartition ''promote.t'' ''tuple()'' ''safe.t'',
          AttachPartition ''promote.t'' ''tuple()'' ''unsafe.t'']\<rparr>)" by blast
  have name: "CHTableName ''t'' = ''t''" by (simp add: CHTableName_def)
  note journal = demo_begin [unfolded demo_promotion_intent_def]
  show ?thesis
    by (intro exI [of _ a])
      (simp add: buildAndReplace_def io_bind_def name build on_store_def journal demo_safeMappings Let_def exec_def logged_def on_out_def
        dropPartitionIfPresent_def DropPartitionIfPresent_def activeParts_def ActiveParts_def demo_trace_def)
qed

lemma demo_acked:
  "\<exists>st. RecordAppliedPromotion lane_lib WriteOK \<lparr>pk_Table = ''t'', pk_Partition = ''all''\<rparr> 5 ack root i [''0xAB00''] names
     \<lparr>st_mem = demo_intent_state, st_disk = d\<rparr> = (Inr (), st)"
  by (simp add: RecordAppliedPromotion_def demo_intent_state_def demo_base_state_def Let_def persistStateLocked_def
      lane_parse)

abbreviation demo_all :: partitionKey where
  "demo_all \<equiv> \<lparr>pk_Table = ''t'', pk_Partition = ''all''\<rparr>"

lemma demo_journal [simp]:
  "Watermark demo_all \<lparr>st_mem = demo_base_state, st_disk = d\<rparr> = 4" "LastAck demo_all \<lparr>st_mem = demo_base_state, st_disk = d\<rparr> = None"
  "PendingPromotion demo_all \<lparr>st_mem = demo_base_state, st_disk = d\<rparr> = None"
  "BaseRoot demo_all \<lparr>st_mem = demo_base_state, st_disk = d\<rparr> = (''0x2000'', [])"
  by (simp_all add: Watermark_def LastAck_def PendingPromotion_def BaseRoot_def demo_base_state_def demo_twin_state_def newLocalState_def)

lemma demo_run:
  "\<exists>w'. handlePromote demo_role demo_cmd jws False demo_base_world = (Inr (), w') \<and> w_trace w' = demo_trace @ [SendAck demo_applied_ack]"
proof -
  have owned: "requireOwned demo_role ''t'' w = (Inr (), w)" for w
    by (simp add: requireOwned_def io_bind_def read_out_def)
  from demo_replace obtain a where built: "buildAndReplace demo_role demo_cmd demo_base_world =
     (Inr (''0xcb00'', demo_mappings),
      demo_base_world\<lparr>w_audit := a,
        w_out := \<lparr>dm_safe = [demo_part ''b'' ''g'', demo_part ''a'' ''h''], dm_unsafe = [demo_part ''a'' ''h''], dm_promote = []\<rparr>,
        w_store := \<lparr>st_mem = demo_intent_state, st_disk = Some demo_intent_state\<rparr>,
        w_trace := demo_trace\<rparr>)" by blast
  from demo_acked obtain st where st: "RecordAppliedPromotion lane_lib WriteOK \<lparr>pk_Table = ''t'', pk_Partition = ''all''\<rparr> 5 demo_applied_ack ''0xcb00''
     (ps_BaseSafeSnapshotID demo_cmd) [''0xAB00''] (map pr_PartName (ps_CandidateParts demo_cmd))
     \<lparr>st_mem = demo_intent_state, st_disk = Some demo_intent_state\<rparr> = (Inr (), st)" by blast
  show ?thesis
    by (simp add: handlePromote_def promoteLocked_def applyPromotion_def io_try_def owned io_bind_def read_store_def built
        finishAppliedPromotion_def Let_def on_store_def st flip: demo_applied_ack_def)
      (simp add: on_audit_def sendAck_def io_bind_def logged_def on_out_def)
qed

section \<open>The properties at the run\<close>

lemma demo_base_synced: "synced (w_store demo_base_world)"
  by (simp add: synced_def)

lemma demo_new_events: "w_trace w' = es \<Longrightarrow> new_events demo_base_world w' = es"
  by (simp add: new_events_def)

theorem replace_is_guarded_witness:
  "\<exists>w'. handlePromote demo_role demo_cmd [] False demo_base_world = (Inr (), w') \<and>
     guarded_replace demo_role demo_cmd (ReplacePartition ''safe.t'' ''tuple()'' ''promote.t'') demo_base_world w'"
proof -
  from demo_run [of "[]"] obtain w' where run: "handlePromote demo_role demo_cmd [] False demo_base_world = (Inr (), w')"
    and trace: "w_trace w' = demo_trace @ [SendAck demo_applied_ack]" by blast
  have "ReplacePartition ''safe.t'' ''tuple()'' ''promote.t'' \<in> set (new_events demo_base_world w')"
    by (simp add: demo_new_events [OF trace] demo_trace_def)
  from replace_is_guarded [OF run this] run show ?thesis by simp
qed


theorem promotion_applied_once_witness:
  "\<exists>w1 res w2. handlePromote demo_role demo_cmd [] False demo_base_world = (Inr (), w1) \<and>
     handlePromote demo_role demo_cmd [] True (crash (w_out w1) (w_audit w1) (w_settle w1) w1) = (res, w2) \<and>
     list_all (\<lambda>e. \<exists>ack. e = SendAck ack \<and> pa_PromotionSeq ack = 5) (new_events w1 w2) \<and>
     same_ledger (st_mem (w_store w1)) (st_mem (w_store w2))"
proof -
  from demo_run [of "[]"] obtain w1 where run: "handlePromote demo_role demo_cmd [] False demo_base_world = (Inr (), w1)"
    and trace: "w_trace w1 = demo_trace @ [SendAck demo_applied_ack]" by blast
  have sent: "SendAck demo_applied_ack \<in> set (new_events demo_base_world w1)" by (simp add: demo_new_events [OF trace])
  obtain res w2 where again: "handlePromote demo_role demo_cmd [] True (crash (w_out w1) (w_audit w1) (w_settle w1) w1) = (res, w2)"
    by fastforce
  from promotion_applied_once [OF run sent demo_base_synced again] run again show ?thesis
    by (intro exI [of _ w1] exI [of _ res] exI [of _ w2]) (simp add: list_all_iff)
qed

theorem promotion_stays_in_partition_witness:
  "\<exists>w'. handlePromote demo_role demo_cmd [] False demo_base_world = (Inr (), w') \<and> Watermark demo_all (w_store w') \<in> {4, 5} \<and>
     same_elsewhere (pkey demo_all) demo_base_state (st_mem (w_store w'))"
proof -
  from demo_run [of "[]"] obtain w' where run: "handlePromote demo_role demo_cmd [] False demo_base_world = (Inr (), w')" by blast
  from promotion_stays_in_partition [OF run] run show ?thesis by simp
qed

lemma demo_settle_run:
  "\<exists>w' ack. handlePromote demo_role demo_cmd jws True demo_base_world = (Inr (), w') \<and>
     w_trace w' = [DropPartition ''promote'' ''t'' ''all'', SendAck ack]"
proof -
  have owned: "requireOwned demo_role ''t'' w = (Inr (), w)" for w
    by (simp add: requireOwned_def io_bind_def read_out_def)
  have name: "CHTableName ''t'' = ''t''" by (simp add: CHTableName_def)
  have "\<exists>st. RecordSettledNotApplied WriteOK demo_all 5 ack b i \<lparr>st_mem = demo_base_state, st_disk = d\<rparr> = (Inr (), st)" for ack b i d
    by (simp add: RecordSettledNotApplied_def persistStateLocked_def Let_def)
  then obtain st where st: "RecordSettledNotApplied WriteOK demo_all 5 (refusedAck demo_role demo_cmd (settleNotAppliedDetail 5)) ''0x2000'' []
      \<lparr>st_mem = demo_base_state, st_disk = Some demo_base_state\<rparr> = (Inr (), st)" by blast
  show ?thesis
    by (simp add: handlePromote_def answerSettle_def settleNotApplied_def io_try_def owned io_bind_def read_store_def Let_def on_store_def st)
      (simp add: dropSettledShadow_def io_bind_def name dropPartitionIfPresent_def DropPartitionIfPresent_def activeParts_def ActiveParts_def
        on_out_def logged_def sendAck_def countSettle_def now_def)
qed

theorem settle_never_publishes_witness:
  "\<exists>w' ack. handlePromote demo_role demo_cmd [] True demo_base_world = (Inr (), w') \<and>
     new_events demo_base_world w' = [DropPartition ''promote'' ''t'' ''all'', SendAck ack] \<and>
     ((\<exists>ack'. SendAck ack = SendAck ack') \<or> SendAck ack = DropPartition ''promote'' (CHTableName ''t'') ''all'')"
proof -
  from demo_settle_run [of "[]"] obtain w' ack where run: "handlePromote demo_role demo_cmd [] True demo_base_world = (Inr (), w')"
    and trace: "w_trace w' = [DropPartition ''promote'' ''t'' ''all'', SendAck ack]" by blast
  have sent: "SendAck ack \<in> set (new_events demo_base_world w')" by (simp add: demo_new_events [OF trace])
  from settle_never_publishes [OF run sent] run demo_new_events [OF trace] show ?thesis by simp
qed

end
