(* ===== verification/Cleanup_Demo.thy ===== *)
theory Cleanup_Demo
  imports Cleanup_Safety Promote_Demo
begin

text \<open>A cleanup and a re-send pass on the concrete node of \<open>SNode_Audit\<close>, evaluated.\<close>

definition demo_unsafe_cleanup :: UnsafeCleanup where
  "demo_unsafe_cleanup = \<lparr>uc_TableID = ''t'', uc_PartitionID = ''all'', uc_PromotionSeq = 4,
     uc_Parts = [\<lparr>pr_TableID = ''t'', pr_PartitionID = ''all'', pr_PartRowLtHash = ''0xab00'', pr_PartName = ''a''\<rparr>],
     uc_RejectedBlockSeq = 0\<rparr>"

abbreviation demo_owed :: CleanupAck where
  "demo_owed \<equiv> cleanupAckFor demo_role demo_unsafe_cleanup"

lemma demo_record_cleanup:
  "\<exists>st. RecordExecutedCleanup lane_lib WriteOK demo_unsafe_cleanup demo_owed \<lparr>st_mem = demo_base_state, st_disk = d\<rparr> = (Inr (), st)"
  by (simp add: cleanup_run acknowledges_def removed_by_def demo_unsafe_cleanup_def cleanupAckFor_def persistStateLocked_def)

lemma demo_cleanup_run:
  "\<exists>w'. handleCleanup demo_role demo_unsafe_cleanup jws demo_base_world = (Inr (), w') \<and>
     w_trace w' = [DropPart ''unsafe.t'' ''a'', SendCleanupAck demo_owed]"
proof -
  have owned: "requireOwned demo_role ''t'' w = (Inr (), w)" for w
    by (simp add: requireOwned_def io_bind_def read_out_def)
  have name: "CHTableName ''t'' = ''t''" by (simp add: CHTableName_def)
  have cmd: "uc_TableID demo_unsafe_cleanup = ''t''" "uc_RejectedBlockSeq demo_unsafe_cleanup = 0"
    "uc_Parts demo_unsafe_cleanup = [\<lparr>pr_TableID = ''t'', pr_PartitionID = ''all'', pr_PartRowLtHash = ''0xab00'', pr_PartName = ''a''\<rparr>]"
    by (simp_all add: demo_unsafe_cleanup_def)
  have auth: "r_AuthorizeCleanup demo_role c j" "r_AckCleanup demo_role ack s = (Inr (), s)" for c j ack s by (simp_all add: demo_role_def)
  have noop: "demo_exec (render (DropPart ''unsafe.t'' ''a'')) s = (Inr (), s)" for s by (simp add: demo_exec_def render_def)
  obtain st where st: "RecordExecutedCleanup lane_lib WriteOK demo_unsafe_cleanup demo_owed
      \<lparr>st_mem = demo_base_state, st_disk = Some demo_base_state\<rparr> = (Inr (), st)" using demo_record_cleanup by blast
  obtain st' where st': "ClearOwedCleanupAck WriteOK demo_owed st = (Inr (), st')"
    by (cases "fmlookup (OwedCleanupAcks (st_mem st)) (cleanupAckKey demo_owed) = Some demo_owed")
      (auto simp: ClearOwedCleanupAck_def Let_def persistStateLocked_def)
  show ?thesis
    by (simp add: handleCleanup_def auth io_try_def owned cmd executeCleanup_def io_bind_def read_store_def dropCleanupPart_def exec_def
        logged_def on_out_def noop name on_store_def st confirmCleanupAck_def sendCleanupAck_def st')
qed

theorem cleanup_acked_after_drops_witness:
  "\<exists>w'. handleCleanup demo_role demo_unsafe_cleanup [] demo_base_world = (Inr (), w') \<and>
     cleaned_up demo_role demo_unsafe_cleanup demo_base_world w'"
proof -
  from demo_cleanup_run [of "[]"] obtain w' where run: "handleCleanup demo_role demo_unsafe_cleanup [] demo_base_world = (Inr (), w')"
    and trace: "w_trace w' = [DropPart ''unsafe.t'' ''a'', SendCleanupAck demo_owed]" by blast
  have "\<not> quiet (\<lambda>e. e \<in> drop_event demo_role t ` ps) demo_base_world w'" for t ps
    by (auto simp: quiet_def emits_def trace)
  with cleanup_acked_after_drops [OF run] run show ?thesis by blast
qed

definition demo_owing_world :: "demo_out world" where
  "demo_owing_world = demo_world (newLocalState\<lparr>OwedCleanupAcks := fmupd (cleanupAckKey demo_owed) demo_owed fmempty\<rparr>)
     \<lparr>dm_safe = [], dm_unsafe = [], dm_promote = []\<rparr>"

theorem resend_pass_clears_debts_witness:
  "\<exists>res w'. resendOwedCleanupAcks demo_role (\<lambda>_. False) demo_owing_world = (res, w') \<and>
     OwedCleanupAcks (st_mem (w_store demo_owing_world)) \<noteq> fmempty \<and> OwedCleanupAcks (st_mem (w_store w')) = fmempty"
proof -
  have u: "undisturbed demo_role (\<lambda>_. False)" by (simp add: undisturbed_def) (simp add: demo_role_def)
  have owing: "st_mem (w_store demo_owing_world) = newLocalState\<lparr>OwedCleanupAcks := fmupd (cleanupAckKey demo_owed) demo_owed fmempty\<rparr>"
    by (simp add: demo_owing_world_def demo_world_def)
  have wf: "wf_state lane_lib (st_mem (w_store demo_owing_world))"
    by (simp add: owing wf_state_def newLocalState_def fmpred_upd)
  have debt: "OwedCleanupAcks (st_mem (w_store demo_owing_world)) \<noteq> fmempty"
    by (metis (no_types, lifting) fmempty_lookup fmupd_lookup localState.select_convs(10) localState.surjective localState.update_convs(10) option.distinct(1) owing)
  obtain res w' where run: "resendOwedCleanupAcks demo_role (\<lambda>_. False) demo_owing_world = (res, w')" by fastforce
  from resend_pass_clears_debts [OF u wf run] run debt show ?thesis by auto
qed

end
