(* ===== verification/SNode_Intake.thy ===== *)
theory SNode_Intake
  imports SNode_Cleanup
begin

text \<open>
  The staged intake of a statement (\<open>snode/staged.go\<close>, \<open>snode/intake.go\<close>), its convergence after a crash
  (\<open>snode/converge.go\<close>) and the source claim root (\<open>snode/view.go\<close>). \<open>intakeMu\<close> makes each entry point one run. The
  payload decoder, the row ids, the partition of a row and the state-root assembly are of another repository and are fields
  of the role.
\<close>

section \<open>Requests\<close>

record PrepareRequest =
  req_Envelope :: StatementEnvelope
  req_PayloadEncoding :: string
  req_Revision :: int

definition validatePrepareBindings ::
    "('o, 'h) role \<Rightarrow> role_error \<Rightarrow> PrepareRequest \<Rightarrow> (role_error, string \<times> int) result" where
  "validatePrepareBindings r cls req =
     (let env = req_Envelope req in
      if env_PayloadFormat env \<noteq> r_NativeFormat r then Inl (ErrEncodingNotSupported (env_PayloadFormat env))
      else if env_ClientRevision env = 0 then Inl cls
      else if req_PayloadEncoding req \<noteq> env_PayloadFormat env then Inl cls
      else if req_Revision req \<le> 0 \<or> req_Revision req \<noteq> uint (env_ClientRevision env) then Inl cls
      else Inr (env_PayloadFormat env, uint (env_ClientRevision env)))"

definition validateRecordedBindings :: "('o, 'h) role \<Rightarrow> intakeRecord \<Rightarrow> (role_error, unit) result" where
  "validateRecordedBindings r rcd =
     rbind (validatePrepareBindings r ErrPayloadMismatchPostRecord
       \<lparr>req_Envelope = ir_Envelope rcd, req_PayloadEncoding = ir_PayloadEncoding rcd, req_Revision = ir_Revision rcd\<rparr>) (\<lambda>_. Inr ())"

definition validatePayloadBinding :: "('o, 'h) role \<Rightarrow> StatementEnvelope \<Rightarrow> bytes \<Rightarrow> bool" where
  "validatePayloadBinding r env payload \<longleftrightarrow>
     env_PayloadRef env \<noteq> [] \<and> env_PayloadHash env \<noteq> [] \<and> of_nat (length payload) = env_PayloadLength env \<and>
     r_Digest r payload = env_PayloadHash env"

definition validateReplayRequest :: "('o, 'h) role \<Rightarrow> intakeRecord \<Rightarrow> PrepareRequest \<Rightarrow> bytes \<Rightarrow> (role_error, unit) result" where
  "validateReplayRequest r rcd req payload =
     (if ir_Envelope rcd \<noteq> req_Envelope req \<or> ir_PayloadEncoding rcd \<noteq> req_PayloadEncoding req \<or> ir_Revision rcd \<noteq> req_Revision req \<or>
         \<not> validatePayloadBinding r (req_Envelope req) payload
      then Inl ErrPayloadMismatchPostRecord else Inr ())"

definition resolveEnvelopeSchema :: "('o, 'h) role \<Rightarrow> StatementEnvelope \<Rightarrow> ('o, TableSchema) act" where
  "resolveEnvelopeSchema r env =
     io_try (schemaFor r (env_TargetTableID env)) (\<lambda>res.
     case res of
       Inl _ \<Rightarrow> io_fail (ErrSchemaUnknown (env_TargetTableID env))
     | Inr sch \<Rightarrow>
         if env_SchemaHash env \<noteq> r_hash r sch then io_fail (ErrSchemaHashMismatch (env_TargetTableID env)) else io_return sch)"

definition touchedPartitions :: "('o, 'h) role \<Rightarrow> TableSchema \<Rightarrow> Row list \<Rightarrow> (role_error, string list) result" where
  "touchedPartitions r sch rows =
     rbind (each (\<lambda>row. case r_PartitionIDForRow r sch (row_Values row) of Some p \<Rightarrow> Inr p | None \<Rightarrow> Inl ErrPartitionIDs) rows)
       (\<lambda>ps. Inr (sort (remdups ps)))"

definition partNamesForPartition :: "TableSchema \<Rightarrow> Part list \<Rightarrow> string \<Rightarrow> string list" where
  "partNamesForPartition sch parts partitionID = map pt_Name (filter (\<lambda>p. LogicalPartitionID sch p = partitionID) parts)"

definition sortedUniqueStrings :: "string list \<Rightarrow> string list" where
  "sortedUniqueStrings values = sort (remdups values)"

definition requireExactAbortParts :: "CandidatePart list \<Rightarrow> string list \<Rightarrow> (role_error, unit) result" where
  "requireExactAbortParts candidates requested =
     (if sortedUniqueStrings (map cp_PartName candidates) = sortedUniqueStrings requested then Inr () else Inl ErrAbortParts)"

definition subtractParts :: "Part list \<Rightarrow> Part list \<Rightarrow> Part list" where
  "subtractParts all removed = filter (\<lambda>p. pt_Name p \<notin> pt_Name ` set removed) all"

section \<open>The source claim root\<close>

definition partitionsOf :: "string \<Rightarrow> stateStore \<Rightarrow> partitionKey list" where
  "partitionsOf tableID st =
     (let keys = map splitKey (fmkeys (BaseRoots (st_mem st)) @ fmkeys (UnpromotedSums (st_mem st)));
          mine = map fst (filter (\<lambda>(k, ok). ok \<and> pk_Table k = tableID) keys)
      in map (\<lambda>p. \<lparr>pk_Table = tableID, pk_Partition = p\<rparr>) (sort (remdups (map pk_Partition mine))))"

definition baseRootOr :: "partitionKey \<Rightarrow> string \<Rightarrow> stateStore \<Rightarrow> string" where
  "baseRootOr k fallback st = (let v = fmget [] (BaseRoots (st_mem st)) (pkey k) in if v \<noteq> [] then v else fallback)"

definition unpromotedSumOr :: "partitionKey \<Rightarrow> string \<Rightarrow> stateStore \<Rightarrow> string" where
  "unpromotedSumOr k fallback st = (let v = fmget [] (UnpromotedSums (st_mem st)) (pkey k) in if v \<noteq> [] then v else fallback)"

definition tableManifest ::
    "'h :: ab_group_add lthash_lib \<Rightarrow> stateStore \<Rightarrow> (string, string) fmap \<Rightarrow> string \<Rightarrow> (lt_error, TableManifest) result" where
  "tableManifest L st hashes tableID =
     rbind (each (\<lambda>pk. rbind (lthashCombineHex L (baseRootOr pk [] st) (unpromotedSumOr pk [] st))
                             (\<lambda>root. Inr (pk_Partition pk, root))) (partitionsOf tableID st))
       (\<lambda>roots. Inr \<lparr>tm_TableID = tableID, tm_SchemaHash = fmget [] hashes tableID, tm_PartitionRoots = roots\<rparr>)"

definition sourceClaimRoot :: "('o, 'h :: ab_group_add) role \<Rightarrow> ('o, string) act" where
  "sourceClaimRoot r =
     io_bind (stateRootTables r) (\<lambda>(schemaRoot, hashes).
     io_bind (read_store (\<lambda>st. each (tableManifest (r_L r) st hashes) (fmkeys hashes))) (\<lambda>res.
     io_bind (io_lift (rmap_error ErrLt res)) (\<lambda>tables.
     case r_AssembleStateRoot r schemaRoot tables of Some root \<Rightarrow> io_return root | None \<Rightarrow> io_fail ErrSourceRoot)))"

section \<open>The claim\<close>

text \<open>The loop over the scans: each part is taken into the unpromoted sum and into the sum of its partition.\<close>

fun assembleLoop ::
    "('o, 'h :: ab_group_add) role \<Rightarrow> StatementEnvelope \<Rightarrow> TableSchema \<Rightarrow> (string, Part) fmap \<Rightarrow> (string, 'h) fmap \<Rightarrow>
     PartScanResult list \<Rightarrow> ('o, CandidatePart list \<times> (string, 'h) fmap) act" where
  "assembleLoop r env sch infos sums [] = io_return ([], sums)"
| "assembleLoop r env sch infos sums (s # ss) =
     (case fmlookup infos (sc_PartName s) of
        None \<Rightarrow> io_fail (ErrScanWithoutPart (sc_PartName s))
      | Some info \<Rightarrow>
          io_bind (io_lift (rmap_error ErrLt (parseAccumulatorHex (r_L r) (sc_RowLtHash s)))) (\<lambda>h.
          let pk = \<lparr>pk_Table = env_TargetTableID env, pk_Partition = LogicalPartitionID sch info\<rparr> in
          io_bind (on_store r (\<lambda>wo. AddUnpromotedPart (r_L r) wo pk (sc_PartName s) (sc_RowLtHash s))) (\<lambda>_.
          io_bind (assembleLoop r env sch infos (fmupd (pkey pk) (fmget 0 sums (pkey pk) + h) sums) ss) (\<lambda>(candidates, sums').
          io_return (\<lparr>cp_TableID = env_TargetTableID env, cp_PartitionID = pk_Partition pk, cp_PartName = sc_PartName s,
                      cp_PartRowLtHash = sc_RowLtHash s, cp_PartPhysHash = pt_PhysHash info, cp_RowCount = sc_RowCount s,
                      cp_Bytes = pt_Bytes info\<rparr> # candidates, sums')))))"

definition partitionSums :: "'h :: ab_group_add lthash_lib \<Rightarrow> (string, 'h) fmap \<Rightarrow> (role_error, PartitionLtHashSum list) result" where
  "partitionSums L sums =
     rbind (each (\<lambda>ks. case splitKey ks of (pk, ok) \<Rightarrow>
              if \<not> ok then Inl ErrPartitionIDs
              else Inr \<lparr>pls_TableID = pk_Table pk, pls_PartitionID = pk_Partition pk,
                        pls_NewPartsLtHashSum = accumulatorHex L (fmget 0 sums ks)\<rparr>) (fmkeys sums))
       (\<lambda>ps. Inr (sort_key pls_TableID (sort_key pls_PartitionID ps)))"

definition assembleRC ::
    "('o, 'h :: ab_group_add) role \<Rightarrow> StatementEnvelope \<Rightarrow> TableSchema \<Rightarrow> Part list \<Rightarrow> PartScanResult list \<Rightarrow> ('o, RCRecord) act" where
  "assembleRC r env sch newParts scans =
     (let infos = foldl (\<lambda>m p. fmupd (pt_Name p) p m) fmempty newParts in
      io_bind (assembleLoop r env sch infos fmempty scans) (\<lambda>(candidates, sums).
      io_bind (io_lift (partitionSums (r_L r) sums)) (\<lambda>psums.
      io_bind (sourceClaimRoot r) (\<lambda>root.
      io_return \<lparr>rc_StatementID = env_StatementID env, rc_SourceNode = r_NodeID r, rc_CandidateParts = candidates,
                 rc_SourceClaimRoot = root, rc_PartitionNewPartSums = psums\<rparr>))))"

definition assembleAfterWrite ::
    "('o, 'h :: ab_group_add) role \<Rightarrow> StatementEnvelope \<Rightarrow> TableSchema \<Rightarrow> string \<Rightarrow> Part list \<Rightarrow> intakeRecord \<Rightarrow>
     ('o, PreparedLocalResult \<times> RCRecord) act" where
  "assembleAfterWrite r env sch table before rcd =
     io_bind (activeParts r (r_UnsafeDatabase r) table) (\<lambda>after.
     let newParts = diffParts before after; names = map pt_Name newParts in
     if ir_ExpectedRowCount rcd > 0 \<and> newParts = [] then io_fail ErrNoNewParts
     else
       io_bind (if names = [] then io_return [] else scanParts r (r_UnsafeDatabase r @ ''.'' @ table) sch names) (\<lambda>scans.
       io_bind (assembleRC r env sch newParts scans) (\<lambda>rc.
       io_return
         (\<lparr>plr_StatementID = ir_StatementID rcd, plr_SourceNode = r_NodeID r, plr_PayloadRef = env_PayloadRef env,
           plr_PayloadHash = env_PayloadHash env, plr_PayloadLength = env_PayloadLength env,
           plr_PayloadEncoding = ir_PayloadEncoding rcd, plr_Revision = ir_Revision rcd, plr_CandidateParts = rc_CandidateParts rc,
           plr_PartitionNewPartSums = rc_PartitionNewPartSums rc, plr_SourceClaimRoot = rc_SourceClaimRoot rc,
           plr_Lifecycle = LifecycleUnsafeWritten\<rparr>, rc))))"

section \<open>Convergence\<close>

definition scanPartRowIDs :: "('o, 'h) role \<Rightarrow> string \<Rightarrow> string \<Rightarrow> ('o, string list) act" where
  "scanPartRowIDs r table partName = on_out ErrCH (conn_rowids (r_Conn r) (r_UnsafeDatabase r @ ''.'' @ table) partName)"

definition persistConvergenceFailure :: "('o, 'h) role \<Rightarrow> intakeRecord \<Rightarrow> string \<Rightarrow> ('o, intakeRecord) act" where
  "persistConvergenceFailure r rcd reason =
     io_bind (journal_save r (rcd\<lparr>ir_ConvergeFailed := reason\<rparr>)) (\<lambda>_. io_fail (ErrConvergenceForeignRows (ir_StatementID rcd)))"

definition validateAbortPart :: "intakeRecord \<Rightarrow> string \<Rightarrow> (role_error, unit) result" where
  "validateAbortPart rcd name =
     (case ir_Result rcd of
        None \<Rightarrow> Inr ()
      | Some res \<Rightarrow> if name \<in> cp_PartName ` set (plr_CandidateParts res) then Inr () else Inl (ErrAbortForeignPart name))"

definition excludeAbortedPart :: "('o, 'h :: ab_group_add) role \<Rightarrow> intakeRecord \<Rightarrow> string \<Rightarrow> ('o, unit) act" where
  "excludeAbortedPart r rcd name =
     (case ir_Result rcd of
        None \<Rightarrow> io_return ()
      | Some res \<Rightarrow>
          (case find (\<lambda>p. cp_PartName p = name) (plr_CandidateParts res) of
             None \<Rightarrow> io_return ()
           | Some p \<Rightarrow>
               on_store r (\<lambda>wo. RemoveUnpromotedPart (r_L r) wo \<lparr>pk_Table = cp_TableID p, pk_Partition = cp_PartitionID p\<rparr>
                 (cp_PartName p) (cp_PartRowLtHash p))))"

definition abortPart :: "('o, 'h :: ab_group_add) role \<Rightarrow> intakeRecord \<Rightarrow> string \<Rightarrow> string \<Rightarrow> ('o, unit) act" where
  "abortPart r rcd table name =
     io_bind (io_lift (validateAbortPart rcd name)) (\<lambda>_.
     io_try (exec r (DropPart (r_UnsafeDatabase r @ ''.'' @ table) name)) (\<lambda>res.
     case res of
       Inr _ \<Rightarrow> excludeAbortedPart r rcd name
     | Inl e \<Rightarrow> if isMissingPartErr e then excludeAbortedPart r rcd name else io_fail e))"

definition runAbort :: "('o, 'h :: ab_group_add) role \<Rightarrow> intakeRecord \<Rightarrow> TableSchema \<Rightarrow> ('o, intakeRecord) act" where
  "runAbort r rcd sch =
     (case ir_Abort rcd of
        None \<Rightarrow> io_fail (ErrAbortDetails (ir_StatementID rcd))
      | Some abort \<Rightarrow>
          (let cleaned = rcd\<lparr>ir_Lifecycle := LifecycleCleaned\<rparr> in
           io_bind (io_each (abortPart r rcd (CHTableName (ts_TableID sch))) (ia_PartNames abort)) (\<lambda>_.
           io_bind (journal_save r cleaned) (\<lambda>_. io_return cleaned))))"

text \<open>
  The loop over the active parts: the parts of the statement, their row ids and their number; \<open>Inl\<close> is a part with a row
  id that is not the statement's.
\<close>

fun attributeLoop ::
    "('o, 'h) role \<Rightarrow> intakeRecord \<Rightarrow> TableSchema \<Rightarrow> string \<Rightarrow> string list \<Rightarrow> Part list \<Rightarrow>
     ('o, string + Part list \<times> string list \<times> u64) act" where
  "attributeLoop r rcd sch table expected [] = io_return (Inr ([], [], 0))"
| "attributeLoop r rcd sch table expected (p # ps) =
     (if pt_Rows p = 0 \<or> LogicalPartitionID sch p \<notin> set (ir_TouchedPartitions rcd) \<or>
         pt_Name p \<in> set (fmget [] (ir_PreWriteInventory rcd) (LogicalPartitionID sch p))
      then attributeLoop r rcd sch table expected ps
      else
        io_bind (scanPartRowIDs r table (pt_Name p)) (\<lambda>rowIDs.
        if \<not> set rowIDs \<subseteq> set expected then io_return (Inl (pt_Name p))
        else io_bind (attributeLoop r rcd sch table expected ps) (\<lambda>res.
             case res of
               Inl n \<Rightarrow> io_return (Inl n)
             | Inr (parts, seen, n) \<Rightarrow> io_return (Inr (p # parts, rowIDs @ seen, of_nat (length rowIDs) + n)))))"

definition expectedRowIDs :: "('o, 'h) role \<Rightarrow> intakeRecord \<Rightarrow> TableSchema \<Rightarrow> string list" where
  "expectedRowIDs r rcd sch =
     map (\<lambda>i. r_RowID r (ts_TableID sch) (ir_StatementID rcd) (of_nat i)) [0..<unat (ir_ExpectedRowCount rcd)]"

text \<open>What the attributed rows say: all of the write, too much, or a part of it.\<close>

definition convergeRows ::
    "('o, 'h :: ab_group_add) role \<Rightarrow> intakeRecord \<Rightarrow> TableSchema \<Rightarrow> string \<Rightarrow> Part list \<Rightarrow> Part list \<Rightarrow> string list \<Rightarrow> u64 \<Rightarrow>
     ('o, intakeRecord) act" where
  "convergeRows r rcd sch table current attributed seen rows =
     (if rows = ir_ExpectedRowCount rcd \<and> ir_ExpectedRowCount rcd > 0
      then
        (if \<not> list_all (\<lambda>rid. count_list seen rid = 1) (expectedRowIDs r rcd sch)
         then persistConvergenceFailure r rcd ''candidate parts do not contain each derived row id exactly once''
         else
           io_bind (assembleAfterWrite r (ir_Envelope rcd) sch table (subtractParts current attributed) rcd) (\<lambda>(result, rc).
           let rcd' = rcd\<lparr>ir_Lifecycle := LifecycleUnsafeWritten, ir_Result := Some result, ir_RC := Some rc\<rparr> in
           io_bind (journal_save r rcd') (\<lambda>_. io_return rcd')))
      else if rows > ir_ExpectedRowCount rcd
      then persistConvergenceFailure r rcd (''candidate parts contain more rows than the statement'' @ [QUOTE] @ ''s expected row count'')
      else
        (let rcd' = rcd\<lparr>ir_Lifecycle := LifecycleAbortPending,
                        ir_Abort := Some \<lparr>ia_PartNames = map pt_Name attributed, ia_Reason = ''partial write converged''\<rparr>\<rparr> in
         io_bind (journal_save r rcd') (\<lambda>_. runAbort r rcd' sch)))"

definition convergeIntake :: "('o, 'h :: ab_group_add) role \<Rightarrow> intakeRecord \<Rightarrow> TableSchema \<Rightarrow> ('o, intakeRecord) act" where
  "convergeIntake r rcd sch =
     (if ir_ConvergeFailed rcd \<noteq> [] then io_fail (ErrConvergenceForeignRows (ir_StatementID rcd))
      else if ir_Lifecycle rcd = LifecycleAbortPending then runAbort r rcd sch
      else if ir_Lifecycle rcd \<noteq> LifecyclePreparing then io_return rcd
      else
        (let table = CHTableName (ts_TableID sch) in
         io_bind (activeParts r (r_UnsafeDatabase r) table) (\<lambda>current.
         io_bind (attributeLoop r rcd sch table (expectedRowIDs r rcd sch) current) (\<lambda>res.
         case res of
           Inl name \<Rightarrow>
             persistConvergenceFailure r rcd
               (''part '' @ name @ '' carries a row id outside the statement'' @ [QUOTE] @ ''s derived set'')
         | Inr (attributed, seen, rows) \<Rightarrow> convergeRows r rcd sch table current attributed seen rows))))"

text \<open>A record that was left unfinished is converged before it is used.\<close>

definition converged :: "('o, 'h :: ab_group_add) role \<Rightarrow> intakeRecord \<Rightarrow> TableSchema \<Rightarrow> ('o, intakeRecord) act" where
  "converged r rcd sch =
     (if ir_Lifecycle rcd \<in> {LifecyclePreparing, LifecycleAbortPending} then convergeIntake r rcd sch else io_return rcd)"

fun convergeLoop :: "('o, 'h :: ab_group_add) role \<Rightarrow> intakeRecord list \<Rightarrow> ('o, unit) act" where
  "convergeLoop r [] = io_return ()"
| "convergeLoop r (rcd # rcds) =
     (if ir_Lifecycle rcd \<notin> {LifecyclePreparing, LifecycleAbortPending} then convergeLoop r rcds
      else
        io_bind (io_lift (validateRecordedBindings r rcd)) (\<lambda>_.
        io_bind (resolveEnvelopeSchema r (ir_Envelope rcd)) (\<lambda>sch.
        io_try (convergeIntake r rcd sch) (\<lambda>res.
        case res of
          Inr _ \<Rightarrow> convergeLoop r rcds
        | Inl e \<Rightarrow> (case e of ErrConvergenceForeignRows _ \<Rightarrow> convergeLoop r rcds | _ \<Rightarrow> io_fail e)))))"

definition convergeStartup :: "('o, 'h :: ab_group_add) role \<Rightarrow> ('o, unit) act" where
  "convergeStartup r = io_bind (journal_list r) (\<lambda>records. convergeLoop r records)"

section \<open>Preparing a statement\<close>

definition insertRows :: "('o, 'h) role \<Rightarrow> string \<Rightarrow> string \<Rightarrow> Row list \<Rightarrow> ('o, unit) act" where
  "insertRows r db table rows =
     (if rows = [] then io_return ()
      else io_bind (logged (InsertRows (db @ ''.'' @ table) rows)) (\<lambda>_.
           on_out ErrCH (conn_insert (r_Conn r) (db @ ''.'' @ table) rows)))"

definition putPayload :: "('o, 'h) role \<Rightarrow> string \<Rightarrow> bytes \<Rightarrow> ('o, unit) act" where
  "putPayload r ref payload = io_bind (logged (PutPayload ref)) (\<lambda>_. on_out (\<lambda>_. ErrSpool) (r_PutPayload r ref payload))"

definition derivedRows :: "('o, 'h) role \<Rightarrow> TableSchema \<Rightarrow> string \<Rightarrow> string list list \<Rightarrow> Row list" where
  "derivedRows r sch flat values =
     map (\<lambda>(i, v). \<lparr>row_RowID = r_RowID r (ts_TableID sch) flat (of_nat i), row_Values = v\<rparr>) (List.enumerate 0 values)"

definition freshRecord ::
    "PrepareRequest \<Rightarrow> string \<Rightarrow> int \<Rightarrow> string list \<Rightarrow> (string, string list) fmap \<Rightarrow> nat \<Rightarrow> intakeRecord" where
  "freshRecord req payloadEncoding revision touched inventory n =
     \<lparr>ir_StatementID = Flat (env_StatementID (req_Envelope req)), ir_Lifecycle = LifecyclePreparing, ir_Envelope = req_Envelope req,
      ir_PayloadEncoding = payloadEncoding, ir_Revision = revision, ir_TouchedPartitions = touched,
      ir_PreWriteInventory = inventory, ir_ExpectedRowCount = of_nat n, ir_Result = None, ir_RC = None, ir_Abort = None,
      ir_ConvergeFailed = []\<rparr>"

text \<open>Once the intent is journaled: spool the payload, write the rows, assemble the claim and journal it.\<close>

definition writeStatement ::
    "('o, 'h :: ab_group_add) role \<Rightarrow> PrepareRequest \<Rightarrow> bytes \<Rightarrow> TableSchema \<Rightarrow> string \<Rightarrow> Part list \<Rightarrow> Row list \<Rightarrow> intakeRecord \<Rightarrow>
     ('o, PreparedLocalResult) act" where
  "writeStatement r req payload sch table before rows rcd =
     io_bind (journal_save r rcd) (\<lambda>_.
     io_bind (putPayload r (env_PayloadRef (req_Envelope req)) payload) (\<lambda>_.
     io_bind (insertRows r (r_UnsafeDatabase r) table rows) (\<lambda>_.
     io_bind (assembleAfterWrite r (req_Envelope req) sch table before rcd) (\<lambda>(result, rc).
     io_bind (journal_save r (rcd\<lparr>ir_Lifecycle := LifecycleUnsafeWritten, ir_Result := Some result, ir_RC := Some rc\<rparr>)) (\<lambda>_.
     io_return result)))))"

definition atHardLimit :: "('o, 'h) role \<Rightarrow> (string, string list) fmap \<Rightarrow> string \<Rightarrow> bool" where
  "atHardLimit r inventory partitionID \<longleftrightarrow>
     \<not> r_DisableHardParts r \<and> int (length (fmget [] inventory partitionID)) \<ge> r_HardPartsPerPartition r"

definition prepareFresh ::
    "('o, 'h :: ab_group_add) role \<Rightarrow> PrepareRequest \<Rightarrow> bytes \<Rightarrow> string \<Rightarrow> int \<Rightarrow> TableSchema \<Rightarrow> ('o, PreparedLocalResult) act" where
  "prepareFresh r req payload payloadEncoding revision sch =
     (if \<not> validatePayloadBinding r (req_Envelope req) payload then io_fail ErrPayloadMismatchPreWrite
      else if \<not> r_hasPayloads r \<or> \<not> r_hasConn r then io_fail ErrDependencies
      else case r_DecodeRows r sch revision payload of
        None \<Rightarrow> io_fail ErrPayloadMismatchPreWrite
      | Some values \<Rightarrow>
          (let rows = derivedRows r sch (Flat (env_StatementID (req_Envelope req))) values;
               table = CHTableName (ts_TableID sch)
           in
             io_bind (io_lift (touchedPartitions r sch rows)) (\<lambda>touched.
             io_bind (activeParts r (r_UnsafeDatabase r) table) (\<lambda>before.
             let inventory = foldl (\<lambda>m p. fmupd p (partNamesForPartition sch before p) m) fmempty touched in
             case find (atHardLimit r inventory) touched of
               Some partitionID \<Rightarrow> io_fail (ErrBackpressure partitionID)
             | None \<Rightarrow>
                 writeStatement r req payload sch table before rows
                   (freshRecord req payloadEncoding revision touched inventory (length rows))))))"

definition preparedResult :: "intakeRecord \<Rightarrow> (role_error, PreparedLocalResult) result" where
  "preparedResult rcd = (case ir_Result rcd of Some res \<Rightarrow> Inr res | None \<Rightarrow> Inl (ErrIntakeLifecycle (ir_StatementID rcd)))"

text \<open>What a prepare does with the record of an earlier attempt.\<close>

definition prepareRecorded ::
    "('o, 'h :: ab_group_add) role \<Rightarrow> PrepareRequest \<Rightarrow> bytes \<Rightarrow> string \<Rightarrow> int \<Rightarrow> TableSchema \<Rightarrow> intakeRecord \<Rightarrow> ('o, PreparedLocalResult) act" where
  "prepareRecorded r req payload payloadEncoding revision sch rcd =
     io_bind (io_lift (validateReplayRequest r rcd req payload)) (\<lambda>_.
     case ir_Lifecycle rcd of
       LifecycleOther l \<Rightarrow> io_fail (ErrIntakeLifecycle (ir_StatementID rcd))
     | _ \<Rightarrow>
         io_bind (converged r rcd sch) (\<lambda>rcd'.
         if ir_Lifecycle rcd' \<in> {LifecycleUnsafeWritten, LifecycleRCBound} then io_lift (preparedResult rcd')
         else prepareFresh r req payload payloadEncoding revision sch))"

definition PrepareLocalStatement ::
    "('o, 'h :: ab_group_add) role \<Rightarrow> PrepareRequest \<Rightarrow> bytes \<Rightarrow> ('o, PreparedLocalResult) act" where
  "PrepareLocalStatement r req payload =
     io_bind (io_lift (validatePrepareBindings r ErrPayloadMismatchPreWrite req)) (\<lambda>(payloadEncoding, revision).
     io_bind (journal_load r (Flat (env_StatementID (req_Envelope req)))) (\<lambda>loaded.
     io_bind (if loaded = None \<or> map_option ir_Lifecycle loaded = Some LifecycleCleaned
              then requireAdmissible r (env_TargetTableID (req_Envelope req)) (env_SchemaHash (req_Envelope req))
              else io_return ()) (\<lambda>_.
     io_bind (resolveEnvelopeSchema r (req_Envelope req)) (\<lambda>sch.
     case loaded of
       None \<Rightarrow> prepareFresh r req payload payloadEncoding revision sch
     | Some rcd \<Rightarrow> prepareRecorded r req payload payloadEncoding revision sch rcd))))"

definition LookupPreparedStatement :: "('o, 'h :: ab_group_add) role \<Rightarrow> string \<Rightarrow> ('o, PreparedLocalResult option) act" where
  "LookupPreparedStatement r statementID =
     io_bind (journal_load r statementID) (\<lambda>loaded.
     case loaded of
       None \<Rightarrow> io_return None
     | Some rcd \<Rightarrow>
         if ir_Lifecycle rcd = LifecycleCleaned then io_return None
         else
           io_bind (requireOwned r (env_TargetTableID (ir_Envelope rcd))) (\<lambda>_.
           io_bind (io_lift (validateRecordedBindings r rcd)) (\<lambda>_.
           io_bind (resolveEnvelopeSchema r (ir_Envelope rcd)) (\<lambda>sch.
           io_bind (converged r rcd sch) (\<lambda>rcd'.
           case ir_Lifecycle rcd' of
             LifecycleUnsafeWritten \<Rightarrow> io_lift (rbind (preparedResult rcd') (\<lambda>res. Inr (Some res)))
           | LifecycleRCBound \<Rightarrow> io_lift (rbind (preparedResult rcd') (\<lambda>res. Inr (Some res)))
           | LifecycleCleaned \<Rightarrow> io_return None
           | _ \<Rightarrow> io_fail (ErrIntakeLifecycle statementID))))))"

section \<open>Claiming and aborting\<close>

datatype ClaimCategory = ClaimAccepted | ClaimTerminalReject | ClaimUnknown

record ClaimOutcome =
  co_Category :: ClaimCategory
  co_BoundSource :: string
  co_Reason :: string

definition sendClaim :: "('o, 'h) role \<Rightarrow> RCRecord \<Rightarrow> ('o, (claim_error, unit) result) act" where
  "sendClaim r rc =
     io_bind (logged (SendClaim rc)) (\<lambda>_ w.
     case r_RegisterResultClaim r rc (w_out w) of (res, s) \<Rightarrow> (Inr res, w\<lparr>w_out := s\<rparr>))"

text \<open>The answer to a sent claim.\<close>

definition bindClaim :: "('o, 'h) role \<Rightarrow> intakeRecord \<Rightarrow> PreparedLocalResult \<Rightarrow> (claim_error, unit) result \<Rightarrow> ('o, ClaimOutcome) act" where
  "bindClaim r rcd result answer =
     (case answer of
        Inr _ \<Rightarrow>
          io_bind (if ir_Lifecycle rcd \<noteq> LifecycleRCBound
                   then journal_save r (rcd\<lparr>ir_Lifecycle := LifecycleRCBound, ir_Result := Some (result\<lparr>plr_Lifecycle := LifecycleRCBound\<rparr>)\<rparr>)
                   else io_return ()) (\<lambda>_.
          io_return \<lparr>co_Category = ClaimAccepted, co_BoundSource = r_NodeID r, co_Reason = []\<rparr>)
      | Inl ClaimSign \<Rightarrow> io_fail ErrSign
      | Inl (ClaimInvalidArgument reason) \<Rightarrow> io_return \<lparr>co_Category = ClaimTerminalReject, co_BoundSource = [], co_Reason = reason\<rparr>
      | Inl (ClaimFailed reason) \<Rightarrow> io_return \<lparr>co_Category = ClaimUnknown, co_BoundSource = [], co_Reason = reason\<rparr>)"

definition claimRecorded :: "('o, 'h) role \<Rightarrow> string \<Rightarrow> intakeRecord \<Rightarrow> ('o, ClaimOutcome) act" where
  "claimRecorded r statementID rcd =
     (if ir_Lifecycle rcd \<notin> {LifecycleUnsafeWritten, LifecycleRCBound} then io_fail (ErrNotPrepared statementID)
      else case (ir_RC rcd, ir_Result rcd) of
             (Some rc, Some result) \<Rightarrow> io_bind (sendClaim r rc) (\<lambda>answer. bindClaim r rcd result answer)
           | _ \<Rightarrow> io_fail (ErrNotPrepared statementID))"

definition RegisterPreparedClaim :: "('o, 'h :: ab_group_add) role \<Rightarrow> string \<Rightarrow> ('o, ClaimOutcome) act" where
  "RegisterPreparedClaim r statementID =
     io_bind (journal_load r statementID) (\<lambda>loaded.
     case loaded of
       None \<Rightarrow> io_fail (ErrNotPrepared statementID)
     | Some rcd \<Rightarrow>
         if ir_Lifecycle rcd = LifecycleCleaned then io_fail (ErrNotPrepared statementID)
         else
           io_bind (io_lift (validateRecordedBindings r rcd)) (\<lambda>_.
           io_bind (resolveEnvelopeSchema r (ir_Envelope rcd)) (\<lambda>sch.
           io_bind (converged r rcd sch) (\<lambda>rcd'. claimRecorded r statementID rcd'))))"

text \<open>The abort of a record that convergence did not settle.\<close>

definition abortRecorded :: "('o, 'h :: ab_group_add) role \<Rightarrow> intakeRecord \<Rightarrow> TableSchema \<Rightarrow> string list \<Rightarrow> string \<Rightarrow> ('o, unit) act" where
  "abortRecorded r rcd sch partNames reason =
     io_bind (case ir_Result rcd of
                None \<Rightarrow> io_return ()
              | Some res \<Rightarrow> io_lift (requireExactAbortParts (plr_CandidateParts res) partNames)) (\<lambda>_.
     let names = (case ir_Abort rcd of
                    Some abort \<Rightarrow> if ir_Lifecycle rcd = LifecycleAbortPending
                                   then sortedUniqueStrings (ia_PartNames abort @ sortedUniqueStrings partNames)
                                   else sortedUniqueStrings partNames
                  | None \<Rightarrow> sortedUniqueStrings partNames);
         rcd' = rcd\<lparr>ir_Lifecycle := LifecycleAbortPending, ir_Abort := Some \<lparr>ia_PartNames = names, ia_Reason = reason\<rparr>\<rparr>
     in io_bind (journal_save r rcd') (\<lambda>_. io_bind (runAbort r rcd' sch) (\<lambda>_. io_return ())))"

definition AbortPreparedStatement :: "('o, 'h :: ab_group_add) role \<Rightarrow> string \<Rightarrow> string list \<Rightarrow> string \<Rightarrow> ('o, unit) act" where
  "AbortPreparedStatement r statementID partNames reason =
     io_bind (journal_load r statementID) (\<lambda>loaded.
     case loaded of
       None \<Rightarrow> if partNames = [] then io_return () else io_fail (ErrNotPrepared statementID)
     | Some rcd \<Rightarrow>
         if ir_Lifecycle rcd = LifecycleCleaned then io_return ()
         else
           io_bind (io_lift (validateRecordedBindings r rcd)) (\<lambda>_.
           io_bind (resolveEnvelopeSchema r (ir_Envelope rcd)) (\<lambda>sch.
           io_bind (converged r rcd sch) (\<lambda>rcd'.
           if ir_Lifecycle rcd' = LifecycleCleaned then io_return () else abortRecorded r rcd' sch partNames reason))))"

definition SubmitLocalStatement :: "('o, 'h :: ab_group_add) role \<Rightarrow> StatementEnvelope \<Rightarrow> bytes \<Rightarrow> ('o, unit) act" where
  "SubmitLocalStatement r env payload =
     io_bind (PrepareLocalStatement r
       \<lparr>req_Envelope = env, req_PayloadEncoding = env_PayloadFormat env, req_Revision = uint (env_ClientRevision env)\<rparr> payload) (\<lambda>_.
     io_bind (RegisterPreparedClaim r (Flat (env_StatementID env))) (\<lambda>out.
     if co_Category out \<noteq> ClaimAccepted then io_fail (ErrRegisterRC (co_Reason out)) else io_return ()))"

end
