(* ===== verification/Intake_Safety.thy ===== *)
theory Intake_Safety
  imports SNode_Intake
begin

text \<open>
  What the staged intake keeps of its journal: every entry point files valid records under their own names, a record
  that reached \<open>LifecycleRCBound\<close> is final, and rows are written only under a journaled intent with nothing of an
  earlier attempt left.
\<close>

context effect
begin

text \<open>A run of a sequence, where the rest is known only for what the first part gave.\<close>

lemma run:
  assumes "io_within R m" "\<And>a s1. m s = (Inr a, s1) \<Longrightarrow> R s1 (snd (k a s1))"
  shows "R s (snd (io_bind m k s))"
proof -
  obtain res s1 where m: "m s = (res, s1)" by fastforce
  with io_withinD [OF assms(1) m] assms(2) show ?thesis by (cases res) (auto simp: io_bind_def intro: trans)
qed

end

section \<open>Steps that keep the journal\<close>

definition steady :: "'o world \<Rightarrow> 'o world \<Rightarrow> bool" where
  "steady w w' \<longleftrightarrow> w_intake w' = w_intake w"

interpretation steady: effect steady
  by unfold_locales (auto simp: steady_def)

lemma steady_quiet: "io_within (quiet P) m \<Longrightarrow> io_within steady m"
  by (auto simp: io_within_def quiet_def steady_def)

lemma steady_steps [simp, intro]:
  "io_within steady (on_out err m)" "io_within steady (read_store f)" "io_within steady (read_out i)"
  "io_within steady (journal_load r flatID)" "io_within steady (journal_list r)" "io_within steady (activeParts r db table)"
  "io_within steady (scanParts r table' sch names)" "io_within steady (schemaFor r tableID)" "io_within steady (requireOwned r tableID)"
  "io_within steady (stateRootTables r)"
  by (rule steady_quiet, rule quiet_steps quiet_reads)+

lemma steady_store [simp, intro]: "io_within steady (on_store r run)"
  by (auto simp: io_within_def steady_def on_store_snd)

lemma steady_logged [simp, intro]: "io_within steady (logged e)" "io_within steady (exec r e)"
  by (rule steady_quiet [where P = "\<lambda>_. True"], auto)+

lemma steady_schema [simp, intro]: "io_within steady (resolveEnvelopeSchema r env)"
  unfolding resolveEnvelopeSchema_def by (auto split: sum.splits)

lemma steady_admissible [simp, intro]: "io_within steady (requireAdmissible r tableID h)"
  unfolding requireAdmissible_def by (auto split: prod.splits option.splits)

lemma steady_assembleLoop [simp, intro]: "io_within steady (assembleLoop r env sch infos sums scans)"
proof (induction scans arbitrary: sums)
  case Nil
  show ?case unfolding assembleLoop.simps by (rule steady.pure)
next
  case (Cons s ss)
  show ?case unfolding assembleLoop.simps Let_def
    by (cases "fmlookup infos (sc_PartName s)") (auto intro!: steady.bind Cons.IH split: prod.splits)
qed

lemma steady_assemble [simp, intro]: "io_within steady (assembleAfterWrite r env sch table before rcd)"
proof -
  have "io_within steady (sourceClaimRoot r)"
    unfolding sourceClaimRoot_def by (intro steady.bind) (auto intro!: steady.bind split: option.splits prod.splits)
  then have "io_within steady (assembleRC r env sch newParts scans)" for newParts scans
    unfolding assembleRC_def Let_def by (intro steady.bind) (auto intro!: steady.bind split: prod.splits)
  then show ?thesis unfolding assembleAfterWrite_def Let_def by (intro steady.bind) (auto intro!: steady.bind)
qed

lemma steady_abortPart [simp, intro]: "io_within steady (abortPart r rcd table name)"
proof -
  have "io_within steady (excludeAbortedPart r rcd name)"
    unfolding excludeAbortedPart_def by (auto split: option.splits)
  then show ?thesis unfolding abortPart_def by (auto intro!: steady.bind steady.attempt split: sum.splits)
qed

lemma steady_attributeLoop [simp, intro]: "io_within steady (attributeLoop r rcd sch table expected ps)"
proof (induction ps)
  case Nil
  show ?case unfolding attributeLoop.simps by (rule steady.pure)
next
  case (Cons p ps)
  show ?case unfolding attributeLoop.simps scanPartRowIDs_def
    by (auto intro!: steady.bind Cons.IH split: sum.splits prod.splits)
qed

lemma steady_writes [simp, intro]:
  "io_within steady (putPayload r ref payload)" "io_within steady (insertRows r db table rows)" "io_within steady (sendClaim r rc)"
proof -
  show "io_within steady (putPayload r ref payload)" "io_within steady (insertRows r db table rows)"
    by (auto simp: putPayload_def insertRows_def)
  have "io_within steady (\<lambda>w. case r_RegisterResultClaim r rc (w_out w) of (res, s) \<Rightarrow> (Inr res, w\<lparr>w_out := s\<rparr>))"
    by (auto simp: io_within_def steady_def split: prod.splits)
  then show "io_within steady (sendClaim r rc)" unfolding sendClaim_def by (intro steady.bind) auto
qed

section \<open>The law of the journal\<close>

text \<open>Valid files stay valid files, and a bound record stays as it is.\<close>

definition lawful :: "'o world \<Rightarrow> 'o world \<Rightarrow> bool" where
  "lawful w w' \<longleftrightarrow>
     (wf_journal (w_intake w) \<longrightarrow> wf_journal (w_intake w')) \<and>
     (\<forall>s rcd. recorded (w_intake w) s = Some rcd \<and> ir_Lifecycle rcd = LifecycleRCBound \<longrightarrow> recorded (w_intake w') s = Some rcd)"

interpretation lawful: effect lawful
  by unfold_locales (auto simp: lawful_def)

lemma lawful_steady: "io_within steady m \<Longrightarrow> io_within lawful m"
  by (auto simp: io_within_def steady_def lawful_def)

lemma journal_save_run:
  assumes "journal_save r rcd w = (res, w')"
  obtains ok wo res' where "save ok wo rcd (w_intake w) = (res', w_intake w')" "res = rmap_error ErrJournal res'"
    "w_trace w' = w_trace w" "w_store w' = w_store w"
  using assms by (auto simp: journal_save_def split: prod.splits)

lemma save_keeps_bound:
  assumes "save ok wo rcd j = (res, j')" "recorded j s = Some p" "ir_Lifecycle p = LifecycleRCBound"
    and "ir_Lifecycle rcd \<noteq> LifecycleRCBound \<or> map_option ir_Lifecycle (recorded j (ir_StatementID rcd)) \<noteq> Some LifecycleRCBound"
  shows "recorded j' s = Some p"
  using save_changes [OF assms(1)] assms(2-4) by (auto simp: recorded_upd split: option.splits)

lemma lawful_save:
  assumes "ir_Lifecycle rcd \<noteq> LifecycleRCBound \<or> map_option ir_Lifecycle (recorded (w_intake w) (ir_StatementID rcd)) \<noteq> Some LifecycleRCBound"
    and "journal_save r rcd w = (res, w')"
  shows "lawful w w'"
  using assms(2)
proof (rule journal_save_run)
  fix ok wo res'
  assume "save ok wo rcd (w_intake w) = (res', w_intake w')"
  with save_wf [OF this] save_keeps_bound [OF this _ _ assms(1)] show ?thesis by (auto simp: lawful_def)
qed

lemma lawful_save_open [intro]: "ir_Lifecycle rcd \<noteq> LifecycleRCBound \<Longrightarrow> io_within lawful (journal_save r rcd)"
  unfolding io_within_def by (auto intro: lawful_save [OF _ surjective_pairing])

lemma lawful_runAbort [intro]: "io_within lawful (runAbort r rcd sch)"
  unfolding runAbort_def Let_def
  by (auto intro!: lawful.bind lawful_steady [OF steady.each] split: option.splits)

lemma lawful_converge [intro]: "io_within lawful (convergeIntake r rcd sch)"
proof -
  have failed: "io_within lawful (persistConvergenceFailure r rcd reason)" if "ir_Lifecycle rcd = LifecyclePreparing" for reason
    unfolding persistConvergenceFailure_def using that by (auto intro!: lawful.bind)
  have rows: "io_within lawful (convergeRows r rcd sch table current attributed seen rows)" if "ir_Lifecycle rcd = LifecyclePreparing"
    for table current attributed seen rows
    unfolding convergeRows_def Let_def
    by (auto intro!: lawful.bind failed [OF that] lawful_steady [OF steady_assemble] split: prod.splits)
  show ?thesis unfolding convergeIntake_def Let_def
    by (auto intro!: lawful.bind rows failed lawful_steady [OF steady_attributeLoop] lawful_steady [OF steady_steps(6)]
        split: sum.splits prod.splits)
qed

lemma lawful_converged [intro]: "io_within lawful (converged r rcd sch)"
  unfolding converged_def by auto

lemma lawful_fresh [intro]: "io_within lawful (prepareFresh r req payload enc revision sch)"
proof -
  have "io_within lawful (writeStatement r req payload sch table before rows (freshRecord req enc revision touched inventory n))"
    for table before rows touched inventory n
    unfolding writeStatement_def
    by (auto simp: freshRecord_def intro!: lawful.bind lawful_steady [OF steady_assemble] lawful_steady [OF steady_writes(1)]
        lawful_steady [OF steady_writes(2)] split: prod.splits)
  then show ?thesis unfolding prepareFresh_def Let_def
    by (auto intro!: lawful.bind lawful_steady [OF steady_steps(6)] split: option.splits)
qed

section \<open>What an entry point finds and leaves on file\<close>

lemma journal_load_run:
  assumes "journal_load r s w = (Inr loaded, w')"
  shows "loaded = recorded (w_intake w) s \<and> w_intake w' = w_intake w \<and> w_trace w' = w_trace w \<and> w_store w' = w_store w"
  using assms by (auto simp: journal_load_def load_iff split: prod.splits)

lemma recorded_id: "wf_journal j \<Longrightarrow> recorded j s = Some rcd \<Longrightarrow> ir_StatementID rcd = s"
  unfolding wf_journal_def recorded_def by (metis recordPath_inject)

lemma journal_save_ok:
  assumes "journal_save r rcd w = (Inr (), w')"
  shows "recorded (w_intake w') (ir_StatementID rcd) = Some rcd"
  using assms
proof (rule journal_save_run)
  fix ok wo res'
  assume "save ok wo rcd (w_intake w) = (res', w_intake w')" "Inr () = rmap_error ErrJournal res'"
  then show ?thesis by (cases res') (auto dest: save_ok_recorded)
qed

text \<open>The record a step returns is the one on file.\<close>

lemma runAbort_recorded:
  assumes "runAbort r rcd sch w = (Inr rcd', w')"
  shows "rcd' = rcd\<lparr>ir_Lifecycle := LifecycleCleaned\<rparr> \<and> recorded (w_intake w') (ir_StatementID rcd) = Some rcd'"
  using assms by (auto simp: runAbort_def Let_def io_bind_Inr split: option.splits dest!: journal_save_ok)

lemma persist_fails [simp]: "persistConvergenceFailure r rcd reason w \<noteq> (Inr rcd', w')"
  by (auto simp: persistConvergenceFailure_def io_bind_Inr)

lemma convergeRows_recorded:
  assumes "convergeRows r rcd sch table current attributed seen rows w = (Inr rcd', w')"
  shows "recorded (w_intake w') (ir_StatementID rcd) = Some rcd' \<and> ir_StatementID rcd' = ir_StatementID rcd \<and>
    ir_Lifecycle rcd' \<in> {LifecycleUnsafeWritten, LifecycleCleaned}"
proof -
  from assms show ?thesis
    by (auto simp: convergeRows_def Let_def io_bind_Inr split: if_splits prod.splits dest!: journal_save_ok runAbort_recorded)
qed

lemma convergeIntake_attributed:
  assumes "convergeIntake r rcd sch w = (Inr rcd', w')" "ir_Lifecycle rcd = LifecyclePreparing"
  shows "\<exists>current w1 attributed seen rows w2.
    activeParts r (r_UnsafeDatabase r) (CHTableName (ts_TableID sch)) w = (Inr current, w1) \<and>
    attributeLoop r rcd sch (CHTableName (ts_TableID sch)) (expectedRowIDs r rcd sch) current w1 = (Inr (Inr (attributed, seen, rows)), w2) \<and>
    convergeRows r rcd sch (CHTableName (ts_TableID sch)) current attributed seen rows w2 = (Inr rcd', w')"
proof -
  let ?reason = "\<lambda>name. ''part '' @ name @ '' carries a row id outside the statement'' @ [QUOTE] @ ''s derived set''"
  from assms obtain current w1 res w2 where run: "activeParts r (r_UnsafeDatabase r) (CHTableName (ts_TableID sch)) w = (Inr current, w1)"
    "attributeLoop r rcd sch (CHTableName (ts_TableID sch)) (expectedRowIDs r rcd sch) current w1 = (Inr res, w2)"
    and rest: "(case res of Inl name \<Rightarrow> persistConvergenceFailure r rcd (?reason name)
       | Inr (attributed, seen, rows) \<Rightarrow> convergeRows r rcd sch (CHTableName (ts_TableID sch)) current attributed seen rows) w2 = (Inr rcd', w')"
    unfolding convergeIntake_def Let_def by (auto simp: io_bind_Inr simp del: append.simps split: if_splits)
  show ?thesis
  proof (cases res)
    case (Inl name)
    with rest show ?thesis by simp
  next
    case (Inr found)
    with run rest show ?thesis by (cases found) auto
  qed
qed

lemma convergeIntake_recorded:
  assumes "convergeIntake r rcd sch w = (Inr rcd', w')" "ir_Lifecycle rcd \<in> {LifecyclePreparing, LifecycleAbortPending}"
  shows "recorded (w_intake w') (ir_StatementID rcd) = Some rcd' \<and> ir_StatementID rcd' = ir_StatementID rcd \<and>
    ir_Lifecycle rcd' \<in> {LifecycleUnsafeWritten, LifecycleCleaned}"
proof (cases "ir_Lifecycle rcd = LifecycleAbortPending")
  case True
  with assms(1) runAbort_recorded [of r rcd sch w rcd' w'] show ?thesis by (auto simp: convergeIntake_def split: if_splits)
next
  case False
  with assms(2) convergeIntake_attributed [OF assms(1)] obtain current attributed seen rows w1
    where "convergeRows r rcd sch (CHTableName (ts_TableID sch)) current attributed seen rows w1 = (Inr rcd', w')" by auto
  then show ?thesis by (rule convergeRows_recorded)
qed

lemma converged_recorded:
  assumes "converged r rcd sch w = (Inr rcd', w')" "recorded (w_intake w) s = Some rcd" "ir_StatementID rcd = s"
  shows "recorded (w_intake w') s = Some rcd' \<and> ir_StatementID rcd' = s \<and>
    (ir_Lifecycle rcd \<in> {LifecyclePreparing, LifecycleAbortPending} \<longrightarrow> ir_Lifecycle rcd' \<in> {LifecycleUnsafeWritten, LifecycleCleaned}) \<and>
    (ir_Lifecycle rcd \<notin> {LifecyclePreparing, LifecycleAbortPending} \<longrightarrow> rcd' = rcd \<and> w' = w)"
  using assms convergeIntake_recorded [of r rcd sch w rcd' w'] by (auto simp: converged_def split: if_splits)

lemma lawful_bindClaim:
  assumes "recorded (w_intake w) (ir_StatementID rcd) = Some rcd" "bindClaim r rcd result answer w = (res, w')"
  shows "lawful w w'"
proof (cases "\<exists>u. answer = Inr u \<and> ir_Lifecycle rcd \<noteq> LifecycleRCBound")
  case True
  let ?rcd = "rcd\<lparr>ir_Lifecycle := LifecycleRCBound, ir_Result := Some (result\<lparr>plr_Lifecycle := LifecycleRCBound\<rparr>)\<rparr>"
  from assms(2) True have "w' = snd (journal_save r ?rcd w)"
    by (auto simp: bindClaim_def io_bind_def split: prod.splits sum.splits)
  with True assms(1) lawful_save [of ?rcd w r "fst (journal_save r ?rcd w)" w'] show ?thesis by simp
next
  case False
  with assms(2) have "w' = w" by (auto simp: bindClaim_def io_bind_def split: sum.splits claim_error.splits if_splits)
  then show ?thesis by (simp add: lawful.refl)
qed

section \<open>The entry points\<close>

text \<open>One call of the intake; \<open>Startup\<close> is the convergence pass that a starting node runs.\<close>

datatype intake_op =
  Prepare PrepareRequest bytes
| Lookup string
| Claim string
| Abort string "string list" string
| Submit StatementEnvelope bytes
| Startup

fun intake_exec :: "('o, 'h :: ab_group_add) role \<Rightarrow> intake_op \<Rightarrow> ('o, unit) act" where
  "intake_exec r (Prepare req payload) = io_bind (PrepareLocalStatement r req payload) (\<lambda>_. io_return ())"
| "intake_exec r (Lookup s) = io_bind (LookupPreparedStatement r s) (\<lambda>_. io_return ())"
| "intake_exec r (Claim s) = io_bind (RegisterPreparedClaim r s) (\<lambda>_. io_return ())"
| "intake_exec r (Abort s parts reason) = AbortPreparedStatement r s parts reason"
| "intake_exec r (Submit env payload) = SubmitLocalStatement r env payload"
| "intake_exec r Startup = convergeStartup r"

lemma lawful_prepare [intro]: "io_within lawful (PrepareLocalStatement r req payload)"
proof -
  have "io_within lawful (prepareRecorded r req payload enc rev' sch rcd)" for enc rev' sch rcd
    unfolding prepareRecorded_def by (intro lawful.bind) (auto intro!: lawful.bind split: IntakeLifecycle.splits)
  then show ?thesis unfolding PrepareLocalStatement_def
    by (intro lawful.bind) (auto intro!: lawful.bind lawful_steady [OF steady_steps(4)] lawful_steady [OF steady_admissible]
        lawful_steady [OF steady_schema] split: option.splits prod.splits)
qed

lemma lawful_lookup [intro]: "io_within lawful (LookupPreparedStatement r s)"
  unfolding LookupPreparedStatement_def
  by (intro lawful.bind) (auto intro!: lawful.bind lawful_steady [OF steady_steps(4)] lawful_steady [OF steady_steps(9)]
      lawful_steady [OF steady_schema] split: option.splits IntakeLifecycle.splits)

lemma lawful_abort [intro]: "io_within lawful (AbortPreparedStatement r s parts reason)"
proof -
  have "io_within lawful (abortRecorded r rcd sch parts reason)" for rcd sch
    unfolding abortRecorded_def Let_def by (intro lawful.bind) (auto intro!: lawful.bind split: option.splits)
  then show ?thesis unfolding AbortPreparedStatement_def
    by (intro lawful.bind) (auto intro!: lawful.bind lawful_steady [OF steady_steps(4)] lawful_steady [OF steady_schema] split: option.splits)
qed

lemma lawful_startup [intro]: "io_within lawful (convergeStartup r)"
proof -
  have "io_within lawful (convergeLoop r rcds)" for rcds
  proof (induction rcds)
    case (Cons rcd rcds)
    show ?case unfolding convergeLoop.simps
      by (auto intro!: lawful.bind lawful.attempt Cons.IH lawful_steady [OF steady_schema] split: sum.splits role_error.splits)
  qed (simp add: lawful.pure)
  then show ?thesis unfolding convergeStartup_def by (auto intro!: lawful.bind lawful_steady [OF steady_steps(5)])
qed

lemma lawful_claim:
  assumes "recorded (w_intake w) (ir_StatementID rcd) = Some rcd"
  shows "lawful w (snd (claimRecorded r s rcd w))"
proof -
  have "w_intake w1 = w_intake w" if "sendClaim r rc w = (Inr answer, w1)" for rc answer w1
    using io_withinD [OF steady_writes(3) that] by (simp add: steady_def)
  with assms have "lawful w (snd (io_bind (sendClaim r rc) (\<lambda>answer. bindClaim r rcd result answer) w))" for rc result
    by (intro lawful.run [OF lawful_steady [OF steady_writes(3)]]) (simp add: lawful_bindClaim [OF _ surjective_pairing])
  then show ?thesis by (auto simp: claimRecorded_def io_simps lawful.refl split: option.splits)
qed

lemma lawful_register:
  assumes wf: "wf_journal (w_intake w)"
  shows "lawful w (snd (RegisterPreparedClaim r s w))"
proof -
  have "lawful w2 (snd (io_bind (converged r rcd sch) (claimRecorded r s) w2))"
    if "recorded (w_intake w) s = Some rcd" "w_intake w2 = w_intake w" for rcd sch w2
  proof (rule lawful.run [OF lawful_converged])
    fix rcd' w3
    assume "converged r rcd sch w2 = (Inr rcd', w3)"
    from converged_recorded [OF this, of s] that recorded_id [OF wf that(1)]
    show "lawful w3 (snd (claimRecorded r s rcd' w3))" by (intro lawful_claim) simp
  qed
  then have schema: "lawful w1 (snd (io_bind (resolveEnvelopeSchema r env) (\<lambda>sch. io_bind (converged r rcd sch) (claimRecorded r s)) w1))"
    if "recorded (w_intake w) s = Some rcd" "w_intake w1 = w_intake w" for env rcd w1
    using that by (intro lawful.run [OF lawful_steady [OF steady_schema]])
      (metis io_withinD [OF steady_schema] steady_def)
  have checked: "lawful w1 (snd (io_bind (io_lift v) (\<lambda>_. io_bind (resolveEnvelopeSchema r env) (\<lambda>sch.
      io_bind (converged r rcd sch) (claimRecorded r s))) w1))"
    if "recorded (w_intake w) s = Some rcd" "w_intake w1 = w_intake w" for v :: "(role_error, unit) result" and env rcd w1
    using schema [OF that] by (cases v) (simp_all add: io_bind_def lawful.refl)
  show ?thesis unfolding RegisterPreparedClaim_def
  proof (rule lawful.run [OF lawful_steady [OF steady_steps(4)]])
    fix loaded w1
    assume "journal_load r s w = (Inr loaded, w1)"
    from journal_load_run [OF this] checked
    show "lawful w1 (snd ((case loaded of None \<Rightarrow> io_fail (ErrNotPrepared s)
      | Some rcd \<Rightarrow> if ir_Lifecycle rcd = LifecycleCleaned then io_fail (ErrNotPrepared s)
          else io_bind (io_lift (validateRecordedBindings r rcd)) (\<lambda>_. io_bind (resolveEnvelopeSchema r (ir_Envelope rcd)) (\<lambda>sch.
            io_bind (converged r rcd sch) (\<lambda>rcd'. claimRecorded r s rcd')))) w1))"
      by (simp add: io_fail_def lawful.refl split: option.splits)
  qed
qed

lemma lawful_exec:
  assumes "wf_journal (w_intake w)"
  shows "lawful w (snd (intake_exec r op w))"
proof (cases op)
  case (Claim s)
  from lawful_register [OF assms, of r s] show ?thesis
    by (auto simp: Claim io_bind_def split: prod.splits sum.splits)
next
  case (Submit env payload)
  show ?thesis unfolding Submit intake_exec.simps SubmitLocalStatement_def
  proof (rule lawful.run [OF lawful_prepare])
    fix prepared w1
    assume "PrepareLocalStatement r \<lparr>req_Envelope = env, req_PayloadEncoding = env_PayloadFormat env,
      req_Revision = uint (env_ClientRevision env)\<rparr> payload w = (Inr prepared, w1)"
    from io_withinD [OF lawful_prepare this] assms have "wf_journal (w_intake w1)" by (simp add: lawful_def)
    from lawful_register [OF this, of r "Flat (env_StatementID env)"]
    show "lawful w1 (snd (io_bind (RegisterPreparedClaim r (Flat (env_StatementID env))) (\<lambda>out.
        if co_Category out \<noteq> ClaimAccepted then io_fail (ErrRegisterRC (co_Reason out)) else io_return ()) w1))"
      by (auto simp: io_bind_def split: prod.splits sum.splits)
  qed
next
  case (Prepare req payload)
  have "io_within lawful (intake_exec r op)" unfolding Prepare intake_exec.simps by (intro lawful.bind lawful_prepare lawful.pure)
  then show ?thesis by (simp add: io_within_def)
next
  case (Lookup s)
  have "io_within lawful (intake_exec r op)" unfolding Lookup intake_exec.simps by (intro lawful.bind lawful_lookup lawful.pure)
  then show ?thesis by (simp add: io_within_def)
next
  case (Abort s parts reason)
  then show ?thesis using lawful_abort [of r s parts reason] by (simp add: io_within_def)
next
  case Startup
  then show ?thesis using lawful_startup [of r] by (simp add: io_within_def)
qed

primrec run_calls :: "('o, 'h :: ab_group_add) role \<Rightarrow> intake_op list \<Rightarrow> 'o world \<Rightarrow> 'o world" where
  "run_calls r [] w = w"
| "run_calls r (op # ops) w = run_calls r ops (snd (intake_exec r op w))"

lemma run_calls_lawful: "wf_journal (w_intake w) \<Longrightarrow> lawful w (run_calls r ops w)"
proof (induction ops arbitrary: w)
  case (Cons op ops)
  from lawful_exec [OF Cons.prems, of r op] Cons.prems Cons.IH [of "snd (intake_exec r op w)"] show ?case
    by (auto simp: lawful_def)
qed (simp add: lawful.refl)

section \<open>A bound statement\<close>

text \<open>The statement a call is about.\<close>

fun intake_target :: "intake_op \<Rightarrow> string option" where
  "intake_target (Prepare req payload) = Some (Flat (env_StatementID (req_Envelope req)))"
| "intake_target (Lookup s) = Some s"
| "intake_target (Claim s) = Some s"
| "intake_target (Abort s parts reason) = Some s"
| "intake_target (Submit env payload) = Some (Flat (env_StatementID env))"
| "intake_target Startup = None"

definition resends_claim :: "intakeRecord \<Rightarrow> role_event \<Rightarrow> bool" where
  "resends_claim rcd e \<longleftrightarrow> (\<exists>rc. ir_RC rcd = Some rc \<and> e = SendClaim rc)"

lemma converged_bound [simp]: "ir_Lifecycle rcd = LifecycleRCBound \<Longrightarrow> converged r rcd sch = io_return rcd"
  by (simp add: converged_def)

lemma emits_intake [simp, intro]:
  "io_within (emits P) (resolveEnvelopeSchema r env)" "io_within (emits P) (requireAdmissible r t h)"
  "io_within (emits P) (requireOwned r t)" "io_within (emits P) (journal_load r s)"
proof -
  show "io_within (emits P) (requireOwned r t)" "io_within (emits P) (journal_load r s)" by (simp_all add: quiet_emits)
  show "io_within (emits P) (resolveEnvelopeSchema r env)" "io_within (emits P) (requireAdmissible r t h)"
    unfolding resolveEnvelopeSchema_def requireAdmissible_def
    by (auto intro!: emits.bind emits.attempt quiet_emits split: sum.splits prod.splits option.splits)
qed

text \<open>With the record on file known, the rest of an entry point is known.\<close>

lemma emits_loaded:
  assumes "recorded (w_intake w) s = o'" "io_within (emits P) (k o')"
  shows "emits P w (snd (io_bind (journal_load r s) k w))"
proof (rule emits.run)
  fix loaded w1
  assume "journal_load r s w = (Inr loaded, w1)"
  with assms show "emits P w1 (snd (k loaded w1))" by (auto dest!: journal_load_run simp: io_within_def)
qed simp

lemma emits_run_known:
  assumes "emits P w (snd (m w))" "\<And>a w1. m w = (Inr a, w1) \<Longrightarrow> emits P w1 (snd (k a w1))"
  shows "emits P w (snd (io_bind m k w))"
  using assms by (cases "m w"; cases "fst (m w)") (auto simp: io_bind_def intro: emits_trans)

lemma emits_sendClaim: "P (SendClaim rc) \<Longrightarrow> io_within (emits P) (sendClaim r rc)"
  unfolding sendClaim_def by (intro emits.bind emits_logged) (auto simp: io_within_def emits_def split: prod.splits)

text \<open>A bound record cannot be aborted: the journal refuses the transition before any part is dropped.\<close>

lemma abort_bound:
  assumes "recorded (w_intake w) (ir_StatementID rcd) = Some rcd" "ir_Lifecycle rcd = LifecycleRCBound"
  shows "emits P w (snd (abortRecorded r rcd sch parts reason w))" "\<not> is_ok (fst (abortRecorded r rcd sch parts reason w))"
proof -
  have refused: "\<exists>e w1. journal_save r (rcd\<lparr>ir_Lifecycle := LifecycleAbortPending, ir_Abort := abort\<rparr>) w = (Inl e, w1) \<and> w_trace w1 = w_trace w"
    for abort
  proof -
    obtain res w1 where run: "journal_save r (rcd\<lparr>ir_Lifecycle := LifecycleAbortPending, ir_Abort := abort\<rparr>) w = (res, w1)" by fastforce
    then show ?thesis
    proof (rule journal_save_run)
      fix ok wo res'
      assume "save ok wo (rcd\<lparr>ir_Lifecycle := LifecycleAbortPending, ir_Abort := abort\<rparr>) (w_intake w) = (res', w_intake w1)"
        and "res = rmap_error ErrJournal res'" "w_trace w1 = w_trace w"
      with save_changes [OF this(1)] assms run show ?thesis by (cases res') auto
    qed
  qed
  have failed: "\<exists>e w1. io_bind (journal_save r (rcd\<lparr>ir_Lifecycle := LifecycleAbortPending, ir_Abort := abort\<rparr>)) k w = (Inl e, w1) \<and> w_trace w1 = w_trace w"
    for abort and k :: "unit \<Rightarrow> ('a, unit) act"
    using refused [of abort] by (auto simp: io_bind_def)
  have "\<exists>e w1. abortRecorded r rcd sch parts reason w = (Inl e, w1) \<and> w_trace w1 = w_trace w"
  proof (cases "\<exists>res e. ir_Result rcd = Some res \<and> requireExactAbortParts (plr_CandidateParts res) parts = Inl e")
    case True
    then show ?thesis by (auto simp: abortRecorded_def Let_def io_bind_def)
  next
    case False
    then have "(case ir_Result rcd of None \<Rightarrow> io_return () | Some res \<Rightarrow> io_lift (requireExactAbortParts (plr_CandidateParts res) parts)) w = (Inr (), w)"
      by (cases "ir_Result rcd"; cases "requireExactAbortParts (plr_CandidateParts (the (ir_Result rcd))) parts") auto
    then show ?thesis using failed unfolding abortRecorded_def Let_def by (simp add: io_bind_def [of "case_option _ _ _"])
  qed
  then show "emits P w (snd (abortRecorded r rcd sch parts reason w))" "\<not> is_ok (fst (abortRecorded r rcd sch parts reason w))"
    by (auto simp: emits_def)
qed

lemma schema_same: "resolveEnvelopeSchema r env w = (res, w') \<Longrightarrow> w_intake w' = w_intake w"
  using io_withinD [OF steady_schema] by (auto simp: steady_def)

lemma abort_bound_run:
  assumes "recorded (w_intake w) s = Some rcd" "ir_Lifecycle rcd = LifecycleRCBound" "ir_StatementID rcd = s"
  shows "emits P w (snd (AbortPreparedStatement r s parts reason w))" "\<not> is_ok (fst (AbortPreparedStatement r s parts reason w))"
proof -
  show "emits P w (snd (AbortPreparedStatement r s parts reason w))"
    unfolding AbortPreparedStatement_def
  proof (rule emits.run)
    fix loaded w1
    assume "journal_load r s w = (Inr loaded, w1)"
    with assms have w1: "loaded = Some rcd" "w_intake w1 = w_intake w" by (auto dest!: journal_load_run)
    have "emits P w1 (snd (io_bind (resolveEnvelopeSchema r (ir_Envelope rcd)) (\<lambda>sch. abortRecorded r rcd sch parts reason) w1))"
      using assms w1 by (intro emits.run abort_bound(1)) (auto dest!: schema_same)
    with w1 assms(2) show "emits P w1 (snd ((case loaded of None \<Rightarrow> if parts = [] then io_return () else io_fail (ErrNotPrepared s)
      | Some rcd \<Rightarrow> if ir_Lifecycle rcd = LifecycleCleaned then io_return ()
          else io_bind (io_lift (validateRecordedBindings r rcd)) (\<lambda>_. io_bind (resolveEnvelopeSchema r (ir_Envelope rcd)) (\<lambda>sch.
            io_bind (converged r rcd sch) (\<lambda>rcd'. if ir_Lifecycle rcd' = LifecycleCleaned then io_return ()
              else abortRecorded r rcd' sch parts reason)))) w1))"
      by (auto simp: io_bind_def emits_refl split: sum.splits)
  qed simp
  show "\<not> is_ok (fst (AbortPreparedStatement r s parts reason w))"
  proof
    assume "is_ok (fst (AbortPreparedStatement r s parts reason w))"
    then obtain u w' where "AbortPreparedStatement r s parts reason w = (Inr u, w')"
      by (cases "AbortPreparedStatement r s parts reason w") (auto simp: is_ok_iff)
    then obtain loaded w1 where "journal_load r s w = (Inr loaded, w1)"
      and rest: "(case loaded of None \<Rightarrow> if parts = [] then io_return () else io_fail (ErrNotPrepared s)
        | Some rcd \<Rightarrow> if ir_Lifecycle rcd = LifecycleCleaned then io_return ()
            else io_bind (io_lift (validateRecordedBindings r rcd)) (\<lambda>_. io_bind (resolveEnvelopeSchema r (ir_Envelope rcd)) (\<lambda>sch.
              io_bind (converged r rcd sch) (\<lambda>rcd'. if ir_Lifecycle rcd' = LifecycleCleaned then io_return ()
                else abortRecorded r rcd' sch parts reason)))) w1 = (Inr u, w')"
      unfolding AbortPreparedStatement_def io_bind_Inr by blast
    from this(1) assms have "loaded = Some rcd" "w_intake w1 = w_intake w" by (auto dest!: journal_load_run)
    with rest assms(2) obtain sch w2 where "resolveEnvelopeSchema r (ir_Envelope rcd) w1 = (Inr sch, w2)"
      "abortRecorded r rcd sch parts reason w2 = (Inr u, w')" by (auto simp: io_bind_Inr)
    with \<open>w_intake w1 = w_intake w\<close> abort_bound(2) [where w = w2 and rcd = rcd and r = r and sch = sch and parts = parts and reason = reason] assms show False
      by (auto dest!: schema_same)
  qed
qed

lemma bound_emits:
  assumes "recorded (w_intake w) s = Some rcd" "ir_Lifecycle rcd = LifecycleRCBound"
  shows "Flat (env_StatementID (req_Envelope req)) = s \<Longrightarrow> emits P w (snd (PrepareLocalStatement r req payload w))"
    and "emits P w (snd (LookupPreparedStatement r s w))"
    and "emits (resends_claim rcd) w (snd (RegisterPreparedClaim r s w))"
proof -
  have "io_within (emits P) (case Some rcd of None \<Rightarrow> prepareFresh r req payload enc revision sch
      | Some rcd \<Rightarrow> prepareRecorded r req payload enc revision sch rcd)" for enc revision sch
    using assms(2) by (auto simp: prepareRecorded_def intro!: emits.bind)
  then show "Flat (env_StatementID (req_Envelope req)) = s \<Longrightarrow> emits P w (snd (PrepareLocalStatement r req payload w))"
    unfolding PrepareLocalStatement_def using assms
    by (intro emits.run) (auto intro!: emits_loaded emits.bind split: prod.splits)
  show "emits P w (snd (LookupPreparedStatement r s w))"
    unfolding LookupPreparedStatement_def using assms by (intro emits_loaded) (auto intro!: emits.bind)
  have "io_within (emits (resends_claim rcd)) (claimRecorded r s rcd)"
    using assms(2) unfolding claimRecorded_def
    by (auto intro!: emits.bind emits_sendClaim simp: bindClaim_def resends_claim_def split: option.splits sum.splits claim_error.splits)
  with assms show "emits (resends_claim rcd) w (snd (RegisterPreparedClaim r s w))"
    unfolding RegisterPreparedClaim_def by (intro emits_loaded) (auto intro!: emits.bind)
qed

lemma bound_exec_emits:
  assumes "wf_journal (w_intake w)" "recorded (w_intake w) s = Some rcd" "ir_Lifecycle rcd = LifecycleRCBound"
    and "intake_target op = Some s"
  shows "emits (resends_claim rcd) w (snd (intake_exec r op w))"
proof (cases op)
  case (Prepare req payload)
  with assms(4) show ?thesis by (auto simp: emits_refl intro!: emits_run_known bound_emits(1) [OF assms(2,3)])
next
  case (Lookup s')
  with assms(4) show ?thesis by (auto simp: emits_refl intro!: emits_run_known bound_emits(2) [OF assms(2,3)])
next
  case (Claim s')
  with assms(4) show ?thesis by (auto simp: emits_refl intro!: emits_run_known bound_emits(3) [OF assms(2,3)])
next
  case (Abort s' parts reason)
  with assms(4) abort_bound_run(1) [OF assms(2,3) recorded_id [OF assms(1,2)]] show ?thesis by simp
next
  case (Submit env payload)
  with assms(4) have s: "Flat (env_StatementID env) = s" by simp
  show ?thesis unfolding Submit intake_exec.simps SubmitLocalStatement_def s
  proof (rule emits_run_known)
    fix prepared w1
    assume run: "PrepareLocalStatement r \<lparr>req_Envelope = env, req_PayloadEncoding = env_PayloadFormat env,
      req_Revision = uint (env_ClientRevision env)\<rparr> payload w = (Inr prepared, w1)"
    from io_withinD [OF lawful_prepare run] assms(2,3) have "recorded (w_intake w1) s = Some rcd" by (simp add: lawful_def)
    from bound_emits(3) [OF this assms(3), of r]
    show "emits (resends_claim rcd) w1 (snd (io_bind (RegisterPreparedClaim r s) (\<lambda>out.
        if co_Category out \<noteq> ClaimAccepted then io_fail (ErrRegisterRC (co_Reason out)) else io_return ()) w1))"
      by (auto simp: io_bind_def split: prod.splits sum.splits)
  qed (simp add: s bound_emits(1) [OF assms(2,3)])
qed (use assms(4) in simp)

section \<open>Writing the rows of a statement\<close>

definition silent :: "'o world \<Rightarrow> 'o world \<Rightarrow> bool" where
  "silent w w' \<longleftrightarrow> w_trace w' = w_trace w"

interpretation silent: effect silent
  by unfold_locales (auto simp: silent_def)

lemma silent_emits: "io_within (emits (\<lambda>_. False)) m \<Longrightarrow> io_within silent m"
  by (auto simp: io_within_def emits_def silent_def list_all_iff)

lemma silent_quiet: "io_within (quiet (\<lambda>_. False)) m \<Longrightarrow> io_within silent m"
  by (rule silent_emits) (rule quiet_emits)

lemma silent_steps [simp, intro]:
  "io_within silent (on_store r run)" "io_within silent (journal_save r rcd)" "io_within silent (journal_load r s)"
  "io_within silent (on_out err m)" "io_within silent (read_store f)" "io_within silent (read_out i)"
  "io_within silent (activeParts r db table)" "io_within silent (scanParts r table' sch names)" "io_within silent (stateRootTables r)"
  "io_within silent (resolveEnvelopeSchema r env)" "io_within silent (requireAdmissible r t h)"
  by ((rule silent_emits, simp; fail) | (rule silent_quiet, simp; fail))+

lemma silent_assemble [simp, intro]: "io_within silent (assembleAfterWrite r env sch table before rcd)"
proof -
  have "io_within silent (sourceClaimRoot r)"
    unfolding sourceClaimRoot_def by (intro silent.bind) (auto intro!: silent.bind split: option.splits prod.splits)
  moreover have "io_within silent (assembleLoop r env sch infos sums scans)" for infos sums scans
  proof (induction scans arbitrary: sums)
    case Nil
    show ?case unfolding assembleLoop.simps by (rule silent.pure)
  next
    case (Cons s ss)
    show ?case unfolding assembleLoop.simps Let_def
      by (cases "fmlookup infos (sc_PartName s)") (auto intro!: silent.bind Cons.IH split: prod.splits)
  qed
  ultimately have "io_within silent (assembleRC r env sch newParts scans)" for newParts scans
    unfolding assembleRC_def Let_def by (intro silent.bind) (auto intro!: silent.bind split: prod.splits)
  then show ?thesis unfolding assembleAfterWrite_def Let_def by (intro silent.bind) (auto intro!: silent.bind)
qed

lemma putPayload_run:
  assumes "putPayload r ref payload w = (res, w')"
  shows "w_trace w' = w_trace w @ [PutPayload ref] \<and> w_intake w' = w_intake w"
  using assms io_withinD [OF steady_writes(1) assms]
  by (auto simp: putPayload_def io_bind_def logged_def on_out_def steady_def split: prod.splits sum.splits)

lemma insertRows_run:
  assumes "insertRows r db table rows w = (res, w')"
  shows "w_trace w' = w_trace w @ (if rows = [] then [] else [InsertRows (db @ ''.'' @ table) rows]) \<and> w_intake w' = w_intake w"
  using assms io_withinD [OF steady_writes(2) assms]
  by (auto simp: insertRows_def io_bind_def logged_def on_out_def steady_def split: prod.splits sum.splits if_splits)

text \<open>The record that is on file once the rows were sent: the intent, or the intent with its claim.\<close>

definition intends :: "intakeRecord \<Rightarrow> intakeRecord \<Rightarrow> bool" where
  "intends rcd rcd' \<longleftrightarrow> rcd' = rcd \<or> (\<exists>result rc. rcd' = rcd\<lparr>ir_Lifecycle := LifecycleUnsafeWritten, ir_Result := Some result, ir_RC := Some rc\<rparr>)"

lemma save_intends:
  assumes "journal_save r (rcd\<lparr>ir_Lifecycle := LifecycleUnsafeWritten, ir_Result := Some result, ir_RC := Some rc\<rparr>) w = (res, w')"
    and "recorded (w_intake w) (ir_StatementID rcd) = Some rcd"
  shows "w_trace w' = w_trace w \<and> (\<exists>rcd'. recorded (w_intake w') (ir_StatementID rcd) = Some rcd' \<and> intends rcd rcd')"
  using assms(1)
proof (rule journal_save_run)
  fix ok wo res'
  assume "save ok wo (rcd\<lparr>ir_Lifecycle := LifecycleUnsafeWritten, ir_Result := Some result, ir_RC := Some rc\<rparr>) (w_intake w) = (res', w_intake w')"
    and "w_trace w' = w_trace w"
  moreover have "intends rcd (rcd\<lparr>ir_Lifecycle := LifecycleUnsafeWritten, ir_Result := Some result, ir_RC := Some rc\<rparr>)" "intends rcd rcd"
    by (auto simp: intends_def)
  ultimately show ?thesis using save_changes [OF \<open>save ok wo _ _ = _\<close>] assms(2) by (auto simp: recorded_upd)
qed

lemma assembled_run:
  assumes "io_bind (assembleAfterWrite r env sch table before rcd) (\<lambda>(result, rc).
      io_bind (journal_save r (rcd\<lparr>ir_Lifecycle := LifecycleUnsafeWritten, ir_Result := Some result, ir_RC := Some rc\<rparr>)) (\<lambda>_.
      io_return result)) w = (res, w')"
    and "recorded (w_intake w) (ir_StatementID rcd) = Some rcd"
  shows "w_trace w' = w_trace w \<and> (\<exists>rcd'. recorded (w_intake w') (ir_StatementID rcd) = Some rcd' \<and> intends rcd rcd')"
  using assms(1)
proof (cases rule: io_bind_cases)
  case (fail e)
  with io_withinD [OF silent_assemble fail(1)] io_withinD [OF steady_assemble fail(1)] assms(2) show ?thesis
    by (auto simp: silent_def steady_def intends_def)
next
  case (ok a w1)
  obtain result rc where a: "a = (result, rc)" by fastforce
  from io_withinD [OF silent_assemble ok(1)] io_withinD [OF steady_assemble ok(1)] assms(2)
  have w1: "w_trace w1 = w_trace w" "recorded (w_intake w1) (ir_StatementID rcd) = Some rcd" by (simp_all add: silent_def steady_def)
  from ok(2) a obtain res' where
    "journal_save r (rcd\<lparr>ir_Lifecycle := LifecycleUnsafeWritten, ir_Result := Some result, ir_RC := Some rc\<rparr>) w1 = (res', w')"
    by (auto elim!: io_bind_cases)
  from save_intends [OF this w1(2)] w1(1) show ?thesis by simp
qed

text \<open>A write sends its rows at most once, after the intent is on file and the payload is spooled.\<close>

lemma inserted_run:
  assumes "io_bind (insertRows r db table rows) (\<lambda>_.
      io_bind (assembleAfterWrite r env sch table before rcd) (\<lambda>(result, rc).
      io_bind (journal_save r (rcd\<lparr>ir_Lifecycle := LifecycleUnsafeWritten, ir_Result := Some result, ir_RC := Some rc\<rparr>)) (\<lambda>_.
      io_return result))) w = (res, w')"
    and "recorded (w_intake w) (ir_StatementID rcd) = Some rcd"
  shows "w_trace w' = w_trace w @ (if rows = [] then [] else [InsertRows (db @ ''.'' @ table) rows]) \<and>
    (\<exists>rcd'. recorded (w_intake w') (ir_StatementID rcd) = Some rcd' \<and> intends rcd rcd')"
  using assms(1)
proof (cases rule: io_bind_cases)
  case (fail e)
  have "intends rcd rcd" by (simp add: intends_def)
  with insertRows_run [OF fail(1)] assms(2) show ?thesis by simp
next
  case (ok u w1)
  from insertRows_run [OF ok(1)] assms(2) have "recorded (w_intake w1) (ir_StatementID rcd) = Some rcd" by simp
  from assembled_run [OF ok(2) this] insertRows_run [OF ok(1)] show ?thesis by simp
qed

lemma writeStatement_run:
  assumes "writeStatement r req payload sch table before rows rcd w = (res, w')" "InsertRows t rows' \<in> set (new_events w w')"
  shows "w_trace w' = w_trace w @ [PutPayload (env_PayloadRef (req_Envelope req)), InsertRows (r_UnsafeDatabase r @ ''.'' @ table) rows] \<and>
    rows \<noteq> [] \<and> (\<exists>rcd'. recorded (w_intake w') (ir_StatementID rcd) = Some rcd' \<and> intends rcd rcd')"
proof -
  let ?put = "PutPayload (env_PayloadRef (req_Envelope req))"
  have some: "w_trace w' \<noteq> w_trace w" "w_trace w' \<noteq> w_trace w @ [?put]" using assms(2) by (auto simp: new_events_def)
  from assms(1) show ?thesis unfolding writeStatement_def
  proof (cases rule: io_bind_cases)
    case (fail e)
    from io_withinD [OF silent_steps(2) fail(1)] some(1) show ?thesis by (simp add: silent_def)
  next
    case (ok u w1)
    from ok(1) have saved: "journal_save r rcd w = (Inr (), w1)" by simp
    have w1: "w_trace w1 = w_trace w" "recorded (w_intake w1) (ir_StatementID rcd) = Some rcd"
      using io_withinD [OF silent_steps(2) saved] journal_save_ok [OF saved] by (simp_all add: silent_def)
    from ok(2) show ?thesis
    proof (cases rule: io_bind_cases)
      case (fail e)
      from putPayload_run [OF fail(1)] w1 some(2) show ?thesis by simp
    next
      case (ok u w2)
      from putPayload_run [OF ok(1)] w1 have w2: "w_trace w2 = w_trace w @ [?put]" "recorded (w_intake w2) (ir_StatementID rcd) = Some rcd"
        by simp_all
      from inserted_run [OF ok(2) w2(2)] w2(1) some(2) show ?thesis by (simp split: if_splits)
    qed
  qed
qed

lemma prepareFresh_run:
  assumes "prepareFresh r req payload enc revision sch w = (res, w')" "InsertRows t rows \<in> set (new_events w w')"
  shows "\<exists>vs touched inventory rcd'.
    validatePayloadBinding r (req_Envelope req) payload \<and> r_DecodeRows r sch revision payload = Some vs \<and> vs \<noteq> [] \<and>
    w_trace w' = w_trace w @ [PutPayload (env_PayloadRef (req_Envelope req)),
      InsertRows (r_UnsafeDatabase r @ ''.'' @ CHTableName (ts_TableID sch)) (derivedRows r sch (Flat (env_StatementID (req_Envelope req))) vs)] \<and>
    recorded (w_intake w') (Flat (env_StatementID (req_Envelope req))) = Some rcd' \<and>
    intends (freshRecord req enc revision touched inventory (length vs)) rcd'"
proof -
  let ?flat = "Flat (env_StatementID (req_Envelope req))"
  have some: "w_trace w' \<noteq> w_trace w" using assms(2) by (auto simp: new_events_def)
  from assms(1) some obtain vs where decoded: "validatePayloadBinding r (req_Envelope req) payload" "r_DecodeRows r sch revision payload = Some vs"
    by (auto simp: prepareFresh_def split: if_splits option.splits)
  let ?rows = "derivedRows r sch ?flat vs"
  have moved: "activeParts r db table w \<noteq> (x, w')" for db table x
    using some io_withinD [OF silent_steps(7), of r db table w x w'] by (auto simp: silent_def)
  have "w \<noteq> w'" using some by auto
  with assms(1) decoded obtain touched before inventory w1
    where "activeParts r (r_UnsafeDatabase r) (CHTableName (ts_TableID sch)) w = (Inr before, w1)"
      and run: "writeStatement r req payload sch (CHTableName (ts_TableID sch)) before ?rows
        (freshRecord req enc revision touched inventory (length ?rows)) w1 = (res, w')"
    by (auto simp: prepareFresh_def Let_def moved elim!: io_bind_cases split: if_splits option.splits)
  then have w1: "w_trace w1 = w_trace w" by (auto simp: silent_def dest: io_withinD [OF silent_steps(7)])
  with assms(2) have "InsertRows t rows \<in> set (new_events w1 w')" by (simp add: new_events_def)
  note wrote = writeStatement_run [OF run this]
  have rows: "length ?rows = length vs" "?rows = [] \<longleftrightarrow> vs = []"
    by (auto simp: derivedRows_def simp flip: length_0_conv)
  have flat: "ir_StatementID (freshRecord req enc revision touched inventory n) = ?flat" for n by (simp add: freshRecord_def)
  from wrote obtain rcd' where "recorded (w_intake w') ?flat = Some rcd'"
    "intends (freshRecord req enc revision touched inventory (length vs)) rcd'"
    unfolding flat rows by blast
  with wrote decoded show ?thesis unfolding w1 rows by blast
qed

definition is_drop :: "role_event \<Rightarrow> bool" where
  "is_drop e \<longleftrightarrow> (\<exists>table name. e = DropPart table name)"

lemma drops_abort [intro]: "io_within (emits is_drop) (runAbort r rcd sch)"
proof -
  have "io_within (emits is_drop) (abortPart r rcd table name)" for table name
    unfolding abortPart_def excludeAbortedPart_def
    by (auto simp: is_drop_def intro!: emits.bind emits.attempt quiet_emits [OF quiet_exec] split: sum.splits option.splits)
  then show ?thesis unfolding runAbort_def Let_def by (auto intro!: emits.bind emits.each split: option.splits)
qed

lemma drops_silent: "io_within silent m \<Longrightarrow> io_within (emits P) m"
  by (auto simp: io_within_def silent_def emits_def)

lemma emits_fresh: "io_within (emits (\<lambda>_. True)) (prepareFresh r req payload enc revision sch)"
proof -
  have "io_within (emits (\<lambda>_. True)) (writeStatement r req payload sch table before rows rcd)" for table before rows rcd
    unfolding writeStatement_def putPayload_def insertRows_def
    by (auto intro!: emits.bind emits_logged drops_silent [OF silent_assemble] split: prod.splits)
  then show ?thesis unfolding prepareFresh_def Let_def
    by (auto intro!: emits.bind drops_silent [OF silent_steps(7)] split: option.splits)
qed

lemma drops_converged [intro]: "io_within (emits is_drop) (converged r rcd sch)"
proof -
  have failed: "io_within (emits is_drop) (persistConvergenceFailure r rcd reason)" for reason
    unfolding persistConvergenceFailure_def by (auto intro!: emits.bind)
  have rows: "io_within (emits is_drop) (convergeRows r rcd sch table current attributed seen rows)" for table current attributed seen rows
    unfolding convergeRows_def Let_def
    by (auto intro!: emits.bind failed drops_silent [OF silent_assemble] split: prod.splits)
  have attributed: "io_within silent (attributeLoop r rcd sch table expected ps)" for table expected ps
  proof (induction ps)
    case (Cons p ps)
    show ?case unfolding attributeLoop.simps scanPartRowIDs_def
      by (auto intro!: silent.bind Cons.IH split: sum.splits prod.splits)
  qed (simp add: silent.pure)
  have "io_within (emits is_drop) (convergeIntake r rcd sch)"
    unfolding convergeIntake_def Let_def
    by (auto intro!: emits.bind rows failed drops_silent [OF attributed] drops_silent [OF silent_steps(7)] split: sum.splits prod.splits)
  then show ?thesis by (auto simp: converged_def)
qed

text \<open>Nothing of an earlier attempt is left: there is no record, or it is cleaned.\<close>

definition vacant :: "intakeJournal \<Rightarrow> string \<Rightarrow> bool" where
  "vacant j s \<longleftrightarrow> (case recorded j s of None \<Rightarrow> True | Some rcd \<Rightarrow> ir_Lifecycle rcd = LifecycleCleaned)"

lemma prepareRecorded_run:
  assumes "prepareRecorded r req payload enc revision sch rcd w = (res, w')"
    and "recorded (w_intake w) s = Some rcd" "ir_StatementID rcd = s"
  shows "emits is_drop w w' \<or>
    (\<exists>w1. emits is_drop w w1 \<and> vacant (w_intake w1) s \<and> prepareFresh r req payload enc revision sch w1 = (res, w'))"
proof (cases "\<exists>rcd' w1. converged r rcd sch w = (Inr rcd', w1) \<and> ir_Lifecycle rcd' \<notin> {LifecycleUnsafeWritten, LifecycleRCBound} \<and>
    (\<forall>l. ir_Lifecycle rcd \<noteq> LifecycleOther l) \<and> validateReplayRequest r rcd req payload = Inr ()")
  case True
  then obtain rcd' w1 where run: "converged r rcd sch w = (Inr rcd', w1)"
    and open': "ir_Lifecycle rcd' \<notin> {LifecycleUnsafeWritten, LifecycleRCBound}" "\<forall>l. ir_Lifecycle rcd \<noteq> LifecycleOther l"
      "validateReplayRequest r rcd req payload = Inr ()" by blast
  from converged_recorded [OF run assms(2,3)] open' have "vacant (w_intake w1) s"
    by (cases "ir_Lifecycle rcd") (auto simp: vacant_def)
  moreover from assms(1) run open' have "prepareFresh r req payload enc revision sch w1 = (res, w')"
    by (auto simp: prepareRecorded_def io_bind_def split: IntakeLifecycle.splits)
  ultimately show ?thesis using io_withinD [OF drops_converged run] by blast
next
  case False
  obtain x w1 where run: "converged r rcd sch w = (x, w1)" by fastforce
  from False assms(1) run have "w' = w \<or> w' = w1"
    by (cases x) (auto simp: prepareRecorded_def io_bind_def split: IntakeLifecycle.splits sum.splits if_splits)
  with io_withinD [OF drops_converged run] show ?thesis by (auto simp: emits_refl)
qed

lemma PrepareLocalStatement_run:
  fixes req
  defines "flat \<equiv> Flat (env_StatementID (req_Envelope req))"
  assumes "PrepareLocalStatement r req payload w = (res, w')" "wf_journal (w_intake w)"
  shows "emits is_drop w w' \<or>
    (\<exists>enc revision sch w1. validatePrepareBindings r ErrPayloadMismatchPreWrite req = Inr (enc, revision) \<and>
      emits is_drop w w1 \<and> vacant (w_intake w1) flat \<and> prepareFresh r req payload enc revision sch w1 = (res, w'))"
proof (cases "validatePrepareBindings r ErrPayloadMismatchPreWrite req")
  case (Inl e)
  with assms(2) show ?thesis by (auto simp: PrepareLocalStatement_def io_bind_def emits_refl)
next
  case (Inr bindings)
  obtain enc revision where bindings: "bindings = (enc, revision)" by fastforce
  from assms(2) Inr bindings have "io_bind (journal_load r flat) (\<lambda>loaded.
     io_bind (if loaded = None \<or> map_option ir_Lifecycle loaded = Some LifecycleCleaned
              then requireAdmissible r (env_TargetTableID (req_Envelope req)) (env_SchemaHash (req_Envelope req))
              else io_return ()) (\<lambda>_.
     io_bind (resolveEnvelopeSchema r (req_Envelope req)) (\<lambda>sch.
     case loaded of
       None \<Rightarrow> prepareFresh r req payload enc revision sch
     | Some rcd \<Rightarrow> prepareRecorded r req payload enc revision sch rcd))) w = (res, w')"
    by (simp add: PrepareLocalStatement_def flat_def io_bind_def [of "io_lift _"])
  then show ?thesis
  proof (cases rule: io_bind_cases)
    case (fail e)
    from io_withinD [OF emits_intake(4) fail(1)] show ?thesis by blast
  next
    case (ok loaded w1)
    note w1 = journal_load_run [OF ok(1)]
    have steps: "io_within steady (if loaded = None \<or> map_option ir_Lifecycle loaded = Some LifecycleCleaned
              then requireAdmissible r (env_TargetTableID (req_Envelope req)) (env_SchemaHash (req_Envelope req)) else io_return ())"
      "io_within silent (if loaded = None \<or> map_option ir_Lifecycle loaded = Some LifecycleCleaned
              then requireAdmissible r (env_TargetTableID (req_Envelope req)) (env_SchemaHash (req_Envelope req)) else io_return ())"
      by auto
    from ok(2) show ?thesis
    proof (cases rule: io_bind_cases)
      case (fail e)
      from io_withinD [OF steps(2) fail(1)] w1 show ?thesis by (auto simp: silent_def emits_def)
    next
      case (ok u w2)
      note w2 = io_withinD [OF steps(1) ok(1)] io_withinD [OF steps(2) ok(1)]
      from ok(2) show ?thesis
      proof (cases rule: io_bind_cases)
        case (fail e)
        from io_withinD [OF silent_steps(10) fail(1)] w1 w2 show ?thesis by (auto simp: silent_def emits_def)
      next
        case (ok sch w3)
        from io_withinD [OF silent_steps(10) ok(1)] io_withinD [OF steady_schema ok(1)] w1 w2
        have w3: "emits is_drop w w3" "w_intake w3 = w_intake w" "loaded = recorded (w_intake w) flat"
          by (auto simp: silent_def steady_def emits_def)
        show ?thesis
        proof (cases loaded)
          case None
          with w3 ok(2) Inr bindings show ?thesis by (auto simp: vacant_def)
        next
          case (Some rcd)
          with ok(2) have "prepareRecorded r req payload enc revision sch rcd w3 = (res, w')" by simp
          from prepareRecorded_run [OF this, of flat] w3 Some recorded_id [OF assms(3), of flat rcd] Inr bindings show ?thesis
            by (auto intro: emits_trans)
        qed
      qed
    qed
  qed
qed


section \<open>Convergence\<close>

text \<open>The parts that can hold rows of the statement: those of the touched partitions that the intent did not list.\<close>

definition appeared :: "intakeRecord \<Rightarrow> TableSchema \<Rightarrow> Part list \<Rightarrow> Part list" where
  "appeared rcd sch = filter (\<lambda>p. \<not> (pt_Rows p = 0 \<or> LogicalPartitionID sch p \<notin> set (ir_TouchedPartitions rcd) \<or>
      pt_Name p \<in> set (fmget [] (ir_PreWriteInventory rcd) (LogicalPartitionID sch p))))"

lemma attributeLoop_run:
  assumes "attributeLoop r rcd sch table expected ps w = (Inr (Inr (parts, seen, n)), w')"
  shows "set seen \<subseteq> set expected \<and> n = of_nat (length seen) \<and> parts = appeared rcd sch ps"
  using assms unfolding appeared_def
proof (induction ps arbitrary: parts seen n w)
  case (Cons p ps)
  show ?case
  proof (cases "pt_Rows p = 0 \<or> LogicalPartitionID sch p \<notin> set (ir_TouchedPartitions rcd) \<or>
      pt_Name p \<in> set (fmget [] (ir_PreWriteInventory rcd) (LogicalPartitionID sch p))")
    case True
    with Cons.prems Cons.IH [where w = w] show ?thesis by simp
  next
    case False
    with Cons.prems obtain rowIDs w1 res w2 where "set rowIDs \<subseteq> set expected"
      and loop: "attributeLoop r rcd sch table expected ps w1 = (Inr res, w2)"
      and res: "(case res of Inl n \<Rightarrow> io_return (Inl n)
        | Inr (parts, seen, n) \<Rightarrow> io_return (Inr (p # parts, rowIDs @ seen, of_nat (length rowIDs) + n))) w2 = (Inr (Inr (parts, seen, n)) :: (role_error, _) result, w')"
      by (auto simp: io_bind_Inr split: if_splits)
    from res obtain parts' seen' n' where new: "res = Inr (parts', seen', n')" "parts = p # parts'" "seen = rowIDs @ seen'"
      "n = of_nat (length rowIDs) + n'" "w2 = w'" by (cases res) auto
    with loop have "attributeLoop r rcd sch table expected ps w1 = (Inr (Inr (parts', seen', n')), w')" by simp
    from Cons.IH [OF this] new \<open>set rowIDs \<subseteq> set expected\<close> False show ?thesis by auto
  qed
qed simp

lemma convergeRows_whole:
  assumes "convergeRows r rcd sch table current attributed seen rows w = (Inr rcd', w')"
  shows "ir_Lifecycle rcd' = LifecycleCleaned \<or>
    ir_Lifecycle rcd' = LifecycleUnsafeWritten \<and> ir_ExpectedRowCount rcd > 0 \<and>
    list_all (\<lambda>rid. count_list seen rid = 1) (expectedRowIDs r rcd sch)"
proof -
  from assms show ?thesis
    by (auto simp: convergeRows_def Let_def io_bind_Inr split: if_splits prod.splits dest!: runAbort_recorded)
qed

text \<open>
  C6. Convergence recovers a write only when it is whole: when the convergence of an interrupted prepare ends in
  \<open>LifecycleUnsafeWritten\<close>, the row ids read from the parts that appeared in the touched partitions since the intent was
  journaled are exactly the derived row ids of the statement, each once, and there is at least one. Otherwise the parts
  are dropped (\<open>LifecycleCleaned\<close>) or the call fails.
\<close>

theorem converged_rows_exact:
  fixes r :: "('o, 'h :: ab_group_add) role"
  assumes "convergeIntake r rcd sch w = (Inr rcd', w')" "ir_Lifecycle rcd = LifecyclePreparing"
  shows "ir_Lifecycle rcd' = LifecycleCleaned \<or>
    ir_Lifecycle rcd' = LifecycleUnsafeWritten \<and> ir_ExpectedRowCount rcd > 0 \<and>
    (\<exists>current (w1 :: 'o world) seen w2.
       activeParts r (r_UnsafeDatabase r) (CHTableName (ts_TableID sch)) w = (Inr current, w1) \<and>
       attributeLoop r rcd sch (CHTableName (ts_TableID sch)) (expectedRowIDs r rcd sch) current w1 =
         (Inr (Inr (appeared rcd sch current, seen, of_nat (length seen))), w2) \<and>
       mset seen = mset_set (set (expectedRowIDs r rcd sch)))"
proof -
  let ?table = "CHTableName (ts_TableID sch)" and ?expected = "expectedRowIDs r rcd sch"
  from convergeIntake_attributed [OF assms] obtain current w1 attributed seen rows w2
    where "activeParts r (r_UnsafeDatabase r) ?table w = (Inr current, w1)"
      and loop: "attributeLoop r rcd sch ?table ?expected current w1 = (Inr (Inr (attributed, seen, rows)), w2)"
      and "convergeRows r rcd sch ?table current attributed seen rows w2 = (Inr rcd', w')" by blast
  moreover have "mset seen = mset_set (set ?expected)" if "list_all (\<lambda>rid. count_list seen rid = 1) ?expected"
  proof (rule multiset_eqI)
    fix x
    have "count (mset seen) x = count_list seen x" by (induction seen) auto
    with that attributeLoop_run [OF loop] show "count (mset seen) x = count (mset_set (set ?expected)) x"
      by (cases "x \<in> set ?expected") (auto simp: list_all_iff count_list_0_iff)
  qed
  ultimately show ?thesis using convergeRows_whole [of r rcd sch ?table current attributed seen rows w2 rcd' w'] attributeLoop_run [OF loop]
    by blast
qed

section \<open>The claim\<close>

definition hash_of :: "'h :: ab_group_add lthash_lib \<Rightarrow> CandidatePart \<Rightarrow> 'h" where
  "hash_of L c = (case parseAccumulatorHex L (cp_PartRowLtHash c) of Inr h \<Rightarrow> h | Inl e \<Rightarrow> 0)"

abbreviation cp_key :: "CandidatePart \<Rightarrow> partitionKey" where
  "cp_key c \<equiv> \<lparr>pk_Table = cp_TableID c, pk_Partition = cp_PartitionID c\<rparr>"

lemma assembleLoop_run:
  assumes "assembleLoop r env sch infos sums scans w = (Inr (candidates, sums'), w')"
  shows "map (\<lambda>c. (cp_PartName c, cp_PartRowLtHash c, cp_RowCount c)) candidates = map (\<lambda>s. (sc_PartName s, sc_RowLtHash s, sc_RowCount s)) scans \<and>
    (\<forall>c \<in> set candidates. cp_TableID c = env_TargetTableID env \<and> is_ok (parseAccumulatorHex (r_L r) (cp_PartRowLtHash c)) \<and>
       map_option (LogicalPartitionID sch) (fmlookup infos (cp_PartName c)) = Some (cp_PartitionID c)) \<and>
    (\<forall>ks. fmget 0 sums' ks = fmget 0 sums ks + (\<Sum>c\<leftarrow>filter (\<lambda>c. pkey (cp_key c) = ks) candidates. hash_of (r_L r) c)) \<and>
    fmdom' sums' = fmdom' sums \<union> (\<lambda>c. pkey (cp_key c)) ` set candidates"
  using assms
proof (induction scans arbitrary: sums candidates w)
  case (Cons s ss)
  from Cons.prems obtain info h w1 cs where info: "fmlookup infos (sc_PartName s) = Some info"
    and h: "parseAccumulatorHex (r_L r) (sc_RowLtHash s) = Inr h"
    and loop: "assembleLoop r env sch infos (fmupd (key (env_TargetTableID env) (LogicalPartitionID sch info))
       (fmget 0 sums (key (env_TargetTableID env) (LogicalPartitionID sch info)) + h) sums) ss w1 = (Inr (cs, sums'), w')"
    and candidates: "candidates = \<lparr>cp_TableID = env_TargetTableID env, cp_PartitionID = LogicalPartitionID sch info, cp_PartName = sc_PartName s,
        cp_PartRowLtHash = sc_RowLtHash s, cp_PartPhysHash = pt_PhysHash info, cp_RowCount = sc_RowCount s, cp_Bytes = pt_Bytes info\<rparr> # cs"
    by (auto simp: io_bind_Inr Let_def split: option.splits prod.splits)
  from Cons.IH [OF loop] info h show ?case
    by (auto simp: candidates hash_of_def fmget_def algebra_simps)
qed simp

lemma partitionSums_run:
  assumes "partitionSums L sums = Inr psums" "\<And>ks. ks \<in> fmdom' sums \<Longrightarrow> \<exists>p. ks = key t p" "plain t"
  shows "mset psums = mset (map (\<lambda>ks. \<lparr>pls_TableID = t, pls_PartitionID = pk_Partition (fst (splitKey ks)),
    pls_NewPartsLtHashSum = accumulatorHex L (fmget 0 sums ks)\<rparr>) (fmkeys sums))"
proof -
  have "each (\<lambda>ks. case splitKey ks of (pk, ok) \<Rightarrow>
      if \<not> ok then Inl ErrPartitionIDs
      else Inr \<lparr>pls_TableID = pk_Table pk, pls_PartitionID = pk_Partition pk, pls_NewPartsLtHashSum = accumulatorHex L (fmget 0 sums ks)\<rparr>) ks0 =
    Inr (map (\<lambda>ks. \<lparr>pls_TableID = t, pls_PartitionID = pk_Partition (fst (splitKey ks)), pls_NewPartsLtHashSum = accumulatorHex L (fmget 0 sums ks)\<rparr>) ks0)"
    if "\<forall>ks \<in> set ks0. \<exists>p. ks = key t p" for ks0
    using that assms(3) by (induction ks0) (auto simp: result_simps)
  from this [of "fmkeys sums"] assms(1,2) show ?thesis
    by (auto simp: partitionSums_def result_simps fmdom'_alt_def)
qed

text \<open>
  C7. The claim of a statement says what was written: an assembled result claim lists the scanned parts with their row
  hashes and row counts in the order of the scan, all in the table of the envelope and in the partition of the part of
  that name; it has one sum for each partition that has a candidate, and the sum is the group sum of the row hashes of
  the candidates in that partition.
\<close>

theorem claim_sums_match:
  assumes "assembleRC r env sch newParts scans w = (Inr rc, w')" "plain (env_TargetTableID env)"
  shows "map (\<lambda>c. (cp_PartName c, cp_PartRowLtHash c, cp_RowCount c)) (rc_CandidateParts rc) =
      map (\<lambda>s. (sc_PartName s, sc_RowLtHash s, sc_RowCount s)) scans \<and>
    (\<forall>c \<in> set (rc_CandidateParts rc). cp_TableID c = env_TargetTableID env \<and>
       (\<exists>p \<in> set newParts. pt_Name p = cp_PartName c \<and> LogicalPartitionID sch p = cp_PartitionID c)) \<and>
    distinct (map pls_PartitionID (rc_PartitionNewPartSums rc)) \<and>
    pls_PartitionID ` set (rc_PartitionNewPartSums rc) = cp_PartitionID ` set (rc_CandidateParts rc) \<and>
    (\<forall>ps \<in> set (rc_PartitionNewPartSums rc). pls_TableID ps = env_TargetTableID env \<and>
       pls_NewPartsLtHashSum ps = accumulatorHex (r_L r)
         (\<Sum>c\<leftarrow>filter (\<lambda>c. cp_PartitionID c = pls_PartitionID ps) (rc_CandidateParts rc). hash_of (r_L r) c))"
proof -
  let ?t = "env_TargetTableID env"
  let ?infos = "foldl (\<lambda>m p. fmupd (pt_Name p) p m) fmempty newParts"
  from assms(1) obtain sums w1 where loop: "assembleLoop r env sch ?infos fmempty scans w = (Inr (rc_CandidateParts rc, sums), w1)"
    and psums: "partitionSums (r_L r) sums = Inr (rc_PartitionNewPartSums rc)"
    by (auto simp: assembleRC_def Let_def io_bind_Inr split: prod.splits)
  note run = assembleLoop_run [OF loop]
  have infos: "fmlookup (foldl (\<lambda>m p. fmupd (pt_Name p) p m) m ps) n = Some p \<Longrightarrow> fmlookup m n = Some p \<or> p \<in> set ps \<and> pt_Name p = n" for m ps n p
    by (induction ps arbitrary: m) (fastforce split: if_splits)+
  have keys: "\<exists>p. ks = key ?t p" if "ks \<in> fmdom' sums" for ks using that run by auto
  note psums = partitionSums_run [OF psums keys assms(2)]
  have set_psums: "set (rc_PartitionNewPartSums rc) = (\<lambda>ks. \<lparr>pls_TableID = ?t, pls_PartitionID = pk_Partition (fst (splitKey ks)),
      pls_NewPartsLtHashSum = accumulatorHex (r_L r) (fmget 0 sums ks)\<rparr>) ` fmdom' sums"
    using arg_cong [OF psums, of set_mset] by (simp add: fmdom'_alt_def)
  have "mset (map pls_PartitionID (rc_PartitionNewPartSums rc)) = mset (map (\<lambda>ks. pk_Partition (fst (splitKey ks))) (fmkeys sums))"
    using arg_cong [OF psums, of "image_mset pls_PartitionID"] by (simp add: multiset.map_comp comp_def)
  moreover have "distinct (map (\<lambda>ks. pk_Partition (fst (splitKey ks))) (fmkeys sums))"
    using keys assms(2) by (auto simp: distinct_map inj_on_def fmdom'_alt_def) (metis fst_conv partitionKey.select_convs(2) splitKey_key)
  ultimately have "distinct (map pls_PartitionID (rc_PartitionNewPartSums rc))" using mset_eq_imp_distinct_iff by blast
  moreover have "pls_PartitionID ` set (rc_PartitionNewPartSums rc) = cp_PartitionID ` set (rc_CandidateParts rc)"
    unfolding set_psums using run assms(2) by (force simp: image_image)
  moreover have "filter (\<lambda>c. cp_PartitionID c = p) (rc_CandidateParts rc) = filter (\<lambda>c. pkey (cp_key c) = key ?t p) (rc_CandidateParts rc)" for p
    using run by (intro filter_cong) (auto simp: key_def)
  ultimately show ?thesis using run infos [of fmempty newParts] set_psums assms(2) keys by fastforce
qed

text \<open>
  C5. A claim that is bound is final: from a journal of valid records, whatever calls of the intake follow (in any order,
  on any statements, with any answers of the stores and of the arbiter), the record of the bound statement stays as it
  is; a call that is about this statement sends at most the recorded claim again, writes nothing and drops nothing; and
  an abort of it fails.
\<close>

theorem bound_claim_is_final:
  assumes "wf_journal (w_intake w)" "recorded (w_intake w) s = Some rcd" "ir_Lifecycle rcd = LifecycleRCBound"
    and "w1 = run_calls r ops w"
  shows "wf_journal (w_intake w1) \<and> recorded (w_intake w1) s = Some rcd \<and>
    (intake_target op = Some s \<longrightarrow> emits (resends_claim rcd) w1 (snd (intake_exec r op w1))) \<and>
    \<not> is_ok (fst (AbortPreparedStatement r s parts reason w1))"
proof -
  from run_calls_lawful [OF assms(1), of r ops] assms
  have w1: "wf_journal (w_intake w1)" "recorded (w_intake w1) s = Some rcd" by (auto simp: lawful_def)
  with bound_exec_emits [OF w1 assms(3), of op r] abort_bound_run(2) [OF w1(2) assms(3) recorded_id [OF w1]] show ?thesis by simp
qed

end
