(* ===== verification/Intake_Demo.thy ===== *)
theory Intake_Demo
  imports Intake_Safety Promote_Demo
begin

text \<open>The staged intake on the concrete node of \<open>SNode_Audit\<close>, evaluated.\<close>

definition demo_sid :: StatementID where
  "demo_sid = \<lparr>sid_ClientAccount = ''c'', sid_ClientSeq = 1, sid_ClientNonce = [], sid_ClientLane = []\<rparr>"

definition demo_env :: StatementEnvelope where
  "demo_env = \<lparr>env_StatementID = demo_sid, env_StatementKind = 1, env_SQL = [], env_SQLHash = [], env_SettingsHash = [],
     env_PayloadRef = ''ref'', env_PayloadHash = ''p'', env_PayloadLength = 1, env_TargetTableID = ''t'', env_UserJWS = [],
     env_EnvelopeVersion = 1, env_NetworkID = [], env_KeeperShardID = 0, env_PayloadFormat = ''native'', env_ClientRevision = 1,
     env_SchemaHash = [], env_RowIDProfileID = []\<rparr>"

definition demo_req :: PrepareRequest where
  "demo_req = \<lparr>req_Envelope = demo_env, req_PayloadEncoding = ''native'', req_Revision = 1\<rparr>"

abbreviation demo_flat :: string where
  "demo_flat \<equiv> Flat demo_sid"

definition demo_prepared :: intakeRecord where
  "demo_prepared = freshRecord demo_req ''native'' 1 [''all''] (fmupd ''all'' [] fmempty) 1"

text \<open>The node before the statement, and the node that crashed after the rows were written.\<close>

definition demo_idle_world :: "demo_out world" where
  "demo_idle_world = demo_world newLocalState \<lparr>dm_safe = [], dm_unsafe = [], dm_promote = []\<rparr>"

definition demo_crashed_world :: "demo_out world" where
  "demo_crashed_world = (demo_world newLocalState \<lparr>dm_safe = [], dm_unsafe = [demo_part ''a'' ''h''], dm_promote = []\<rparr>)
     \<lparr>w_intake := fmupd (recordPath demo_flat) demo_prepared fmempty\<rparr>"

lemma demo_flat_nonempty: "demo_flat \<noteq> []"
  by (simp add: Flat_def StatementIDStringWithLane_def StatementIDString_def demo_sid_def)

lemma demo_schema_run: "schemaFor demo_role ''t'' w = (Inr demo_schema, w)"
  by (simp add: schemaFor_def io_bind_def read_out_def genesisSchema_def demo_role_def demo_schema_def)

lemma demo_resolve: "resolveEnvelopeSchema demo_role demo_env w = (Inr demo_schema, w)"
  by (simp add: resolveEnvelopeSchema_def io_try_def demo_env_def demo_schema_run) (simp add: demo_role_def)

definition demo_added :: localState where
  "demo_added = newLocalState\<lparr>UnpromotedSums := fmupd (key ''t'' ''all'') ''0xab00'' fmempty,
     IntakeParts := fmupd (intakePartKey \<lparr>pk_Table = ''t'', pk_Partition = ''all''\<rparr> ''a'') ''0xab00'' fmempty\<rparr>"

lemma demo_add_run:
  "AddUnpromotedPart lane_lib WriteOK \<lparr>pk_Table = ''t'', pk_Partition = ''all''\<rparr> ''a'' ''0xab00'' \<lparr>st_mem = newLocalState, st_disk = d\<rparr> =
     (Inr (), \<lparr>st_mem = demo_added, st_disk = Some demo_added\<rparr>)"
  by (simp add: AddUnpromotedPart_def newLocalState_def demo_added_def Let_def result_simps persistInPlace_def persistStateLocked_def
      lane_parse lane_hex)

lemma fmkeys_single: "fmkeys (fmupd k v fmempty) = [k]" "fmkeys fmempty = []"
  by (simp_all add: fmkeys_def sorted_list_of_fset.rep_eq)

lemma demo_root_run:
  assumes "st_mem (w_store w) = demo_added"
  shows "sourceClaimRoot demo_role w = (Inr [], w)"
proof -
  have "splitKey (key ''t'' ''all'') = (\<lparr>pk_Table = ''t'', pk_Partition = ''all''\<rparr>, True)" by simp
  then have "partitionsOf ''t'' (w_store w) = [\<lparr>pk_Table = ''t'', pk_Partition = ''all''\<rparr>]"
    by (simp add: partitionsOf_def assms demo_added_def newLocalState_def fmkeys_single)
  then have "\<exists>m. tableManifest lane_lib (w_store w) hashes ''t'' = Inr m" for hashes
    by (simp add: tableManifest_def baseRootOr_def unpromotedSumOr_def assms demo_added_def newLocalState_def lthashCombineHex_def
        lane_parse lane_hex result_simps)
  then obtain m where "tableManifest lane_lib (w_store w) (fmupd ''t'' [] fmempty) ''t'' = Inr m" by blast
  then show ?thesis
    by (simp add: sourceClaimRoot_def stateRootTables_def io_bind_def read_out_def read_store_def demo_role_def demo_schema_def
        fmkeys_single result_simps)
qed

abbreviation demo_scan :: PartScanResult where
  "demo_scan \<equiv> \<lparr>sc_PartName = ''a'', sc_RowLtHash = ''0xab00'', sc_RowCount = 1\<rparr>"

definition demo_rc :: RCRecord where
  "demo_rc = \<lparr>rc_StatementID = demo_sid, rc_SourceNode = ''n'',
     rc_CandidateParts = [\<lparr>cp_TableID = ''t'', cp_PartitionID = ''all'', cp_PartName = ''a'', cp_PartRowLtHash = ''0xab00'',
       cp_PartPhysHash = ''h'', cp_RowCount = 1, cp_Bytes = 1\<rparr>],
     rc_SourceClaimRoot = [],
     rc_PartitionNewPartSums = [\<lparr>pls_TableID = ''t'', pls_PartitionID = ''all'', pls_NewPartsLtHashSum = ''0xab00''\<rparr>]\<rparr>"

lemma demo_rc_run:
  assumes "w_store w = \<lparr>st_mem = newLocalState, st_disk = d\<rparr>"
  shows "assembleRC demo_role demo_env demo_schema [demo_part ''a'' ''h''] [demo_scan] w =
    (Inr demo_rc, w\<lparr>w_store := \<lparr>st_mem = demo_added, st_disk = Some demo_added\<rparr>\<rparr>)"
proof -
  have role: "r_L demo_role = lane_lib" "r_NodeID demo_role = ''n''" "r_disk demo_role s = (WriteOK, s)" for s by (simp_all add: demo_role_def)
  have part: "LogicalPartitionID demo_schema (demo_part ''a'' ''h'') = ''all''" "pt_Name (demo_part ''a'' ''h'') = ''a''"
    by (simp_all add: LogicalPartitionID_def demo_schema_def demo_part_def)
  have sums: "partitionSums lane_lib (fmupd (key ''t'' ''all'') 171 fmempty) =
      Inr [\<lparr>pls_TableID = ''t'', pls_PartitionID = ''all'', pls_NewPartsLtHashSum = ''0xab00''\<rparr>]"
    by (simp add: partitionSums_def fmkeys_single result_simps lane_hex)
  show ?thesis
    by (simp add: assembleRC_def Let_def io_bind_def role part demo_env_def lane_parse on_store_def assms demo_add_run sums demo_root_run demo_rc_def)
      (simp add: demo_part_def)
qed

theorem claim_sums_match_witness:
  "\<exists>w'. assembleRC demo_role demo_env demo_schema [demo_part ''a'' ''h''] [demo_scan] demo_idle_world = (Inr demo_rc, w') \<and>
     plain (env_TargetTableID demo_env) \<and>
     (\<forall>ps \<in> set (rc_PartitionNewPartSums demo_rc). pls_NewPartsLtHashSum ps = accumulatorHex lane_lib
        (\<Sum>c\<leftarrow>filter (\<lambda>c. cp_PartitionID c = pls_PartitionID ps) (rc_CandidateParts demo_rc). hash_of lane_lib c))"
proof -
  have "w_store demo_idle_world = \<lparr>st_mem = newLocalState, st_disk = Some newLocalState\<rparr>" by (simp add: demo_idle_world_def demo_world_def)
  from demo_rc_run [OF this] obtain w' where
    run: "assembleRC demo_role demo_env demo_schema [demo_part ''a'' ''h''] [demo_scan] demo_idle_world = (Inr demo_rc, w')" by blast
  have t: "plain (env_TargetTableID demo_env)" by (simp add: demo_env_def)
  have "r_L demo_role = lane_lib" by (simp add: demo_role_def)
  with claim_sums_match [OF run t] run t show ?thesis by auto
qed

lemma demo_expected: "expectedRowIDs demo_role demo_prepared demo_schema = [''row:0'']"
  by (simp add: expectedRowIDs_def demo_prepared_def freshRecord_def demo_role_def FormatUint_def FormatNat.simps char_of_def bit_0)

lemma demo_converge_run:
  "\<exists>rcd' w'. convergeIntake demo_role demo_prepared demo_schema demo_crashed_world = (Inr rcd', w') \<and> ir_Lifecycle rcd' = LifecycleUnsafeWritten"
proof -
  have name: "CHTableName (ts_TableID demo_schema) = ''t''" by (simp add: CHTableName_def demo_schema_def)
  have intent: "ir_Lifecycle demo_prepared = LifecyclePreparing" "ir_ConvergeFailed demo_prepared = []" "ir_ExpectedRowCount demo_prepared = 1"
    "ir_TouchedPartitions demo_prepared = [''all'']" "fmget [] (ir_PreWriteInventory demo_prepared) ''all'' = []"
    "ir_StatementID demo_prepared = demo_flat" "ir_Envelope demo_prepared = demo_env"
    by (simp_all add: demo_prepared_def freshRecord_def demo_req_def demo_env_def)
  note expected = demo_expected
  have parts: "activeParts demo_role ''unsafe'' ''t'' demo_crashed_world = (Inr [demo_part ''a'' ''h''], demo_crashed_world)"
    by (simp add: activeParts_def ActiveParts_def on_out_def demo_crashed_world_def demo_node_defs)
  have part: "LogicalPartitionID demo_schema (demo_part ''a'' ''h'') = ''all''" "pt_Name (demo_part ''a'' ''h'') = ''a''" "pt_Rows (demo_part ''a'' ''h'') = 1"
    by (simp_all add: LogicalPartitionID_def demo_schema_def demo_part_def)
  have ids: "scanPartRowIDs demo_role ''t'' ''a'' w = (Inr [''row:0''], w)" for w
    by (simp add: scanPartRowIDs_def on_out_def demo_role_def demo_conn_def)
  have loop: "attributeLoop demo_role demo_prepared demo_schema ''t'' [''row:0''] [demo_part ''a'' ''h''] w =
      (Inr (Inr ([demo_part ''a'' ''h''], [''row:0''], 1)), w)" for w
    by (simp add: intent part io_bind_def ids)
  have scan: "scanParts demo_role (r_UnsafeDatabase demo_role @ ''.'' @ ''t'') demo_schema [''a''] w = (Inr [demo_scan], w)" for w
    by (simp add: scanParts_def on_out_def demo_role_def demo_conn_def demo_hash_def)
  have store: "w_store demo_crashed_world = \<lparr>st_mem = newLocalState, st_disk = Some newLocalState\<rparr>"
    by (simp add: demo_crashed_world_def demo_world_def)
  have diff: "subtractParts [demo_part ''a'' ''h''] [demo_part ''a'' ''h''] = []" "diffParts [] [demo_part ''a'' ''h''] = [demo_part ''a'' ''h'']"
    by (simp_all add: subtractParts_def diffParts_def demo_part_def)
  obtain result where assembled: "assembleAfterWrite demo_role demo_env demo_schema ''t'' [] demo_prepared demo_crashed_world =
      (Inr (result, demo_rc), demo_crashed_world\<lparr>w_store := \<lparr>st_mem = demo_added, st_disk = Some demo_added\<rparr>\<rparr>)"
    using demo_rc_run [OF store] scan [of demo_crashed_world]
    by (simp add: assembleAfterWrite_def io_bind_def [of "activeParts r d t" for r d t] io_bind_def [of "scanParts r t s n" for r t s n]
        io_bind_def [of "assembleRC r e s n x" for r e s n x] parts diff part Let_def)
  have intake: "recorded (w_intake demo_crashed_world) demo_flat = Some demo_prepared"
    by (simp add: recorded_def demo_crashed_world_def)
  have saved: "\<exists>w'. journal_save demo_role (demo_prepared\<lparr>ir_Lifecycle := LifecycleUnsafeWritten, ir_Result := Some result, ir_RC := Some demo_rc\<rparr>)
      (demo_crashed_world\<lparr>w_store := st\<rparr>) = (Inr (), w')" for st
    using demo_flat_nonempty intake
    by (simp add: journal_save_def demo_role_def save_def load_def validateIntakeRecord_def intent decodeIntakeRecord_def recorded_def result_simps)
  then obtain w' where saved: "journal_save demo_role (demo_prepared\<lparr>ir_Lifecycle := LifecycleUnsafeWritten, ir_Result := Some result, ir_RC := Some demo_rc\<rparr>)
      (demo_crashed_world\<lparr>w_store := \<lparr>st_mem = demo_added, st_disk = Some demo_added\<rparr>\<rparr>) = (Inr (), w')" by blast
  have "convergeRows demo_role demo_prepared demo_schema ''t'' [demo_part ''a'' ''h''] [demo_part ''a'' ''h''] [''row:0''] 1 demo_crashed_world =
      (Inr (demo_prepared\<lparr>ir_Lifecycle := LifecycleUnsafeWritten, ir_Result := Some result, ir_RC := Some demo_rc\<rparr>), w')"
    by (simp add: convergeRows_def intent expected diff io_bind_def assembled saved Let_def)
  then show ?thesis by (simp add: convergeIntake_def intent name io_bind_def parts expected loop Let_def del: attributeLoop.simps)
qed

theorem converged_rows_exact_witness:
  "\<exists>rcd' w' seen. convergeIntake demo_role demo_prepared demo_schema demo_crashed_world = (Inr rcd', w') \<and>
     ir_Lifecycle demo_prepared = LifecyclePreparing \<and> ir_Lifecycle rcd' = LifecycleUnsafeWritten \<and>
     mset seen = mset_set (set (expectedRowIDs demo_role demo_prepared demo_schema)) \<and>
     expectedRowIDs demo_role demo_prepared demo_schema = [''row:0'']"
proof -
  have p: "ir_Lifecycle demo_prepared = LifecyclePreparing" by (simp add: demo_prepared_def freshRecord_def)
  from demo_converge_run obtain rcd' w' where
    run: "convergeIntake demo_role demo_prepared demo_schema demo_crashed_world = (Inr rcd', w')" "ir_Lifecycle rcd' = LifecycleUnsafeWritten" by blast
  then show ?thesis using converged_rows_exact [OF run(1) p] p demo_expected by fastforce
qed

text \<open>The statement once its claim is bound.\<close>

definition demo_bound :: intakeRecord where
  "demo_bound = demo_prepared\<lparr>ir_Lifecycle := LifecycleRCBound, ir_RC := Some demo_rc,
     ir_Result := Some \<lparr>plr_StatementID = demo_flat, plr_SourceNode = ''n'', plr_PayloadRef = ''ref'', plr_PayloadHash = ''p'', plr_PayloadLength = 1,
       plr_PayloadEncoding = ''native'', plr_Revision = 1, plr_CandidateParts = rc_CandidateParts demo_rc,
       plr_PartitionNewPartSums = rc_PartitionNewPartSums demo_rc, plr_SourceClaimRoot = [], plr_Lifecycle = LifecycleRCBound\<rparr>\<rparr>"

definition demo_bound_world :: "demo_out world" where
  "demo_bound_world = demo_crashed_world\<lparr>w_intake := fmupd (recordPath demo_flat) demo_bound fmempty\<rparr>"

theorem bound_claim_is_final_witness:
  "wf_journal (w_intake demo_bound_world) \<and> recorded (w_intake demo_bound_world) demo_flat = Some demo_bound \<and>
   (let w1 = run_calls demo_role [Startup, Claim demo_flat, Prepare demo_req ''p''] demo_bound_world in
      recorded (w_intake w1) demo_flat = Some demo_bound \<and> \<not> is_ok (fst (AbortPreparedStatement demo_role demo_flat [''a''] [] w1)))"
proof -
  have "ir_StatementID demo_bound = demo_flat" "ir_Lifecycle demo_bound = LifecycleRCBound"
    by (simp_all add: demo_bound_def demo_prepared_def freshRecord_def demo_req_def demo_env_def)
  then have wf: "wf_journal (w_intake demo_bound_world)"
    using demo_flat_nonempty by (auto simp: wf_journal_def demo_bound_world_def validateIntakeRecord_def demo_bound_def split: if_splits)
  have bound: "recorded (w_intake demo_bound_world) demo_flat = Some demo_bound" by (simp add: recorded_def demo_bound_world_def)
  from bound_claim_is_final [OF wf bound \<open>ir_Lifecycle demo_bound = _\<close> refl] wf bound show ?thesis unfolding Let_def by blast
qed


end
