(* ===== verification/Member_Serve.thy ===== *)
theory Member_Serve
  imports Registry SNode_State
begin

text \<open>
  The serving side of a member (\<open>member/serve\<close>): which copied databases the host may answer (\<open>conditions.go\<close>), the
  owner probes (\<open>probe.go\<close>), the leases and their file (\<open>lease.go\<close>), and the configuration (\<open>serve.go\<close>). \<open>mu\<close> makes each
  operation one step. Times are nanoseconds on the member's clock and are arguments, as are the registry view, the
  latest manifest (\<open>replay.OwnerEntry\<close> of it), the install journal's copies, the drawn lease ids and the outcome of a
  file write. A lease is an object: the two maps of the server hold references to it. Metrics and logging are not
  modelled.
\<close>

type_synonym time = int
type_synonym duration = int

abbreviation Millisecond :: duration where "Millisecond \<equiv> 1000000"
abbreviation Second :: duration where "Second \<equiv> 1000 * Millisecond"

section \<open>Configuration\<close>

record serve_Config =
  cf_Enabled :: bool
  cf_Token :: string
  cf_OwnerUnreachableAfter :: duration
  cf_OwnerProbeInterval :: duration
  cf_LeaseTTL :: duration
  cf_PollInterval :: duration
  cf_OwnerHouseGate :: "(u64, string) fmap"

definition DefaultOwnerUnreachableAfter :: duration where "DefaultOwnerUnreachableAfter = 60 * Second"
definition MinOwnerUnreachableAfter :: duration where "MinOwnerUnreachableAfter = 15 * Second"
definition DefaultOwnerProbeInterval :: duration where "DefaultOwnerProbeInterval = 5 * Second"
definition DefaultLeaseTTL :: duration where "DefaultLeaseTTL = 30 * Second"
definition MinLeaseTTL :: duration where "MinLeaseTTL = 10 * Second"
definition DefaultPollInterval :: duration where "DefaultPollInterval = 5 * Second"

definition withDefaults :: "serve_Config \<Rightarrow> serve_Config" where
  "withDefaults c =
     c\<lparr>cf_OwnerUnreachableAfter := (if cf_OwnerUnreachableAfter c = 0 then DefaultOwnerUnreachableAfter else cf_OwnerUnreachableAfter c),
       cf_OwnerProbeInterval := (if cf_OwnerProbeInterval c = 0 then DefaultOwnerProbeInterval else cf_OwnerProbeInterval c),
       cf_LeaseTTL := (if cf_LeaseTTL c = 0 then DefaultLeaseTTL else cf_LeaseTTL c),
       cf_PollInterval := (if cf_PollInterval c \<le> 0 then DefaultPollInterval else cf_PollInterval c)\<rparr>"

text \<open>\<open>net.SplitHostPort\<close>: the host and the port, or nothing for an error.\<close>

definition LastIndexByte :: "char \<Rightarrow> string \<Rightarrow> nat option" where
  "LastIndexByte c s = (if c \<in> set s then Some (length s - Suc (length (takeWhile (\<lambda>d. d \<noteq> c) (rev s)))) else None)"

definition IndexByte :: "char \<Rightarrow> string \<Rightarrow> nat option" where
  "IndexByte c s = (if c \<in> set s then Some (length (takeWhile (\<lambda>d. d \<noteq> c) s)) else None)"

definition SplitHostPort :: "string \<Rightarrow> (string \<times> string) option" where
  "SplitHostPort s =
     (case LastIndexByte CHR '':'' s of
        None \<Rightarrow> None
      | Some i \<Rightarrow>
          if hd s = CHR ''['' then
            (case IndexByte CHR '']'' s of
               None \<Rightarrow> None
             | Some e \<Rightarrow>
                 if e + 1 \<noteq> i \<or> CHR ''['' \<in> set (drop 1 s) \<or> CHR '']'' \<in> set (drop (e + 1) s) then None
                 else Some (take (e - 1) (drop 1 s), drop (i + 1) s))
          else if CHR '':'' \<in> set (take i s) \<or> CHR ''['' \<in> set s \<or> CHR '']'' \<in> set s then None
          else Some (take i s, drop (i + 1) s))"

text \<open>\<open>strconv.ParseUint\<close> in base 10 with a bit size.\<close>

definition ParseUint10 :: "nat \<Rightarrow> string \<Rightarrow> nat option" where
  "ParseUint10 bits s =
     (if s = [] \<or> \<not> list_all (\<lambda>c. 48 \<le> (of_char c :: nat) \<and> (of_char c :: nat) \<le> 57) s then None
      else let n = foldl (\<lambda>n c. 10 * n + (of_char c - 48)) 0 s in if n < 2 ^ bits then Some n else None)"

definition isHostPort :: "string \<Rightarrow> bool" where
  "isHostPort addr =
     (case SplitHostPort addr of
        None \<Rightarrow> False
      | Some (host, port) \<Rightarrow> host \<noteq> [] \<and> (case ParseUint10 16 port of Some n \<Rightarrow> n \<noteq> 0 | None \<Rightarrow> False))"

datatype config_error = ErrNoToken | ErrUnreachableBelowMin | ErrTTLBelowMin | ErrProbeInterval | ErrHouseGateAddr u64

definition validate :: "serve_Config \<Rightarrow> (config_error, unit) result" where
  "validate c =
     (if cf_Token c = [] then Inl ErrNoToken
      else if cf_OwnerUnreachableAfter c < MinOwnerUnreachableAfter then Inl ErrUnreachableBelowMin
      else if cf_LeaseTTL c < MinLeaseTTL then Inl ErrTTLBelowMin
      else if cf_OwnerProbeInterval c < Second \<or> cf_OwnerProbeInterval c \<ge> cf_OwnerUnreachableAfter c then Inl ErrProbeInterval
      else case find (\<lambda>owner. \<not> isHostPort (fmget [] (cf_OwnerHouseGate c) owner)) (fmkeys (cf_OwnerHouseGate c)) of
             Some owner \<Rightarrow> Inl (ErrHouseGateAddr owner)
           | None \<Rightarrow> Inr ())"

section \<open>State\<close>

datatype OwnerDatabase = OwnerDatabase (od_Owner: u64) (od_Database: string)

text \<open>The order of \<open>viewLocked\<close>: by database, then by owner.\<close>

instantiation OwnerDatabase :: linorder
begin

definition less_eq_OwnerDatabase :: "OwnerDatabase \<Rightarrow> OwnerDatabase \<Rightarrow> bool" where
  "less_eq_OwnerDatabase a b \<longleftrightarrow> od_Database a < od_Database b \<or> od_Database a = od_Database b \<and> od_Owner a \<le> od_Owner b"

definition less_OwnerDatabase :: "OwnerDatabase \<Rightarrow> OwnerDatabase \<Rightarrow> bool" where
  "less_OwnerDatabase a b \<longleftrightarrow> od_Database a < od_Database b \<or> od_Database a = od_Database b \<and> od_Owner a < od_Owner b"

instance
  by standard (auto simp: less_eq_OwnerDatabase_def less_OwnerDatabase_def OwnerDatabase.expand)

end

datatype Reason =
    ReasonOwnerAvailable | ReasonEntryUnconfirmed | ReasonCopyBehind | ReasonAuditUnclean | ReasonTableForeign
  | ReasonTableDiverged | ReasonTableExcluded | ReasonTableMissing | ReasonServingDisabled | ReasonFeedUnavailable
  | ReasonInstalling

datatype TableCondition = ConditionInstalled | ConditionForeign | ConditionDiverged | ConditionExcluded | ConditionOther string

record TableCopy =
  tc_TableID :: string
  tc_IncarnationSeq :: u64
  tc_CopyTable :: string
  tc_SchemaHash :: string
  tc_Condition :: TableCondition

record DatabaseCopy =
  dc_SnapshotID :: string
  dc_Entry :: TrackFrontier
  dc_Tables :: "TableCopy list"
  dc_AuditClean :: bool

record dbState =
  db_serving :: bool
  db_reason :: "Reason option"
  db_copy :: DatabaseCopy
  db_haveCopy :: bool
  db_served :: "TableCopy list"
  db_lastEntry :: TrackFrontier
  db_polls :: nat
  db_installing :: nat
  db_installed :: u64
  db_quarantine :: bool
  db_unreach :: bool

record ownerState =
  os_addr :: string
  os_firstFailure :: "time option"
  os_entry :: TrackFrontier
  os_entrySeen :: bool
  os_entrySince :: time

datatype wait_outcome = waitReleased | waitExpired

text \<open>\<open>le_ended\<close> is set when \<open>done\<close> is closed.\<close>

record lease =
  le_id :: string
  le_database :: string
  le_owner :: u64
  le_renewed :: time
  le_ttl :: duration
  le_revoked :: bool
  le_revokedAt :: time
  le_ended :: "wait_outcome option"

record Server =
  sv_epoch :: u64
  sv_dbs :: "(OwnerDatabase, dbState) fmap"
  sv_owners :: "(u64, ownerState) fmap"
  sv_leases :: "(string, nat) fmap"
  sv_byID :: "(string, nat) fmap"
  sv_heap :: "lease list"

definition zeroFrontier :: TrackFrontier where
  "zeroFrontier = TrackFrontierFromPB None"

definition zeroCopy :: DatabaseCopy where
  "zeroCopy = \<lparr>dc_SnapshotID = [], dc_Entry = zeroFrontier, dc_Tables = [], dc_AuditClean = False\<rparr>"

definition zeroState :: dbState where
  "zeroState = \<lparr>db_serving = False, db_reason = Some ReasonEntryUnconfirmed, db_copy = zeroCopy, db_haveCopy = False, db_served = [],
     db_lastEntry = zeroFrontier, db_polls = 0, db_installing = 0, db_installed = 0, db_quarantine = False, db_unreach = False\<rparr>"

definition zeroOwner :: ownerState where
  "zeroOwner = \<lparr>os_addr = [], os_firstFailure = None, os_entry = zeroFrontier, os_entrySeen = False, os_entrySince = 0\<rparr>"

definition stateLocked :: "OwnerDatabase \<Rightarrow> Server \<Rightarrow> dbState" where
  "stateLocked k s = fmget zeroState (sv_dbs s) k"

definition ownerLocked :: "u64 \<Rightarrow> Server \<Rightarrow> ownerState" where
  "ownerLocked owner s = fmget zeroOwner (sv_owners s) owner"

section \<open>Leases\<close>

record leaseRecord =
  lr_LeaseID :: string
  lr_Database :: string
  lr_Owner :: u64
  lr_RenewedUnixNano :: int
  lr_TTLMs :: int

text \<open>\<open>LeaseFile\<close>: missing, a file that does not decode, or its version and records.\<close>

datatype leaseFile = NoFile | Undecodable | Leases int "leaseRecord list"

definition leaseFileVersion :: int where "leaseFileVersion = 1"

definition maxLeaseTTLMs :: int where "maxLeaseTTLMs = (2 ^ 63 - 1) div Millisecond"

definition expiresAt :: "lease \<Rightarrow> time" where
  "expiresAt l = le_renewed l + le_ttl l"

definition leaseRecordOf :: "lease \<Rightarrow> time \<Rightarrow> leaseRecord" where
  "leaseRecordOf l renewed =
     \<lparr>lr_LeaseID = le_id l, lr_Database = le_database l, lr_Owner = le_owner l, lr_RenewedUnixNano = renewed,
      lr_TTLMs = le_ttl l div Millisecond\<rparr>"

datatype serve_error =
    ErrLeaseFile | ErrLeaseFileVersion int | ErrLeaseRecord | ErrLeaseTTL | ErrLeaseTwice string string
  | ErrRecordLeases | ErrLeaseID | RefusedNotServed string "Reason option" | RefusedMoved string string
  | ErrUnknownLease | ErrRevokedLease

fun restoreLoop :: "time \<Rightarrow> leaseRecord list \<Rightarrow> Server \<Rightarrow> (serve_error, Server) result" where
  "restoreLoop now [] s = Inr s"
| "restoreLoop now (r # rs) s =
     (if lr_LeaseID r = [] \<or> lr_Database r = [] \<or> lr_TTLMs r \<le> 0 then Inl ErrLeaseRecord
      else if lr_TTLMs r > maxLeaseTTLMs then Inl ErrLeaseTTL
      else if fmlookup (sv_leases s) (lr_Database r) \<noteq> None \<or> fmlookup (sv_byID s) (lr_LeaseID r) \<noteq> None
      then Inl (ErrLeaseTwice (lr_Database r) (lr_LeaseID r))
      else let l = \<lparr>le_id = lr_LeaseID r, le_database = lr_Database r, le_owner = lr_Owner r, le_renewed = lr_RenewedUnixNano r,
                    le_ttl = lr_TTLMs r * Millisecond, le_revoked = True, le_revokedAt = now, le_ended = None\<rparr>;
               ref = length (sv_heap s)
           in if now \<ge> expiresAt l then restoreLoop now rs s
              else restoreLoop now rs
                     (s\<lparr>sv_leases := fmupd (le_database l) ref (sv_leases s), sv_byID := fmupd (le_id l) ref (sv_byID s),
                        sv_heap := sv_heap s @ [l]\<rparr>))"

definition restoreLeases :: "time \<Rightarrow> leaseFile \<Rightarrow> Server \<Rightarrow> (serve_error, Server) result" where
  "restoreLeases now f s =
     (case f of
        NoFile \<Rightarrow> Inr s
      | Undecodable \<Rightarrow> Inl ErrLeaseFile
      | Leases version rs \<Rightarrow> if version \<noteq> leaseFileVersion then Inl (ErrLeaseFileVersion version) else restoreLoop now rs s)"

text \<open>\<open>New\<close> past the validation of its arguments.\<close>

definition serve_New :: "serve_Config \<Rightarrow> time \<Rightarrow> leaseFile \<Rightarrow> (serve_error, Server) result" where
  "serve_New c now f =
     restoreLeases now f
       \<lparr>sv_epoch = 0, sv_dbs = fmempty,
        sv_owners = foldl (\<lambda>m owner. fmupd owner (zeroOwner\<lparr>os_addr := fmget [] (cf_OwnerHouseGate c) owner\<rparr>) m) fmempty
                      (fmkeys (cf_OwnerHouseGate c)),
        sv_leases = fmempty, sv_byID = fmempty, sv_heap = []\<rparr>"

definition writeLeaseFile :: "write_outcome \<Rightarrow> leaseRecord list \<Rightarrow> leaseFile \<Rightarrow> (serve_error, unit) result \<times> leaseFile" where
  "writeLeaseFile wo rs f =
     (case wo of
        WriteOK \<Rightarrow> (Inr (), Leases leaseFileVersion rs)
      | WriteFailed \<Rightarrow> (Inl ErrRecordLeases, f)
      | WriteUnsynced \<Rightarrow> (Inl ErrRecordLeases, Leases leaseFileVersion rs))"

text \<open>\<open>dropped\<close> and \<open>renewing\<close> are the objects left out and renewed, \<open>added\<close> the lease about to be granted.\<close>

definition recordLeasesLocked ::
    "write_outcome \<Rightarrow> nat option \<Rightarrow> lease option \<Rightarrow> nat option \<Rightarrow> time \<Rightarrow> Server \<Rightarrow> leaseFile \<Rightarrow> (serve_error, unit) result \<times> leaseFile" where
  "recordLeasesLocked wo dropped added renewing renewed s f =
     (let refs = map (fmget 0 (sv_byID s)) (fmkeys (sv_byID s));
          kept = map (\<lambda>ref. let l = sv_heap s ! ref in leaseRecordOf l (if renewing = Some ref then renewed else le_renewed l))
                   (filter (\<lambda>ref. dropped \<noteq> Some ref) refs);
          new = (case added of None \<Rightarrow> [] | Some l \<Rightarrow> [leaseRecordOf l (le_renewed l)])
      in writeLeaseFile wo (sort_key lr_LeaseID (kept @ new)) f)"

definition endLocked :: "nat \<Rightarrow> wait_outcome \<Rightarrow> Server \<Rightarrow> Server" where
  "endLocked ref outcome s =
     (let l = sv_heap s ! ref in
      if fmlookup (sv_byID s) (le_id l) \<noteq> Some ref then s
      else s\<lparr>sv_byID := fmdrop (le_id l) (sv_byID s),
             sv_leases := (if fmlookup (sv_leases s) (le_database l) = Some ref then fmdrop (le_database l) (sv_leases s) else sv_leases s),
             sv_heap := (sv_heap s)[ref := l\<lparr>le_ended := Some outcome\<rparr>]\<rparr>)"

definition sweepLocked :: "time \<Rightarrow> Server \<Rightarrow> Server" where
  "sweepLocked now s =
     foldl (\<lambda>s id'. case fmlookup (sv_byID s) id' of
                      Some ref \<Rightarrow> if now \<ge> expiresAt (sv_heap s ! ref) then endLocked ref waitExpired s else s
                    | None \<Rightarrow> s) s (fmkeys (sv_byID s))"

definition revokeLocked :: "nat \<Rightarrow> time \<Rightarrow> Server \<Rightarrow> Server" where
  "revokeLocked ref now s =
     (let l = sv_heap s ! ref in
      if le_revoked l then s else s\<lparr>sv_heap := (sv_heap s)[ref := l\<lparr>le_revoked := True, le_revokedAt := now\<rparr>]\<rparr>)"

text \<open>\<open>drawn\<close> is the id of \<open>newLeaseID\<close>, or nothing when the random source failed. The result is the granted lease.\<close>

definition acquire ::
    "serve_Config \<Rightarrow> time \<Rightarrow> string option \<Rightarrow> write_outcome \<Rightarrow> string \<Rightarrow> string \<Rightarrow> Server \<Rightarrow> leaseFile \<Rightarrow>
     (serve_error, lease) result \<times> Server \<times> leaseFile" where
  "acquire c now drawn wo database snapshotID s0 f =
     (let s = sweepLocked now s0 in
      case filter (\<lambda>k. od_Database k = database) (fmkeys (sv_dbs s)) of
        [k] \<Rightarrow>
          (let found = stateLocked k s in
           if \<not> db_serving found then (Inl (RefusedNotServed database (db_reason found)), s, f)
           else if snapshotID \<noteq> dc_SnapshotID (db_copy found) then (Inl (RefusedMoved database (dc_SnapshotID (db_copy found))), s, f)
           else case drawn of
                  None \<Rightarrow> (Inl ErrLeaseID, s, f)
                | Some lid \<Rightarrow>
                    (let l = \<lparr>le_id = lid, le_database = database, le_owner = od_Owner k, le_renewed = now, le_ttl = cf_LeaseTTL c,
                              le_revoked = False, le_revokedAt = 0, le_ended = None\<rparr>;
                         old = fmlookup (sv_leases s) database
                     in case recordLeasesLocked wo old (Some l) None 0 s f of
                          (Inl e, f') \<Rightarrow> (Inl e, s, f')
                        | (Inr _, f') \<Rightarrow>
                            (let s' = (case old of None \<Rightarrow> s | Some ref \<Rightarrow> endLocked ref waitReleased s);
                                 ref = length (sv_heap s')
                             in (Inr l, s'\<lparr>sv_heap := sv_heap s' @ [l], sv_leases := fmupd database ref (sv_leases s'),
                                           sv_byID := fmupd lid ref (sv_byID s')\<rparr>, f'))))
      | _ \<Rightarrow> (Inl (RefusedNotServed database (Some ReasonTableMissing)), s, f))"

definition renew :: "time \<Rightarrow> write_outcome \<Rightarrow> string \<Rightarrow> Server \<Rightarrow> leaseFile \<Rightarrow> (serve_error, unit) result \<times> Server \<times> leaseFile" where
  "renew now wo lid s0 f =
     (let s = sweepLocked now s0 in
      case fmlookup (sv_byID s) lid of
        None \<Rightarrow> (Inl ErrUnknownLease, s, f)
      | Some ref \<Rightarrow>
          (let l = sv_heap s ! ref in
           if le_revoked l then (Inl ErrRevokedLease, s, f)
           else case recordLeasesLocked wo None None (Some ref) now s f of
                  (Inl e, f') \<Rightarrow> (Inl e, s, f')
                | (Inr _, f') \<Rightarrow> (Inr (), s\<lparr>sv_heap := (sv_heap s)[ref := l\<lparr>le_renewed := now\<rparr>]\<rparr>, f')))"

definition release :: "time \<Rightarrow> write_outcome \<Rightarrow> string \<Rightarrow> Server \<Rightarrow> leaseFile \<Rightarrow> Server \<times> leaseFile" where
  "release now wo lid s f =
     (case fmlookup (sv_byID s) lid of
        None \<Rightarrow> (sweepLocked now s, f)
      | Some ref \<Rightarrow>
          (let s' = sweepLocked now (endLocked ref waitReleased s) in (s', snd (recordLeasesLocked wo None None None 0 s' f))))"

section \<open>Installs\<close>

text \<open>
  \<open>BeforeInstall\<close> up to its wait: the result is the lease object whose \<open>done\<close> it waits for, or nothing when it returns at
  once. Then its loop runs \<open>installTimer\<close> whenever its timer fires, returns nil once the object is done, and undoes the
  mark (\<open>installCancelled\<close>) when the context ends first.
\<close>

definition BeforeInstall :: "time \<Rightarrow> OwnerDatabase \<Rightarrow> Server \<Rightarrow> nat option \<times> Server" where
  "BeforeInstall now k s0 =
     (let st = stateLocked k s0;
          epoch = sv_epoch s0 + 1;
          st' = st\<lparr>db_installing := db_installing st + 1, db_installed := epoch, db_serving := False,
                   db_reason := Some ReasonInstalling, db_served := [], db_polls := 0\<rparr>;
          s = sweepLocked now (s0\<lparr>sv_epoch := epoch, sv_dbs := fmupd k st' (sv_dbs s0)\<rparr>)
      in case fmlookup (sv_leases s) (od_Database k) of
           None \<Rightarrow> (None, s)
         | Some ref \<Rightarrow> (Some ref, revokeLocked ref now s))"

definition leaseDone :: "nat \<Rightarrow> Server \<Rightarrow> bool" where
  "leaseDone ref s \<longleftrightarrow> le_ended (sv_heap s ! ref) \<noteq> None"

definition installTimer :: "time \<Rightarrow> Server \<Rightarrow> Server" where
  "installTimer now s = sweepLocked now s"

text \<open>The mark is taken back from the state object that \<open>BeforeInstall\<close> marked; it is still in the map while it is marked.\<close>

definition installCancelled :: "OwnerDatabase \<Rightarrow> Server \<Rightarrow> Server" where
  "installCancelled k s =
     (let st = stateLocked k s; epoch = sv_epoch s + 1 in
      s\<lparr>sv_epoch := epoch, sv_dbs := fmupd k (st\<lparr>db_installing := db_installing st - 1, db_installed := epoch\<rparr>) (sv_dbs s)\<rparr>)"

definition AfterInstall :: "OwnerDatabase \<Rightarrow> Server \<Rightarrow> Server" where
  "AfterInstall k s =
     (case fmlookup (sv_dbs s) k of
        None \<Rightarrow> s
      | Some st \<Rightarrow>
          (let epoch = sv_epoch s + 1 in
           s\<lparr>sv_epoch := epoch,
             sv_dbs := fmupd k (st\<lparr>db_installing := db_installing st - 1, db_installed := epoch, db_polls := 0\<rparr>) (sv_dbs s)\<rparr>))"

section \<open>Probes\<close>

definition recordProbe :: "time \<Rightarrow> u64 \<Rightarrow> bool \<Rightarrow> Server \<Rightarrow> Server" where
  "recordProbe now owner reached s =
     (let o' = ownerLocked owner s;
          o'' = (if reached \<and> os_firstFailure o' \<noteq> None then o'\<lparr>os_firstFailure := None\<rparr>
                 else if \<not> reached \<and> os_firstFailure o' = None then o'\<lparr>os_firstFailure := Some now\<rparr> else o')
      in s\<lparr>sv_owners := fmupd owner o'' (sv_owners s)\<rparr>)"

definition unreachableLocked :: "serve_Config \<Rightarrow> u64 \<Rightarrow> time \<Rightarrow> Server \<Rightarrow> bool" where
  "unreachableLocked c owner now s =
     (case fmlookup (sv_owners s) owner of
        None \<Rightarrow> False
      | Some o' \<Rightarrow> os_addr o' \<noteq> [] \<and> (case os_firstFailure o' of None \<Rightarrow> False | Some t \<Rightarrow> now - t \<ge> cf_OwnerUnreachableAfter c))"

section \<open>Conditions\<close>

fun activeLoop :: "TableRegistrySnapshot \<Rightarrow> OwnerDatabase \<Rightarrow> TableIncarnation list \<Rightarrow> TableIncarnation list option" where
  "activeLoop snap k [] = Some []"
| "activeLoop snap k (inc # incs) =
     (if ti_DatabaseID inc \<noteq> od_Database k then activeLoop snap k incs
      else if ManifestOwner snap (Key inc) \<noteq> Some (od_Owner k) then None
      else map_option ((#) inc) (activeLoop snap k incs))"

definition activeTables :: "TableRegistrySnapshot \<Rightarrow> bool \<Rightarrow> OwnerDatabase \<Rightarrow> TableIncarnation list" where
  "activeTables snap registryOn k =
     (if \<not> registryOn then []
      else case activeLoop snap k (ActiveTables snap) of None \<Rightarrow> [] | Some out \<Rightarrow> sort_key Key out)"

text \<open>What one Active incarnation finds among the copies; \<open>copyTable\<close> is \<open>sitable.CopyTable\<close>.\<close>

datatype match = MForeign | MDiverged | MExcluded | MMissing | MServed TableCopy

definition matchOne :: "(string \<Rightarrow> u64 \<Rightarrow> string) \<Rightarrow> TableCopy list \<Rightarrow> TableIncarnation \<Rightarrow> match" where
  "matchOne copyTable tables inc =
     (case find (\<lambda>t. tc_TableID t = Key inc \<and> tc_IncarnationSeq t = ti_Seq inc) tables of
        None \<Rightarrow> MMissing
      | Some t \<Rightarrow>
          (case tc_Condition t of
             ConditionForeign \<Rightarrow> MForeign
           | ConditionDiverged \<Rightarrow> MDiverged
           | ConditionExcluded \<Rightarrow> MExcluded
           | ConditionInstalled \<Rightarrow>
               if tc_SchemaHash t \<noteq> ti_SchemaHash inc \<or> tc_CopyTable t \<noteq> copyTable (Key inc) (ti_Seq inc) then MMissing else MServed t
           | ConditionOther _ \<Rightarrow> MMissing))"

definition matchActive :: "(string \<Rightarrow> u64 \<Rightarrow> string) \<Rightarrow> TableCopy list \<Rightarrow> TableIncarnation list \<Rightarrow> TableCopy list \<times> Reason option" where
  "matchActive copyTable tables active =
     (if active = [] then ([], Some ReasonTableMissing)
      else let ms = map (matchOne copyTable tables) active in
           if MForeign \<in> set ms then ([], Some ReasonTableForeign)
           else if MDiverged \<in> set ms then ([], Some ReasonTableDiverged)
           else if MExcluded \<in> set ms then ([], Some ReasonTableExcluded)
           else if MMissing \<in> set ms then ([], Some ReasonTableMissing)
           else (map (\<lambda>m. case m of MServed t \<Rightarrow> t) ms, None))"

text \<open>\<open>entry\<close> is the owner's entry of the manifest of this poll, if it was read and has one.\<close>

definition evaluateLocked ::
    "serve_Config \<Rightarrow> (string \<Rightarrow> u64 \<Rightarrow> string) \<Rightarrow> OwnerDatabase \<Rightarrow> dbState \<Rightarrow> bool \<Rightarrow> TrackFrontier option \<Rightarrow> bool \<Rightarrow>
     TableRegistrySnapshot \<Rightarrow> bool \<Rightarrow> Reason option \<times> TableCopy list" where
  "evaluateLocked c copyTable k st installing entry duplicate snap registryOn =
     (if \<not> cf_Enabled c then (Some ReasonServingDisabled, [])
      else if installing then (Some ReasonInstalling, [])
      else case entry of
        None \<Rightarrow> (Some ReasonFeedUnavailable, [])
      | Some e \<Rightarrow>
          if \<not> db_quarantine st \<and> \<not> db_unreach st then (Some ReasonOwnerAvailable, [])
          else if db_polls st < 2 then (Some ReasonEntryUnconfirmed, [])
          else if duplicate \<or> \<not> db_haveCopy st then (Some ReasonTableMissing, [])
          else if \<not> dc_AuditClean (db_copy st) then (Some ReasonAuditUnclean, [])
          else case matchActive copyTable (dc_Tables (db_copy st)) (activeTables snap registryOn k) of
                 (served, reason) \<Rightarrow>
                   if reason \<noteq> None \<and> reason \<noteq> Some ReasonTableMissing then (reason, [])
                   else if dc_Entry (db_copy st) \<noteq> e then (Some ReasonCopyBehind, [])
                   else if reason \<noteq> None then (reason, [])
                   else (None, served))"

definition revokeOwned :: "OwnerDatabase \<Rightarrow> time \<Rightarrow> Server \<Rightarrow> Server" where
  "revokeOwned k now s =
     (case fmlookup (sv_leases s) (od_Database k) of
        Some ref \<Rightarrow> if le_owner (sv_heap s ! ref) = od_Owner k then revokeLocked ref now s else s
      | None \<Rightarrow> s)"

definition setServingLocked :: "OwnerDatabase \<Rightarrow> dbState \<Rightarrow> Reason option \<Rightarrow> time \<Rightarrow> Server \<Rightarrow> Server" where
  "setServingLocked k st reason now s =
     (let st' = st\<lparr>db_serving := reason = None, db_reason := reason, db_served := (if reason = None then db_served st else [])\<rparr>;
          s' = s\<lparr>sv_dbs := fmupd k st' (sv_dbs s)\<rparr>
      in if reason = None then s' else revokeOwned k now s')"

section \<open>A poll\<close>

text \<open>
  What a poll reads without the lock, after it took the epoch; \<open>po_feed\<close> is the owners' entries of the latest manifest,
  or nothing when it was not read.
\<close>

record poll_reads =
  po_startEpoch :: u64
  po_snap :: TableRegistrySnapshot
  po_registryOn :: bool
  po_feed :: "(u64 \<Rightarrow> TrackFrontier option) option"
  po_pairs :: "OwnerDatabase list"
  po_copies :: "OwnerDatabase \<Rightarrow> DatabaseCopy option"

definition pollRead ::
    "serve_Config \<Rightarrow> TableRegistrySnapshot \<times> bool \<Rightarrow> (u64 \<Rightarrow> TrackFrontier option) option \<Rightarrow> OwnerDatabase list \<Rightarrow>
     (OwnerDatabase \<Rightarrow> DatabaseCopy option) \<Rightarrow> Server \<Rightarrow> poll_reads" where
  "pollRead c view latest pairs copies s =
     \<lparr>po_startEpoch = sv_epoch s, po_snap = fst view, po_registryOn = snd view, po_feed = (if cf_Enabled c then latest else None),
      po_pairs = pairs, po_copies = copies\<rparr>"

definition po_entry :: "poll_reads \<Rightarrow> u64 \<Rightarrow> TrackFrontier option" where
  "po_entry rd owner = Option.bind (po_feed rd) (\<lambda>entries. entries owner)"

definition noteOwnerEntry :: "poll_reads \<Rightarrow> time \<Rightarrow> Server \<Rightarrow> u64 \<Rightarrow> Server" where
  "noteOwnerEntry rd now s owner =
     (case po_entry rd owner of
        None \<Rightarrow> s
      | Some e \<Rightarrow>
          (let o' = ownerLocked owner s in
           s\<lparr>sv_owners := fmupd owner (if \<not> os_entrySeen o' \<or> os_entry o' \<noteq> e
                                       then o'\<lparr>os_entry := e, os_entrySeen := True, os_entrySince := now\<rparr> else o') (sv_owners s)\<rparr>))"

definition countPolls :: "bool \<Rightarrow> TrackFrontier option \<Rightarrow> dbState \<Rightarrow> dbState" where
  "countPolls installing entry st =
     (case entry of
        None \<Rightarrow> st\<lparr>db_polls := 0\<rparr>
      | Some e \<Rightarrow>
          if installing then st\<lparr>db_polls := 0\<rparr>
          else if db_polls st > 0 \<and> db_lastEntry st = e then st\<lparr>db_polls := db_polls st + 1\<rparr>
          else st\<lparr>db_lastEntry := e, db_polls := 1\<rparr>)"

definition pollOne :: "serve_Config \<Rightarrow> (string \<Rightarrow> u64 \<Rightarrow> string) \<Rightarrow> poll_reads \<Rightarrow> time \<Rightarrow> Server \<Rightarrow> OwnerDatabase \<Rightarrow> Server" where
  "pollOne c copyTable rd now s p =
     (let st = stateLocked p s;
          entry = po_entry rd (od_Owner p);
          installing = (db_installing st > 0 \<or> db_installed st > po_startEpoch rd);
          st1 = countPolls installing entry
                  (st\<lparr>db_copy := (case po_copies rd p of Some copy \<Rightarrow> copy | None \<Rightarrow> zeroCopy), db_haveCopy := po_copies rd p \<noteq> None\<rparr>);
          st2 = st1\<lparr>db_quarantine := po_registryOn rd \<and> od_Owner p \<in> set (rs_QuarantinedIndexers (po_snap rd)),
                    db_unreach := unreachableLocked c (od_Owner p) now s\<rparr>;
          duplicate = length (filter (\<lambda>q. od_Database q = od_Database p) (po_pairs rd)) > 1
      in case evaluateLocked c copyTable p st2 installing entry duplicate (po_snap rd) (po_registryOn rd) of
           (reason, served) \<Rightarrow> setServingLocked p (st2\<lparr>db_served := served\<rparr>) reason now s)"

definition pollDrop :: "poll_reads \<Rightarrow> time \<Rightarrow> Server \<Rightarrow> OwnerDatabase \<Rightarrow> Server" where
  "pollDrop rd now s k =
     (if k \<in> set (po_pairs rd) \<or> db_installing (stateLocked k s) > 0 then s
      else let s' = revokeOwned k now s in s'\<lparr>sv_dbs := fmdrop k (sv_dbs s')\<rparr>)"

text \<open>What a poll does with its reads under the lock.\<close>

definition pollApply :: "serve_Config \<Rightarrow> (string \<Rightarrow> u64 \<Rightarrow> string) \<Rightarrow> poll_reads \<Rightarrow> time \<Rightarrow> Server \<Rightarrow> Server" where
  "pollApply c copyTable rd now s =
     (let s1 = sweepLocked now s;
          s2 = foldl (noteOwnerEntry rd now) s1 (remdups (map od_Owner (po_pairs rd)));
          s3 = foldl (pollOne c copyTable rd now) s2 (po_pairs rd)
      in foldl (pollDrop rd now) s3 (fmkeys (sv_dbs s3)))"

section \<open>The view\<close>

record ServedTable =
  sd_TableID :: string
  sd_IncarnationSeq :: u64
  sd_CopyTable :: string
  sd_SchemaHash :: string

record LeaseView =
  lv_LeaseID :: string
  lv_State :: string
  lv_RemainingMs :: int

record DatabaseView =
  dv_Database :: string
  dv_Owner :: u64
  dv_Serving :: bool
  dv_Reason :: "Reason option"
  dv_SnapshotID :: string
  dv_Entry :: TrackFrontier
  dv_FrozenSinceUnixMs :: int
  dv_OwnerQuarantined :: bool
  dv_OwnerUnreachable :: bool
  dv_Tables :: "ServedTable list"
  dv_Lease :: "LeaseView option"

definition lease_view :: "lease \<Rightarrow> time \<Rightarrow> LeaseView" where
  "lease_view l now =
     \<lparr>lv_LeaseID = le_id l, lv_State = (if le_revoked l then ''revoking'' else ''held''),
      lv_RemainingMs = max (expiresAt l - now) 0 div Millisecond\<rparr>"

definition databaseView :: "time \<Rightarrow> Server \<Rightarrow> OwnerDatabase \<Rightarrow> DatabaseView" where
  "databaseView now s k =
     (let st = stateLocked k s in
      \<lparr>dv_Database = od_Database k, dv_Owner = od_Owner k, dv_Serving = db_serving st, dv_Reason = db_reason st,
       dv_SnapshotID = dc_SnapshotID (db_copy st), dv_Entry = dc_Entry (db_copy st),
       dv_FrozenSinceUnixMs = (let o' = ownerLocked (od_Owner k) s in if os_entrySeen o' then os_entrySince o' div Millisecond else 0),
       dv_OwnerQuarantined = db_quarantine st, dv_OwnerUnreachable = db_unreach st,
       dv_Tables = (if db_serving st
                    then map (\<lambda>t. \<lparr>sd_TableID = tc_TableID t, sd_IncarnationSeq = tc_IncarnationSeq t, sd_CopyTable = tc_CopyTable t,
                                   sd_SchemaHash = tc_SchemaHash t\<rparr>) (db_served st)
                    else []),
       dv_Lease = (case fmlookup (sv_leases s) (od_Database k) of
                     Some ref \<Rightarrow> if le_owner (sv_heap s ! ref) = od_Owner k then Some (lease_view (sv_heap s ! ref) now) else None
                   | None \<Rightarrow> None)\<rparr>)"

definition viewLocked :: "time \<Rightarrow> Server \<Rightarrow> DatabaseView list" where
  "viewLocked now s = map (databaseView now s) (fmkeys (sv_dbs s))"

definition Serving :: "time \<Rightarrow> Server \<Rightarrow> DatabaseView list \<times> Server" where
  "Serving now s = (let s' = sweepLocked now s in (viewLocked now s', s'))"

end
