(* ===== verification/Serve_Safety.thy ===== *)
theory Serve_Safety
  imports Member_Serve
begin

text \<open>
  The serving side over time: the lease table stays consistent, and an install of a database never runs while a lease of
  it is in force, across polls, renewals, failed writes of the lease file and restarts of the member.
\<close>

section \<open>The lease table\<close>

text \<open>\<open>byID\<close> and \<open>leases\<close> list the same open leases, each under its own id and its own database.\<close>

definition wf_server :: "Server \<Rightarrow> bool" where
  "wf_server s \<longleftrightarrow>
     (\<forall>lid ref. fmlookup (sv_byID s) lid = Some ref \<longrightarrow>
        ref < length (sv_heap s) \<and> le_id (sv_heap s ! ref) = lid \<and> le_ended (sv_heap s ! ref) = None \<and>
        fmlookup (sv_leases s) (le_database (sv_heap s ! ref)) = Some ref) \<and>
     (\<forall>db ref. fmlookup (sv_leases s) db = Some ref \<longrightarrow>
        ref < length (sv_heap s) \<and> le_database (sv_heap s ! ref) = db \<and> fmlookup (sv_byID s) (le_id (sv_heap s ! ref)) = Some ref)"

lemma wf_byID: "wf_server s \<Longrightarrow> fmlookup (sv_byID s) lid = Some ref \<Longrightarrow>
    ref < length (sv_heap s) \<and> le_id (sv_heap s ! ref) = lid \<and> le_ended (sv_heap s ! ref) = None \<and>
    fmlookup (sv_leases s) (le_database (sv_heap s ! ref)) = Some ref"
  by (simp add: wf_server_def)

lemma wf_leases: "wf_server s \<Longrightarrow> fmlookup (sv_leases s) db = Some ref \<Longrightarrow>
    ref < length (sv_heap s) \<and> le_database (sv_heap s ! ref) = db \<and> fmlookup (sv_byID s) (le_id (sv_heap s ! ref)) = Some ref"
  by (simp add: wf_server_def)

lemma wf_open: "wf_server s \<Longrightarrow> fmlookup (sv_leases s) db = Some ref \<Longrightarrow> le_ended (sv_heap s ! ref) = None"
  using wf_leases wf_byID by blast

text \<open>An object keeps its identity and its term; it may be revoked and ended, and stays so.\<close>

definition ages :: "lease \<Rightarrow> lease \<Rightarrow> bool" where
  "ages l l' \<longleftrightarrow> le_id l' = le_id l \<and> le_database l' = le_database l \<and> le_renewed l' = le_renewed l \<and> le_ttl l' = le_ttl l \<and>
     (le_revoked l \<longrightarrow> le_revoked l') \<and> (le_ended l \<noteq> None \<longrightarrow> le_ended l' \<noteq> None)"

lemma ages_refl [simp]: "ages l l"
  by (simp add: ages_def)

lemma ages_trans: "ages l l' \<Longrightarrow> ages l' l'' \<Longrightarrow> ages l l''"
  by (simp add: ages_def)

lemma heap_ages_update: "ages (h ! ref) l \<Longrightarrow> list_all2 ages h (h[ref := l])"
  by (cases "ref < length h") (auto simp: list_all2_conv_all_nth nth_list_update list_update_beyond)

text \<open>
  A step at time \<open>now\<close> that grants and extends nothing: every lease after it is one from before, and a lease that has not
  expired is still there.
\<close>

definition wanes :: "time \<Rightarrow> Server \<Rightarrow> Server \<Rightarrow> bool" where
  "wanes now s s' \<longleftrightarrow>
     (wf_server s \<longrightarrow>
        wf_server s' \<and> list_all2 ages (sv_heap s) (sv_heap s') \<and>
        (\<forall>db ref. fmlookup (sv_leases s') db = Some ref \<longrightarrow> fmlookup (sv_leases s) db = Some ref) \<and>
        (\<forall>db ref. fmlookup (sv_leases s) db = Some ref \<and> now < expiresAt (sv_heap s ! ref) \<longrightarrow> fmlookup (sv_leases s') db = Some ref))"

lemma wanesD:
  assumes "wanes now s s'" "wf_server s"
  shows "wf_server s'" "length (sv_heap s') = length (sv_heap s)" "\<And>ref. ref < length (sv_heap s) \<Longrightarrow> ages (sv_heap s ! ref) (sv_heap s' ! ref)"
    "\<And>db ref. fmlookup (sv_leases s') db = Some ref \<Longrightarrow> fmlookup (sv_leases s) db = Some ref"
    "\<And>db ref. fmlookup (sv_leases s) db = Some ref \<Longrightarrow> now < expiresAt (sv_heap s ! ref) \<Longrightarrow> fmlookup (sv_leases s') db = Some ref"
proof -
  from assms have *: "wf_server s'" "list_all2 ages (sv_heap s) (sv_heap s')"
    "\<forall>db ref. fmlookup (sv_leases s') db = Some ref \<longrightarrow> fmlookup (sv_leases s) db = Some ref"
    "\<forall>db ref. fmlookup (sv_leases s) db = Some ref \<and> now < expiresAt (sv_heap s ! ref) \<longrightarrow> fmlookup (sv_leases s') db = Some ref"
    unfolding wanes_def by blast+
  show "wf_server s'" by (rule *)
  show "length (sv_heap s') = length (sv_heap s)" using *(2) by (simp add: list_all2_lengthD)
  show "ages (sv_heap s ! ref) (sv_heap s' ! ref)" if "ref < length (sv_heap s)" for ref using *(2) that by (rule list_all2_nthD)
  show "fmlookup (sv_leases s) db = Some ref" if "fmlookup (sv_leases s') db = Some ref" for db ref using *(3) that by blast
  show "fmlookup (sv_leases s') db = Some ref" if "fmlookup (sv_leases s) db = Some ref" "now < expiresAt (sv_heap s ! ref)" for db ref
    using *(4) that by blast
qed

lemma wanesI:
  assumes "wf_server s \<Longrightarrow> wf_server s'" "list_all2 ages (sv_heap s) (sv_heap s')"
    "\<And>db ref. fmlookup (sv_leases s') db = Some ref \<Longrightarrow> fmlookup (sv_leases s) db = Some ref"
    "\<And>db ref. wf_server s \<Longrightarrow> fmlookup (sv_leases s) db = Some ref \<Longrightarrow> now < expiresAt (sv_heap s ! ref) \<Longrightarrow> fmlookup (sv_leases s') db = Some ref"
  shows "wanes now s s'"
  unfolding wanes_def by (intro impI conjI allI) (rule assms(1), assumption, rule assms(2), rule assms(3), assumption, erule conjE, rule assms(4))

lemma wanes_refl [simp, intro]: "wanes now s s"
  by (rule wanesI) (auto simp: list_all2_refl)

lemma wanes_trans:
  assumes "wanes now s s'" "wanes now s' s''"
  shows "wanes now s s''"
proof (cases "wf_server s")
  case True
  note a = wanesD [OF assms(1) True]
  note b = wanesD [OF assms(2) a(1)]
  have "expiresAt (sv_heap s' ! ref) = expiresAt (sv_heap s ! ref)" if "fmlookup (sv_leases s) db = Some ref" for db ref
    using a(3) [of ref] wf_leases [OF True that] by (simp add: ages_def expiresAt_def)
  then show ?thesis
  proof (intro wanesI)
    show "list_all2 ages (sv_heap s) (sv_heap s'')" using a(2,3) b(2,3) by (auto simp: list_all2_conv_all_nth intro: ages_trans)
    show "fmlookup (sv_leases s) db = Some ref" if "fmlookup (sv_leases s'') db = Some ref" for db ref using a(4) b(4) that by blast
    show "fmlookup (sv_leases s'') db = Some ref" if "fmlookup (sv_leases s) db = Some ref" "now < expiresAt (sv_heap s ! ref)"
        "\<And>db ref. fmlookup (sv_leases s) db = Some ref \<Longrightarrow> expiresAt (sv_heap s' ! ref) = expiresAt (sv_heap s ! ref)" for db ref
      using b(5) [OF a(5) [OF that(1,2)]] that(2) that(3) [OF that(1)] by simp
  qed (rule b(1))
qed (simp add: wanes_def)

text \<open>The lease part of the server decides.\<close>

lemma wanes_cong: "sv_byID s' = sv_byID s \<Longrightarrow> sv_leases s' = sv_leases s \<Longrightarrow> sv_heap s' = sv_heap s \<Longrightarrow> wanes now s s'"
  by (rule wanesI) (auto simp: list_all2_refl wf_server_def)

lemma end_run:
  assumes "wf_server s" "fmlookup (sv_byID s) lid = Some ref"
  shows "endLocked ref outcome s =
    s\<lparr>sv_byID := fmdrop lid (sv_byID s), sv_leases := fmdrop (le_database (sv_heap s ! ref)) (sv_leases s),
      sv_heap := (sv_heap s)[ref := (sv_heap s ! ref)\<lparr>le_ended := Some outcome\<rparr>]\<rparr>"
  using wf_byID [OF assms] assms(2) by (simp add: endLocked_def Let_def)

lemma wf_serverI:
  assumes "\<And>lid ref. fmlookup (sv_byID s) lid = Some ref \<Longrightarrow>
      ref < length (sv_heap s) \<and> le_id (sv_heap s ! ref) = lid \<and> le_ended (sv_heap s ! ref) = None \<and>
      fmlookup (sv_leases s) (le_database (sv_heap s ! ref)) = Some ref"
    and "\<And>db ref. fmlookup (sv_leases s) db = Some ref \<Longrightarrow>
      ref < length (sv_heap s) \<and> le_database (sv_heap s ! ref) = db \<and> fmlookup (sv_byID s) (le_id (sv_heap s ! ref)) = Some ref"
  shows "wf_server s"
  unfolding wf_server_def using assms by blast

lemma wf_end:
  assumes "wf_server s" "fmlookup (sv_byID s) lid = Some ref"
  shows "wf_server (endLocked ref outcome s)"
proof (rule wf_serverI)
  note ref = wf_byID [OF assms]
  fix lid' ref'
  assume "fmlookup (sv_byID (endLocked ref outcome s)) lid' = Some ref'"
  then have l: "lid' \<noteq> lid" "fmlookup (sv_byID s) lid' = Some ref'" by (auto simp: end_run [OF assms] split: if_splits)
  note r = wf_byID [OF assms(1) l(2)]
  have "ref' \<noteq> ref" using l(1) r ref by auto
  moreover from this have "le_database (sv_heap s ! ref') \<noteq> le_database (sv_heap s ! ref)" using r ref by auto
  ultimately show "ref' < length (sv_heap (endLocked ref outcome s)) \<and> le_id (sv_heap (endLocked ref outcome s) ! ref') = lid' \<and>
      le_ended (sv_heap (endLocked ref outcome s) ! ref') = None \<and>
      fmlookup (sv_leases (endLocked ref outcome s)) (le_database (sv_heap (endLocked ref outcome s) ! ref')) = Some ref'"
    using r by (simp add: end_run [OF assms])
next
  note ref = wf_byID [OF assms]
  fix db ref'
  assume "fmlookup (sv_leases (endLocked ref outcome s)) db = Some ref'"
  then have l: "db \<noteq> le_database (sv_heap s ! ref)" "fmlookup (sv_leases s) db = Some ref'" by (auto simp: end_run [OF assms] split: if_splits)
  note r = wf_leases [OF assms(1) l(2)]
  have "ref' \<noteq> ref" using l(1) r by auto
  moreover from this have "le_id (sv_heap s ! ref') \<noteq> lid" using r assms(2) by auto
  ultimately show "ref' < length (sv_heap (endLocked ref outcome s)) \<and> le_database (sv_heap (endLocked ref outcome s) ! ref') = db \<and>
      fmlookup (sv_byID (endLocked ref outcome s)) (le_id (sv_heap (endLocked ref outcome s) ! ref')) = Some ref'"
    using r by (simp add: end_run [OF assms])
qed

lemma wanes_end:
  assumes "wf_server s" "fmlookup (sv_byID s) lid = Some ref" "now \<ge> expiresAt (sv_heap s ! ref)"
  shows "wanes now s (endLocked ref outcome s)"
proof (rule wanesI)
  note ref = wf_byID [OF assms(1,2)]
  show "list_all2 ages (sv_heap s) (sv_heap (endLocked ref outcome s))"
    by (simp add: end_run [OF assms(1,2)] heap_ages_update ages_def)
  fix db ref'
  show "fmlookup (sv_leases (endLocked ref outcome s)) db = Some ref' \<Longrightarrow> fmlookup (sv_leases s) db = Some ref'"
    by (simp add: end_run [OF assms(1,2)] split: if_splits)
  show "fmlookup (sv_leases s) db = Some ref' \<Longrightarrow> now < expiresAt (sv_heap s ! ref') \<Longrightarrow> fmlookup (sv_leases (endLocked ref outcome s)) db = Some ref'"
    using ref assms(3) by (auto simp: end_run [OF assms(1,2)])
qed (rule wf_end [OF assms(1,2)])

lemma wanes_revoke: "wanes now' s (revokeLocked ref now s)"
proof -
  let ?l = "(sv_heap s ! ref)\<lparr>le_revoked := True, le_revokedAt := now\<rparr>"
  have "wanes now' s (s\<lparr>sv_heap := (sv_heap s)[ref := ?l]\<rparr>)"
  proof (rule wanesI)
    assume wf: "wf_server s"
    have same: "le_id ((sv_heap s)[ref := ?l] ! i) = le_id (sv_heap s ! i)" "le_database ((sv_heap s)[ref := ?l] ! i) = le_database (sv_heap s ! i)"
      "le_ended ((sv_heap s)[ref := ?l] ! i) = le_ended (sv_heap s ! i)" for i
      by (cases "ref < length (sv_heap s)"; simp add: nth_list_update list_update_beyond)+
    show "wf_server (s\<lparr>sv_heap := (sv_heap s)[ref := ?l]\<rparr>)"
      by (rule wf_serverI) (use wf_byID [OF wf] wf_leases [OF wf] in \<open>simp_all add: same\<close>)
  qed (auto simp: ages_def intro!: heap_ages_update)
  then show ?thesis by (simp add: revokeLocked_def Let_def)
qed

lemma wanes_sweep: "wanes now s (sweepLocked now s)"
proof (cases "wf_server s")
  case True
  have "wanes now s (foldl (\<lambda>s id'. case fmlookup (sv_byID s) id' of
      Some ref \<Rightarrow> if now \<ge> expiresAt (sv_heap s ! ref) then endLocked ref waitExpired s else s | None \<Rightarrow> s) s ids)" for ids
    using True
  proof (induction ids arbitrary: s)
    case (Cons i ids)
    let ?s = "case fmlookup (sv_byID s) i of Some ref \<Rightarrow> if now \<ge> expiresAt (sv_heap s ! ref) then endLocked ref waitExpired s else s | None \<Rightarrow> s"
    have "wanes now s ?s" using wanes_end [OF Cons.prems] by (auto split: option.splits)
    from wanes_trans [OF this Cons.IH] wanesD(1) [OF this Cons.prems] show ?case by simp
  qed simp
  then show ?thesis by (simp add: sweepLocked_def)
qed (simp add: wanes_def)

section \<open>The operations that grant nothing\<close>

lemma wanes_fold:
  assumes "\<And>s x. wanes now s (f s x)"
  shows "wanes now s (foldl f s xs)"
  using assms by (induction xs arbitrary: s) (auto intro: wanes_trans)

lemma wanes_revokeOwned: "wanes now' s (revokeOwned k now s)"
  unfolding revokeOwned_def by (auto intro: wanes_revoke split: option.splits)

lemma wanes_pollOne: "wanes now s (pollOne c copyTable rd now s p)"
proof -
  have "wanes now s (setServingLocked p st reason now s)" for st reason
  proof -
    have "wanes now s (s\<lparr>sv_dbs := dbs\<rparr>)" for dbs by (rule wanes_cong) simp_all
    then show ?thesis unfolding setServingLocked_def Let_def by (auto intro: wanes_trans [OF _ wanes_revokeOwned])
  qed
  then show ?thesis unfolding pollOne_def Let_def by (simp split: prod.split)
qed

lemma wanes_poll: "wanes now s (pollApply c copyTable rd now s)"
proof -
  have note_entry: "wanes now s (noteOwnerEntry rd now s owner)" for s owner
    unfolding noteOwnerEntry_def Let_def by (auto intro: wanes_cong split: option.splits)
  have dropping: "wanes now s (pollDrop rd now s k)" for s k
    unfolding pollDrop_def Let_def by (auto intro: wanes_trans [OF wanes_revokeOwned wanes_cong])
  show ?thesis unfolding pollApply_def Let_def
    by (rule wanes_trans [OF wanes_sweep wanes_trans [OF wanes_fold wanes_trans [OF wanes_fold wanes_fold]]])
      (rule note_entry wanes_pollOne dropping)+
qed

lemma wanes_before: "BeforeInstall now k s = (o', s') \<Longrightarrow> wanes now s s'"
proof -
  have "wanes now s (sweepLocked now (s\<lparr>sv_epoch := e, sv_dbs := dbs\<rparr>))" for e dbs
    by (rule wanes_trans [OF wanes_cong wanes_sweep]) simp_all
  then show "BeforeInstall now k s = (o', s') \<Longrightarrow> wanes now s s'"
    unfolding BeforeInstall_def Let_def by (auto split: option.splits intro: wanes_trans [OF _ wanes_revoke])
qed

lemma wanes_install: "wanes now s (installTimer now s)" "wanes now s (installCancelled k s)" "wanes now s (AfterInstall k s)"
    "wanes now s (recordProbe now owner reached s)" "wanes now s (snd (Serving now s))"
  by (auto simp: installTimer_def wanes_sweep installCancelled_def AfterInstall_def recordProbe_def Serving_def Let_def
      split: option.splits intro: wanes_cong)

section \<open>The install marks\<close>

text \<open>A marked database is known to the server and not serving.\<close>

definition marked :: "Server \<Rightarrow> OwnerDatabase \<Rightarrow> nat" where
  "marked s k = db_installing (stateLocked k s)"

definition wf_marks :: "Server \<Rightarrow> bool" where
  "wf_marks s \<longleftrightarrow> (\<forall>k. marked s k > 0 \<longrightarrow> k \<in> fmdom' (sv_dbs s) \<and> \<not> db_serving (stateLocked k s))"

lemma stateLocked_upd: "stateLocked k (s\<lparr>sv_dbs := fmupd k' st (sv_dbs s)\<rparr>) = (if k = k' then st else stateLocked k s)"
  by (simp add: stateLocked_def fmget_def)

lemma dbs_end [simp]: "sv_dbs (endLocked ref outcome s) = sv_dbs s" "sv_epoch (endLocked ref outcome s) = sv_epoch s"
  "sv_owners (endLocked ref outcome s) = sv_owners s"
  by (simp_all add: endLocked_def Let_def)

lemma dbs_sweep [simp]: "sv_dbs (sweepLocked now s) = sv_dbs s" "sv_epoch (sweepLocked now s) = sv_epoch s"
  "sv_owners (sweepLocked now s) = sv_owners s"
proof -
  have "sv_dbs (foldl (\<lambda>s i. case fmlookup (sv_byID s) i of
      Some ref \<Rightarrow> if now \<ge> expiresAt (sv_heap s ! ref) then endLocked ref waitExpired s else s | None \<Rightarrow> s) s ids) = sv_dbs s \<and>
    sv_epoch (foldl (\<lambda>s i. case fmlookup (sv_byID s) i of
      Some ref \<Rightarrow> if now \<ge> expiresAt (sv_heap s ! ref) then endLocked ref waitExpired s else s | None \<Rightarrow> s) s ids) = sv_epoch s \<and>
    sv_owners (foldl (\<lambda>s i. case fmlookup (sv_byID s) i of
      Some ref \<Rightarrow> if now \<ge> expiresAt (sv_heap s ! ref) then endLocked ref waitExpired s else s | None \<Rightarrow> s) s ids) = sv_owners s" for ids
    by (induction ids arbitrary: s) (auto split: option.split)
  then show "sv_dbs (sweepLocked now s) = sv_dbs s" "sv_epoch (sweepLocked now s) = sv_epoch s" "sv_owners (sweepLocked now s) = sv_owners s"
    by (simp_all add: sweepLocked_def)
qed

lemma dbs_revoke [simp]: "sv_dbs (revokeLocked ref now s) = sv_dbs s" "sv_dbs (revokeOwned k now s) = sv_dbs s"
  "sv_epoch (revokeLocked ref now s) = sv_epoch s" "sv_epoch (revokeOwned k now s) = sv_epoch s"
  "sv_owners (revokeLocked ref now s) = sv_owners s" "sv_owners (revokeOwned k now s) = sv_owners s"
  by (simp_all add: revokeLocked_def revokeOwned_def Let_def split: option.split)

lemma stateLocked_cong: "sv_dbs s' = sv_dbs s \<Longrightarrow> stateLocked k s' = stateLocked k s"
  by (simp add: stateLocked_def)

text \<open>A step that marks and unmarks nothing.\<close>

definition settles :: "Server \<Rightarrow> Server \<Rightarrow> bool" where
  "settles s s' \<longleftrightarrow> (wf_marks s \<longrightarrow> wf_marks s') \<and> (\<forall>k. marked s' k = marked s k)"

lemma settles_refl [simp, intro]: "settles s s"
  by (simp add: settles_def)

lemma settles_trans: "settles s s' \<Longrightarrow> settles s' s'' \<Longrightarrow> settles s s''"
  by (simp add: settles_def)

lemma settles_cong: "sv_dbs s' = sv_dbs s \<Longrightarrow> settles s s'"
  by (simp add: settles_def wf_marks_def marked_def stateLocked_def)

lemma settles_fold:
  assumes "\<And>s x. settles s (f s x)"
  shows "settles s (foldl f s xs)"
  using assms by (induction xs arbitrary: s) (auto intro: settles_trans)

lemma settles_upd:
  assumes "db_installing st = marked s k" "marked s k > 0 \<Longrightarrow> \<not> db_serving st"
  shows "settles s (s\<lparr>sv_dbs := fmupd k st (sv_dbs s)\<rparr>)"
  using assms by (auto simp: settles_def wf_marks_def marked_def stateLocked_upd)

lemma countPolls_frame [simp]: "db_installing (countPolls i e st) = db_installing st" "db_installed (countPolls i e st) = db_installed st"
  "db_copy (countPolls i e st) = db_copy st" "db_haveCopy (countPolls i e st) = db_haveCopy st"
  by (simp_all add: countPolls_def split: option.split)

lemma evaluate_installing: "fst (evaluateLocked c copyTable k st True entry duplicate snap registryOn) \<noteq> None"
  by (simp add: evaluateLocked_def)

text \<open>The parts of a poll of one database: whether it counts as installing, the state it evaluates and the verdict.\<close>

definition busy :: "poll_reads \<Rightarrow> Server \<Rightarrow> OwnerDatabase \<Rightarrow> bool" where
  "busy rd s p \<longleftrightarrow> db_installing (stateLocked p s) > 0 \<or> db_installed (stateLocked p s) > po_startEpoch rd"

definition polled :: "serve_Config \<Rightarrow> poll_reads \<Rightarrow> time \<Rightarrow> Server \<Rightarrow> OwnerDatabase \<Rightarrow> dbState" where
  "polled c rd now s p =
     (countPolls (busy rd s p) (po_entry rd (od_Owner p))
        ((stateLocked p s)\<lparr>db_copy := (case po_copies rd p of Some copy \<Rightarrow> copy | None \<Rightarrow> zeroCopy), db_haveCopy := po_copies rd p \<noteq> None\<rparr>))
      \<lparr>db_quarantine := po_registryOn rd \<and> od_Owner p \<in> set (rs_QuarantinedIndexers (po_snap rd)),
       db_unreach := unreachableLocked c (od_Owner p) now s\<rparr>"

definition verdict ::
    "serve_Config \<Rightarrow> (string \<Rightarrow> u64 \<Rightarrow> string) \<Rightarrow> poll_reads \<Rightarrow> time \<Rightarrow> Server \<Rightarrow> OwnerDatabase \<Rightarrow> Reason option \<times> TableCopy list" where
  "verdict c copyTable rd now s p =
     evaluateLocked c copyTable p (polled c rd now s p) (busy rd s p) (po_entry rd (od_Owner p))
       (length (filter (\<lambda>q. od_Database q = od_Database p) (po_pairs rd)) > 1) (po_snap rd) (po_registryOn rd)"

lemma pollOne_eq:
  "pollOne c copyTable rd now s p =
     setServingLocked p ((polled c rd now s p)\<lparr>db_served := snd (verdict c copyTable rd now s p)\<rparr>) (fst (verdict c copyTable rd now s p)) now s"
  by (simp add: pollOne_def verdict_def polled_def busy_def Let_def split: prod.split)

lemma settles_setServing:
  assumes "db_installing st = marked s p" "marked s p > 0 \<Longrightarrow> reason \<noteq> None"
  shows "settles s (setServingLocked p st reason now s)"
proof -
  have "settles s (s\<lparr>sv_dbs := fmupd p (st\<lparr>db_serving := reason = None, db_reason := reason,
      db_served := (if reason = None then db_served st else [])\<rparr>) (sv_dbs s)\<rparr>)"
    using assms by (intro settles_upd) auto
  from this settles_trans [OF this settles_cong [of "revokeOwned p now _"]] show ?thesis
    by (cases reason) (simp_all add: setServingLocked_def Let_def)
qed

lemma settles_pollOne: "settles s (pollOne c copyTable rd now s p)"
  unfolding pollOne_eq
proof (rule settles_setServing)
  show "db_installing ((polled c rd now s p)\<lparr>db_served := snd (verdict c copyTable rd now s p)\<rparr>) = marked s p"
    by (simp add: polled_def marked_def)
  assume "marked s p > 0"
  then have "busy rd s p" by (simp add: busy_def marked_def)
  then show "fst (verdict c copyTable rd now s p) \<noteq> None" unfolding verdict_def by (simp only: evaluate_installing) simp
qed

lemma settles_poll: "settles s (pollApply c copyTable rd now s)"
proof -
  have note_entry: "settles s (noteOwnerEntry rd now s owner)" for s owner
    unfolding noteOwnerEntry_def Let_def by (auto intro: settles_cong split: option.splits)
  have dropping: "settles s (pollDrop rd now s k)" for s k
  proof (cases "k \<in> set (po_pairs rd) \<or> db_installing (stateLocked k s) > 0")
    case False
    then have "pollDrop rd now s k = (revokeOwned k now s)\<lparr>sv_dbs := fmdrop k (sv_dbs s)\<rparr>" by (simp add: pollDrop_def Let_def)
    moreover have "stateLocked k' ((revokeOwned k now s)\<lparr>sv_dbs := fmdrop k (sv_dbs s)\<rparr>) = (if k' = k then zeroState else stateLocked k' s)" for k'
      by (simp add: stateLocked_def fmget_def)
    ultimately show ?thesis using False by (auto simp: settles_def wf_marks_def marked_def zeroState_def)
  qed (simp add: pollDrop_def)
  show ?thesis unfolding pollApply_def Let_def
    by (rule settles_trans [OF settles_cong settles_trans [OF settles_fold settles_trans [OF settles_fold settles_fold]]])
      (rule dbs_sweep note_entry settles_pollOne dropping)+
qed

section \<open>The lease file\<close>

definition lease_records :: "nat option \<Rightarrow> lease option \<Rightarrow> nat option \<Rightarrow> time \<Rightarrow> Server \<Rightarrow> leaseRecord set" where
  "lease_records dropped added renewing renewed s =
     (\<lambda>ref. leaseRecordOf (sv_heap s ! ref) (if renewing = Some ref then renewed else le_renewed (sv_heap s ! ref))) `
       {ref. (\<exists>lid. fmlookup (sv_byID s) lid = Some ref) \<and> dropped \<noteq> Some ref} \<union>
     (\<lambda>l. leaseRecordOf l (le_renewed l)) ` set_option added"

lemma record_run:
  assumes "recordLeasesLocked wo dropped added renewing renewed s f = (res, f')"
  obtains (unwritten) "f' = f" "res = Inl ErrRecordLeases"
  | (written) rs where "f' = Leases leaseFileVersion rs" "set rs = lease_records dropped added renewing renewed s"
      "res = Inr () \<or> res = Inl ErrRecordLeases"
proof -
  define rs where "rs = sort_key lr_LeaseID
    (map (\<lambda>ref. leaseRecordOf (sv_heap s ! ref) (if renewing = Some ref then renewed else le_renewed (sv_heap s ! ref)))
       (filter (\<lambda>ref. dropped \<noteq> Some ref) (map (fmget 0 (sv_byID s)) (fmkeys (sv_byID s)))) @
     (case added of None \<Rightarrow> [] | Some l \<Rightarrow> [leaseRecordOf l (le_renewed l)]))"
  have refs: "fmget 0 (sv_byID s) ` fset (fmdom (sv_byID s)) = {ref. \<exists>lid. fmlookup (sv_byID s) lid = Some ref}"
  proof (intro equalityI subsetI)
    fix ref
    assume "ref \<in> {ref. \<exists>lid. fmlookup (sv_byID s) lid = Some ref}"
    then obtain lid where "fmlookup (sv_byID s) lid = Some ref" by blast
    then show "ref \<in> fmget 0 (sv_byID s) ` fset (fmdom (sv_byID s))" by (intro image_eqI [of _ _ lid]) (auto simp: fmget_def intro: fmdomI)
  next
    fix ref
    assume "ref \<in> fmget 0 (sv_byID s) ` fset (fmdom (sv_byID s))"
    then obtain lid where "lid \<in> fset (fmdom (sv_byID s))" "ref = fmget 0 (sv_byID s) lid" by blast
    then have "fmlookup (sv_byID s) lid = Some ref" by (auto simp: fmget_def fmlookup_dom_iff)
    then show "ref \<in> {ref. \<exists>lid. fmlookup (sv_byID s) lid = Some ref}" by blast
  qed
  have "set rs = lease_records dropped added renewing renewed s"
    unfolding rs_def lease_records_def by (cases added) (simp_all add: refs)
  moreover have "writeLeaseFile wo rs f = (res, f')"
    using assms unfolding recordLeasesLocked_def Let_def rs_def by simp
  ultimately show thesis using that by (cases wo) (auto simp: writeLeaseFile_def)
qed

text \<open>What the host may count on: the time to live in whole milliseconds.\<close>

definition whole :: "lease \<Rightarrow> time" where
  "whole l = le_renewed l + le_ttl l div Millisecond * Millisecond"

lemma whole_le: "whole l \<le> expiresAt l"
  by (simp add: whole_def expiresAt_def)

definition record_end :: "leaseRecord \<Rightarrow> time" where
  "record_end r = lr_RenewedUnixNano r + lr_TTLMs r * Millisecond"

lemma record_end_of [simp]: "record_end (leaseRecordOf l t) = t + le_ttl l div Millisecond * Millisecond" "lr_Database (leaseRecordOf l t) = le_database l"
  "lr_LeaseID (leaseRecordOf l t) = le_id l"
  by (simp_all add: record_end_def leaseRecordOf_def)

section \<open>Runs\<close>

text \<open>
  The member, its lease file, the clock, and the host: \<open>rn_grants\<close> is what the host holds, per database the lease it was
  told of last and until when it may answer; \<open>rn_waiting\<close> and \<open>rn_running\<close> are the installs that wait in \<open>BeforeInstall\<close> and
  those past it. An answer of the member may not reach the host. A drawn lease id is new, and the host releases a lease
  it was granted, or an id the member does not know.
\<close>

record serve_run =
  rn_server :: Server
  rn_file :: leaseFile
  rn_clock :: time
  rn_grants :: "string \<rightharpoonup> string \<times> time"
  rn_used :: "string set"
  rn_waiting :: "(OwnerDatabase \<times> nat) list"
  rn_running :: "OwnerDatabase list"

abbreviation term_of :: "serve_Config \<Rightarrow> duration" where
  "term_of c \<equiv> cf_LeaseTTL c div Millisecond * Millisecond"

inductive serve_step :: "serve_Config \<Rightarrow> (string \<Rightarrow> u64 \<Rightarrow> string) \<Rightarrow> serve_run \<Rightarrow> serve_run \<Rightarrow> bool" for c copyTable where
  tick: "rn_clock x \<le> t \<Longrightarrow> serve_step c copyTable x (x\<lparr>rn_clock := t\<rparr>)"
| poll: "serve_step c copyTable x (x\<lparr>rn_server := pollApply c copyTable rd (rn_clock x) (rn_server x)\<rparr>)"
| probe: "serve_step c copyTable x (x\<lparr>rn_server := recordProbe (rn_clock x) owner reached (rn_server x)\<rparr>)"
| view: "serve_step c copyTable x (x\<lparr>rn_server := snd (Serving (rn_clock x) (rn_server x))\<rparr>)"
| granted: "acquire c (rn_clock x) (Some lid) wo db snapshot (rn_server x) (rn_file x) = (Inr l, s, f) \<Longrightarrow> lid \<notin> rn_used x \<Longrightarrow>
    grants = rn_grants x \<or> grants = (rn_grants x)(db \<mapsto> (lid, rn_clock x + term_of c)) \<Longrightarrow>
    serve_step c copyTable x (x\<lparr>rn_server := s, rn_file := f, rn_grants := grants, rn_used := insert lid (rn_used x)\<rparr>)"
| refused: "acquire c (rn_clock x) drawn wo db snapshot (rn_server x) (rn_file x) = (Inl e, s, f) \<Longrightarrow> set_option drawn \<inter> rn_used x = {} \<Longrightarrow>
    serve_step c copyTable x (x\<lparr>rn_server := s, rn_file := f, rn_used := set_option drawn \<union> rn_used x\<rparr>)"
| renewed: "renew (rn_clock x) wo lid (rn_server x) (rn_file x) = (res, s, f) \<Longrightarrow>
    grants = rn_grants x \<or> (\<exists>db u. res = Inr () \<and> rn_grants x db = Some (lid, u) \<and> grants = (rn_grants x)(db \<mapsto> (lid, rn_clock x + term_of c))) \<Longrightarrow>
    serve_step c copyTable x (x\<lparr>rn_server := s, rn_file := f, rn_grants := grants\<rparr>)"
| released: "release (rn_clock x) wo lid (rn_server x) (rn_file x) = (s, f) \<Longrightarrow> rn_grants x db = Some (lid, u) \<Longrightarrow>
    serve_step c copyTable x (x\<lparr>rn_server := s, rn_file := f, rn_grants := (rn_grants x)(db := None)\<rparr>)"
| release_unknown: "release (rn_clock x) wo lid (rn_server x) (rn_file x) = (s, f) \<Longrightarrow> fmlookup (sv_byID (rn_server x)) lid = None \<Longrightarrow>
    serve_step c copyTable x (x\<lparr>rn_server := s, rn_file := f\<rparr>)"
| install_at_once: "BeforeInstall (rn_clock x) k (rn_server x) = (None, s) \<Longrightarrow>
    serve_step c copyTable x (x\<lparr>rn_server := s, rn_running := k # rn_running x\<rparr>)"
| install_waits: "BeforeInstall (rn_clock x) k (rn_server x) = (Some ref, s) \<Longrightarrow>
    serve_step c copyTable x (x\<lparr>rn_server := s, rn_waiting := (k, ref) # rn_waiting x\<rparr>)"
| timer: "serve_step c copyTable x (x\<lparr>rn_server := installTimer (rn_clock x) (rn_server x)\<rparr>)"
| wait_over: "(k, ref) \<in> set (rn_waiting x) \<Longrightarrow> leaseDone ref (rn_server x) \<Longrightarrow>
    serve_step c copyTable x (x\<lparr>rn_waiting := remove1 (k, ref) (rn_waiting x), rn_running := k # rn_running x\<rparr>)"
| wait_cancelled: "(k, ref) \<in> set (rn_waiting x) \<Longrightarrow>
    serve_step c copyTable x (x\<lparr>rn_server := installCancelled k (rn_server x), rn_waiting := remove1 (k, ref) (rn_waiting x)\<rparr>)"
| installed: "k \<in> set (rn_running x) \<Longrightarrow>
    serve_step c copyTable x (x\<lparr>rn_server := AfterInstall k (rn_server x), rn_running := remove1 k (rn_running x)\<rparr>)"
| restart: "rn_clock x \<le> t \<Longrightarrow> serve_New c t (rn_file x) = Inr s \<Longrightarrow>
    serve_step c copyTable x (x\<lparr>rn_server := s, rn_clock := t, rn_waiting := [], rn_running := []\<rparr>)"

inductive serve_reach :: "serve_Config \<Rightarrow> (string \<Rightarrow> u64 \<Rightarrow> string) \<Rightarrow> serve_run \<Rightarrow> bool" for c copyTable where
  start: "serve_New c t NoFile = Inr s \<Longrightarrow>
    serve_reach c copyTable \<lparr>rn_server = s, rn_file = NoFile, rn_clock = t, rn_grants = Map.empty, rn_used = {}, rn_waiting = [], rn_running = []\<rparr>"
| step: "serve_reach c copyTable x \<Longrightarrow> serve_step c copyTable x y \<Longrightarrow> serve_reach c copyTable y"

section \<open>The invariant\<close>

definition covered_by :: "Server \<Rightarrow> time \<Rightarrow> (string \<rightharpoonup> string \<times> time) \<Rightarrow> bool" where
  "covered_by s now grants \<longleftrightarrow>
     (\<forall>db lid u. grants db = Some (lid, u) \<and> now < u \<longrightarrow> (\<exists>ref. fmlookup (sv_leases s) db = Some ref \<and> u \<le> whole (sv_heap s ! ref)))"

definition filed :: "leaseFile \<Rightarrow> time \<Rightarrow> (string \<rightharpoonup> string \<times> time) \<Rightarrow> bool" where
  "filed f now grants \<longleftrightarrow>
     (\<forall>db lid u. grants db = Some (lid, u) \<and> now < u \<longrightarrow>
        (\<exists>v rs r. f = Leases v rs \<and> r \<in> set rs \<and> lr_Database r = db \<and> u \<le> record_end r))"

text \<open>Lease ids are never drawn twice, so an id that the host holds names the lease of that database.\<close>

definition named :: "Server \<Rightarrow> leaseFile \<Rightarrow> (string \<rightharpoonup> string \<times> time) \<Rightarrow> string set \<Rightarrow> bool" where
  "named s f grants used \<longleftrightarrow>
     fmdom' (sv_byID s) \<subseteq> used \<and> (\<forall>db lid u. grants db = Some (lid, u) \<longrightarrow> lid \<in> used) \<and>
     (\<forall>v rs r. f = Leases v rs \<and> r \<in> set rs \<longrightarrow> lr_LeaseID r \<in> used) \<and>
     (\<forall>db lid u ref. grants db = Some (lid, u) \<and> fmlookup (sv_byID s) lid = Some ref \<longrightarrow> le_database (sv_heap s ! ref) = db) \<and>
     (\<forall>db u v rs r. f = Leases v rs \<and> r \<in> set rs \<and> grants db = Some (lr_LeaseID r, u) \<longrightarrow> lr_Database r = db)"

text \<open>An install has its mark, and the lease of its database, if there is one, is revoked and is the one it waits for.\<close>

definition held_back :: "Server \<Rightarrow> (OwnerDatabase \<times> nat) list \<Rightarrow> OwnerDatabase list \<Rightarrow> bool" where
  "held_back s waiting running \<longleftrightarrow>
     (\<forall>k. count_list (map fst waiting) k + count_list running k \<le> marked s k) \<and>
     (\<forall>k ref. k \<in> fst ` set waiting \<union> set running \<and> fmlookup (sv_leases s) (od_Database k) = Some ref \<longrightarrow> le_revoked (sv_heap s ! ref)) \<and>
     (\<forall>(k, ref) \<in> set waiting. ref < length (sv_heap s) \<and> (\<forall>ref'. fmlookup (sv_leases s) (od_Database k) = Some ref' \<longrightarrow> ref' = ref))"

definition spent :: "time \<Rightarrow> (string \<rightharpoonup> string \<times> time) \<Rightarrow> OwnerDatabase list \<Rightarrow> bool" where
  "spent now grants running \<longleftrightarrow> (\<forall>k \<in> set running. \<forall>lid u. grants (od_Database k) = Some (lid, u) \<longrightarrow> u \<le> now)"

definition own_terms :: "serve_Config \<Rightarrow> Server \<Rightarrow> bool" where
  "own_terms c s \<longleftrightarrow> (\<forall>db ref. fmlookup (sv_leases s) db = Some ref \<and> \<not> le_revoked (sv_heap s ! ref) \<longrightarrow> le_ttl (sv_heap s ! ref) = cf_LeaseTTL c)"

definition serve_inv :: "serve_Config \<Rightarrow> serve_run \<Rightarrow> bool" where
  "serve_inv c x \<longleftrightarrow>
     wf_server (rn_server x) \<and> wf_marks (rn_server x) \<and> own_terms c (rn_server x) \<and>
     covered_by (rn_server x) (rn_clock x) (rn_grants x) \<and> filed (rn_file x) (rn_clock x) (rn_grants x) \<and>
     named (rn_server x) (rn_file x) (rn_grants x) (rn_used x) \<and>
     held_back (rn_server x) (rn_waiting x) (rn_running x) \<and> spent (rn_clock x) (rn_grants x) (rn_running x) \<and>
     (\<forall>db lid u. rn_grants x db = Some (lid, u) \<longrightarrow> u \<le> rn_clock x + term_of c)"

text \<open>A step that grants nothing keeps what holds of the leases.\<close>

lemma wanes_keeps:
  assumes "wanes now s s'" "wf_server s"
  shows "own_terms c s \<Longrightarrow> own_terms c s'" "covered_by s now grants \<Longrightarrow> covered_by s' now grants"
    "named s f grants used \<Longrightarrow> named s' f grants used"
proof -
  note w = wanesD [OF assms]
  have aged: "ages (sv_heap s ! ref) (sv_heap s' ! ref)" if "fmlookup (sv_leases s) db = Some ref" for db ref
    using w(3) wf_leases [OF assms(2) that] by blast
  show "own_terms c s'" if "own_terms c s"
    unfolding own_terms_def
  proof (intro allI impI, elim conjE)
    fix db ref
    assume "fmlookup (sv_leases s') db = Some ref" "\<not> le_revoked (sv_heap s' ! ref)"
    with w(4) [OF this(1)] aged [OF w(4) [OF this(1)]] that show "le_ttl (sv_heap s' ! ref) = cf_LeaseTTL c"
      unfolding own_terms_def ages_def by metis
  qed
  show "covered_by s' now grants" if "covered_by s now grants"
    unfolding covered_by_def
  proof (intro allI impI)
    fix db lid u
    assume "grants db = Some (lid, u) \<and> now < u"
    with that obtain ref where ref: "fmlookup (sv_leases s) db = Some ref" "u \<le> whole (sv_heap s ! ref)" "now < u" unfolding covered_by_def by blast
    with w(5) [OF ref(1)] whole_le [of "sv_heap s ! ref"] have "fmlookup (sv_leases s') db = Some ref" by simp
    moreover have "whole (sv_heap s' ! ref) = whole (sv_heap s ! ref)" using aged [OF ref(1)] by (simp add: ages_def whole_def)
    ultimately show "\<exists>ref. fmlookup (sv_leases s') db = Some ref \<and> u \<le> whole (sv_heap s' ! ref)" using ref(2) by auto
  qed
  have kept: "fmlookup (sv_byID s) lid = Some ref \<and> le_database (sv_heap s' ! ref) = le_database (sv_heap s ! ref)" if "fmlookup (sv_byID s') lid = Some ref" for lid ref
  proof -
    note r = wf_byID [OF w(1) that]
    from r have "fmlookup (sv_leases s) (le_database (sv_heap s' ! ref)) = Some ref" using w(4) by blast
    from wf_leases [OF assms(2) this] aged [OF this] r show ?thesis by (simp add: ages_def)
  qed
  show "named s' f grants used" if "named s f grants used"
    using that kept unfolding named_def by (auto simp: fmdom'_alt_def fmlookup_dom_iff) (metis fmdomI subsetD)+
qed

lemma held_back_wanes:
  assumes "wanes now s s'" "wf_server s" "held_back s waiting running"
    and "\<And>k. count_list (map fst waiting') k + count_list running' k \<le> marked s' k"
    and "set waiting' \<subseteq> set waiting" "set running' \<subseteq> set running"
  shows "held_back s' waiting' running'"
proof -
  note w = wanesD [OF assms(1,2)]
  have "le_revoked (sv_heap s' ! ref)" if "k \<in> fst ` set waiting' \<union> set running'" "fmlookup (sv_leases s') (od_Database k) = Some ref" for k ref
  proof -
    have "fmlookup (sv_leases s) (od_Database k) = Some ref" by (rule w(4) [OF that(2)])
    moreover have "k \<in> fst ` set waiting \<union> set running" using that(1) assms(5,6) by auto
    ultimately have "le_revoked (sv_heap s ! ref)" "ref < length (sv_heap s)"
      using assms(3) wf_leases [OF assms(2)] unfolding held_back_def by blast+
    with w(3) [of ref] show ?thesis by (simp add: ages_def)
  qed
  moreover have "ref < length (sv_heap s') \<and> (\<forall>ref'. fmlookup (sv_leases s') (od_Database k) = Some ref' \<longrightarrow> ref' = ref)"
    if "(k, ref) \<in> set waiting'" for k ref
  proof -
    from that assms(5) have "(k, ref) \<in> set waiting" by blast
    with assms(3) have "ref < length (sv_heap s)" "\<And>ref'. fmlookup (sv_leases s) (od_Database k) = Some ref' \<Longrightarrow> ref' = ref"
      unfolding held_back_def by blast+
    with w(2,4) show ?thesis by metis
  qed
  ultimately show ?thesis using assms(4) unfolding held_back_def by blast
qed

lemma held_back_settles:
  assumes "wanes now s s'" "wf_server s" "settles s s'" "held_back s waiting running"
  shows "held_back s' waiting running"
  using assms(3,4) by (intro held_back_wanes [OF assms(1,2,4)]) (auto simp: settles_def held_back_def)

text \<open>A step of the server alone that grants nothing and marks nothing.\<close>

lemma inv_quiet:
  assumes "serve_inv c x" "wanes (rn_clock x) (rn_server x) s'" "settles (rn_server x) s'"
  shows "serve_inv c (x\<lparr>rn_server := s'\<rparr>)"
  using assms wanes_keeps [OF assms(2)] wanesD(1) [OF assms(2)] held_back_settles [OF assms(2) _ assms(3)]
  unfolding serve_inv_def by (simp add: settles_def)

lemma inv_tick:
  assumes "serve_inv c x" "rn_clock x \<le> t"
  shows "serve_inv c (x\<lparr>rn_clock := t\<rparr>)"
proof -
  from assms have "covered_by (rn_server x) t (rn_grants x)" "filed (rn_file x) t (rn_grants x)" "spent t (rn_grants x) (rn_running x)"
    "\<forall>db lid u. rn_grants x db = Some (lid, u) \<longrightarrow> u \<le> t + term_of c"
    unfolding serve_inv_def covered_by_def filed_def spent_def by (fastforce dest: order_trans)+
  with assms(1) show ?thesis unfolding serve_inv_def by simp
qed

section \<open>Granting\<close>

lemma acquire_run:
  assumes "acquire c now drawn wo db snapshot s f = (res, s', f')"
  obtains (refused) e where "res = Inl e" "s' = sweepLocked now s" "f' = f"
  | (served) k lid l old where "k \<in> fmdom' (sv_dbs s)" "od_Database k = db" "\<And>k'. k' \<in> fmdom' (sv_dbs s) \<Longrightarrow> od_Database k' = db \<Longrightarrow> k' = k"
      "db_serving (stateLocked k s)" "drawn = Some lid" "old = fmlookup (sv_leases (sweepLocked now s)) db"
      "l = \<lparr>le_id = lid, le_database = db, le_owner = od_Owner k, le_renewed = now, le_ttl = cf_LeaseTTL c, le_revoked = False, le_revokedAt = 0, le_ended = None\<rparr>"
      "(\<exists>e. recordLeasesLocked wo old (Some l) None 0 (sweepLocked now s) f = (Inl e, f') \<and> res = Inl e \<and> s' = sweepLocked now s) \<or>
       (recordLeasesLocked wo old (Some l) None 0 (sweepLocked now s) f = (Inr (), f') \<and> res = Inr l \<and>
        (let s1 = (case old of None \<Rightarrow> sweepLocked now s | Some ref \<Rightarrow> endLocked ref waitReleased (sweepLocked now s)) in
         s' = s1\<lparr>sv_heap := sv_heap s1 @ [l], sv_leases := fmupd db (length (sv_heap s1)) (sv_leases s1),
                 sv_byID := fmupd lid (length (sv_heap s1)) (sv_byID s1)\<rparr>))"
proof (cases "filter (\<lambda>k. od_Database k = db) (fmkeys (sv_dbs s))")
  case Nil
  with assms refused show thesis by (auto simp: acquire_def Let_def)
next
  case (Cons k ks)
  show thesis
  proof (cases ks)
    case (Cons k' ks')
    with \<open>filter _ _ = k # ks\<close> assms refused show thesis by (auto simp: acquire_def Let_def)
  next
    case Nil
    with \<open>filter _ _ = k # ks\<close> have only: "filter (\<lambda>k. od_Database k = db) (fmkeys (sv_dbs s)) = [k]" by simp
    then have "{k'. k' \<in> fmdom' (sv_dbs s) \<and> od_Database k' = db} = {k}"
      by (metis (mono_tags, lifting) Collect_cong empty_set fmdom'_alt_def list.simps(15) set_filter set_fmkeys)
    then have k: "k \<in> fmdom' (sv_dbs s)" "od_Database k = db" "\<And>k'. k' \<in> fmdom' (sv_dbs s) \<Longrightarrow> od_Database k' = db \<Longrightarrow> k' = k" by blast+
    have st: "stateLocked k (sweepLocked now s) = stateLocked k s" by (rule stateLocked_cong) simp
    show thesis
    proof (cases "db_serving (stateLocked k s) \<and> snapshot = dc_SnapshotID (db_copy (stateLocked k s)) \<and> drawn \<noteq> None")
      case False
      with only assms refused show thesis by (auto simp: acquire_def Let_def st split: if_splits)
    next
      case True
      then obtain lid where lid: "drawn = Some lid" by blast
      show thesis
        by (rule served [OF k _ lid refl refl])
          (use True lid only assms in \<open>auto simp: acquire_def Let_def st split: if_splits sum.splits prod.splits option.splits\<close>)
    qed
  qed
qed

definition add_lease :: "lease \<Rightarrow> Server \<Rightarrow> Server" where
  "add_lease l s = s\<lparr>sv_heap := sv_heap s @ [l], sv_leases := fmupd (le_database l) (length (sv_heap s)) (sv_leases s),
     sv_byID := fmupd (le_id l) (length (sv_heap s)) (sv_byID s)\<rparr>"

lemma wf_add:
  assumes "wf_server s" "fmlookup (sv_leases s) (le_database l) = None" "fmlookup (sv_byID s) (le_id l) = None" "le_ended l = None"
  shows "wf_server (add_lease l s)"
proof (rule wf_serverI)
  fix lid ref
  assume "fmlookup (sv_byID (add_lease l s)) lid = Some ref"
  then have look: "(if le_id l = lid then Some (length (sv_heap s)) else fmlookup (sv_byID s) lid) = Some ref" by (simp add: add_lease_def)
  show "ref < length (sv_heap (add_lease l s)) \<and> le_id (sv_heap (add_lease l s) ! ref) = lid \<and> le_ended (sv_heap (add_lease l s) ! ref) = None \<and>
      fmlookup (sv_leases (add_lease l s)) (le_database (sv_heap (add_lease l s) ! ref)) = Some ref"
  proof (cases "le_id l = lid")
    case True
    with look assms(4) show ?thesis by (auto simp: add_lease_def)
  next
    case False
    with look have "fmlookup (sv_byID s) lid = Some ref" by simp
    note r = wf_byID [OF assms(1) this]
    have "le_database (sv_heap s ! ref) \<noteq> le_database l"
    proof
      assume "le_database (sv_heap s ! ref) = le_database l"
      with r assms(2) show False by simp
    qed
    with r show ?thesis by (simp add: add_lease_def nth_append)
  qed
next
  fix db ref
  assume "fmlookup (sv_leases (add_lease l s)) db = Some ref"
  then have look: "(if le_database l = db then Some (length (sv_heap s)) else fmlookup (sv_leases s) db) = Some ref" by (simp add: add_lease_def)
  show "ref < length (sv_heap (add_lease l s)) \<and> le_database (sv_heap (add_lease l s) ! ref) = db \<and>
      fmlookup (sv_byID (add_lease l s)) (le_id (sv_heap (add_lease l s) ! ref)) = Some ref"
  proof (cases "le_database l = db")
    case True
    with look show ?thesis by (auto simp: add_lease_def)
  next
    case False
    with look have "fmlookup (sv_leases s) db = Some ref" by simp
    note r = wf_leases [OF assms(1) this]
    have "le_id (sv_heap s ! ref) \<noteq> le_id l"
    proof
      assume "le_id (sv_heap s ! ref) = le_id l"
      with r assms(3) show False by simp
    qed
    with r show ?thesis by (simp add: add_lease_def nth_append)
  qed
qed

text \<open>The new file lists what the host holds.\<close>

lemma filed_written:
  assumes "wf_server s" "covered_by s now grants" "\<And>db lid u. grants db = Some (lid, u) \<Longrightarrow> u \<le> now + term_of c"
    and "set rs = lease_records dropped added renewing renewed s"
    and "\<And>ref. renewing = Some ref \<Longrightarrow> renewed = now \<and> le_ttl (sv_heap s ! ref) = cf_LeaseTTL c"
    and "\<And>ref. dropped = Some ref \<Longrightarrow> \<exists>l. added = Some l \<and> le_database l = le_database (sv_heap s ! ref) \<and> le_renewed l = now \<and> le_ttl l = cf_LeaseTTL c"
  shows "filed (Leases v rs) now grants"
  unfolding filed_def
proof (intro allI impI)
  fix db lid u
  assume g: "grants db = Some (lid, u) \<and> now < u"
  with assms(2) obtain ref where ref: "fmlookup (sv_leases s) db = Some ref" "u \<le> whole (sv_heap s ! ref)" unfolding covered_by_def by blast
  note r = wf_leases [OF assms(1) ref(1)]
  have "\<exists>r \<in> set rs. lr_Database r = db \<and> u \<le> record_end r"
  proof (cases "dropped = Some ref")
    case True
    from assms(6) [OF this] obtain l where "added = Some l" "le_database l = db" "le_renewed l = now" "le_ttl l = cf_LeaseTTL c" using r by auto
    with assms(3) g show ?thesis unfolding assms(4) lease_records_def by (auto intro!: bexI [of _ "leaseRecordOf l now"])
  next
    case False
    let ?r = "leaseRecordOf (sv_heap s ! ref) (if renewing = Some ref then renewed else le_renewed (sv_heap s ! ref))"
    have "?r \<in> set rs" unfolding assms(4) lease_records_def using r False by blast
    moreover have "u \<le> record_end ?r"
      using assms(5) [of ref] assms(3) g ref(2) by (auto simp: whole_def)
    ultimately show ?thesis using r by (auto intro!: bexI [of _ ?r])
  qed
  then show "\<exists>v' rs' r. Leases v rs = Leases v' rs' \<and> r \<in> set rs' \<and> lr_Database r = db \<and> u \<le> record_end r" by blast
qed

lemma named_written:
  assumes "wf_server s" "named s f grants used" "set rs = lease_records dropped added renewing renewed s"
    and "\<And>l. added = Some l \<Longrightarrow> le_id l \<in> used \<and> (\<forall>db u. grants db = Some (le_id l, u) \<longrightarrow> le_database l = db)"
  shows "named s (Leases v rs) grants used"
proof -
  have "lr_LeaseID r \<in> used \<and> (\<forall>db u. grants db = Some (lr_LeaseID r, u) \<longrightarrow> lr_Database r = db)" if "r \<in> set rs" for r
  proof -
    from that consider ref lid where "fmlookup (sv_byID s) lid = Some ref" "lr_LeaseID r = le_id (sv_heap s ! ref)" "lr_Database r = le_database (sv_heap s ! ref)"
      | l where "added = Some l" "lr_LeaseID r = le_id l" "lr_Database r = le_database l"
      unfolding assms(3) lease_records_def by (cases added) auto
    then show ?thesis
    proof cases
      case 1
      from wf_byID [OF assms(1) 1(1)] have id: "le_id (sv_heap s ! ref) = lid" by simp
      have "lid \<in> used" using 1(1) assms(2) unfolding named_def by (auto simp: fmdom'_alt_def intro: fmdomI)
      moreover have "\<forall>db u. grants db = Some (lid, u) \<longrightarrow> le_database (sv_heap s ! ref) = db"
        using 1(1) assms(2) unfolding named_def by blast
      ultimately show ?thesis using 1 id by simp
    qed (use assms(4) in auto)
  qed
  with assms(2) show ?thesis unfolding named_def by blast
qed

section \<open>Every step keeps the invariant\<close>

lemma inv_sweep: "serve_inv c x \<Longrightarrow> serve_inv c (x\<lparr>rn_server := sweepLocked (rn_clock x) (rn_server x)\<rparr>)"
  by (rule inv_quiet) (auto intro: wanes_sweep settles_cong)

lemma inv_used:
  assumes "serve_inv c x" "rn_used x \<subseteq> used"
  shows "serve_inv c (x\<lparr>rn_used := used\<rparr>)"
proof -
  have "named (rn_server x) (rn_file x) (rn_grants x) used"
    using assms unfolding serve_inv_def named_def by (meson subset_iff)
  with assms(1) show ?thesis unfolding serve_inv_def by simp
qed

lemma inv_file:
  assumes "serve_inv c x" "filed f (rn_clock x) (rn_grants x)" "named (rn_server x) f (rn_grants x) (rn_used x)"
  shows "serve_inv c (x\<lparr>rn_file := f\<rparr>)"
  using assms unfolding serve_inv_def by simp

text \<open>The lease that \<open>acquire\<close> replaces is one of the database.\<close>

lemma acquire_file:
  assumes "serve_inv c x" "recordLeasesLocked wo (fmlookup (sv_leases (rn_server x)) db) (Some l) None 0 (rn_server x) (rn_file x) = (res, f)"
    and "le_database l = db" "le_renewed l = rn_clock x" "le_ttl l = cf_LeaseTTL c" "le_id l \<notin> rn_used x"
  shows "filed f (rn_clock x) (rn_grants x) \<and> named (rn_server x) f (rn_grants x) (insert (le_id l) (rn_used x))"
  using assms(2)
proof (cases rule: record_run)
  case unwritten
  with assms(1) inv_used [OF assms(1), of "insert (le_id l) (rn_used x)"] show ?thesis by (simp add: serve_inv_def subset_insertI)
next
  case (written rs)
  have inv: "wf_server (rn_server x)" "covered_by (rn_server x) (rn_clock x) (rn_grants x)"
    "\<And>db lid u. rn_grants x db = Some (lid, u) \<Longrightarrow> u \<le> rn_clock x + term_of c"
    "named (rn_server x) (rn_file x) (rn_grants x) (insert (le_id l) (rn_used x))"
    using assms(1) inv_used [OF assms(1), of "insert (le_id l) (rn_used x)"] unfolding serve_inv_def by (auto simp: subset_insertI)
  have "filed f (rn_clock x) (rn_grants x)" unfolding written(1)
    by (rule filed_written [OF inv(1-3) written(2)]) (use wf_leases [OF inv(1)] assms(3-5) in auto)
  moreover have "rn_grants x db \<noteq> Some (le_id l, u)" for db u using assms(1,6) unfolding serve_inv_def named_def by blast
  then have "named (rn_server x) f (rn_grants x) (insert (le_id l) (rn_used x))" unfolding written(1)
    by (intro named_written [OF inv(1,4) written(2)]) auto
  ultimately show ?thesis by blast
qed

lemma inv_refused:
  assumes "serve_inv c x" "acquire c (rn_clock x) drawn wo db snapshot (rn_server x) (rn_file x) = (Inl e, s, f)" "set_option drawn \<inter> rn_used x = {}"
  shows "serve_inv c (x\<lparr>rn_server := s, rn_file := f, rn_used := set_option drawn \<union> rn_used x\<rparr>)"
  using assms(2)
proof (cases rule: acquire_run)
  case (refused e')
  with inv_used [OF inv_sweep [OF assms(1)], of "set_option drawn \<union> rn_used x"] show ?thesis by (cases x) simp
next
  case (served k lid l old)
  let ?y = "x\<lparr>rn_server := sweepLocked (rn_clock x) (rn_server x)\<rparr>"
  have y: "serve_inv c ?y" by (rule inv_sweep [OF assms(1)])
  from served(8) have run: "recordLeasesLocked wo (fmlookup (sv_leases (rn_server ?y)) db) (Some l) None 0 (rn_server ?y) (rn_file ?y) = (Inl e, f)"
    "s = sweepLocked (rn_clock x) (rn_server x)" using served(6) by auto
  have "filed f (rn_clock ?y) (rn_grants ?y) \<and> named (rn_server ?y) f (rn_grants ?y) (insert (le_id l) (rn_used ?y))"
    by (rule acquire_file [OF y run(1)]) (use served(5,7) assms(3) in auto)
  moreover have "le_id l = lid" by (simp add: served(7))
  ultimately show ?thesis
    using inv_file [OF inv_used [OF y, of "insert lid (rn_used x)"], of f] served(5) run(2) by (cases x) (simp add: subset_insertI)
qed

text \<open>Replacing the lease of a database.\<close>

definition replace_lease :: "lease \<Rightarrow> Server \<Rightarrow> Server" where
  "replace_lease l s = add_lease l (case fmlookup (sv_leases s) (le_database l) of None \<Rightarrow> s | Some ref \<Rightarrow> endLocked ref waitReleased s)"

lemma replace_run:
  assumes "wf_server s" "fmlookup (sv_byID s) (le_id l) = None" "le_ended l = None"
  shows "wf_server (replace_lease l s)" "sv_dbs (replace_lease l s) = sv_dbs s"
    "fmlookup (sv_leases (replace_lease l s)) db = (if db = le_database l then Some (length (sv_heap s)) else fmlookup (sv_leases s) db)"
    "fmlookup (sv_byID (replace_lease l s)) lid = Some ref \<Longrightarrow> lid = le_id l \<and> ref = length (sv_heap s) \<or> fmlookup (sv_byID s) lid = Some ref"
    "length (sv_heap (replace_lease l s)) = Suc (length (sv_heap s))" "sv_heap (replace_lease l s) ! length (sv_heap s) = l"
    "ref < length (sv_heap s) \<Longrightarrow> ages (sv_heap s ! ref) (sv_heap (replace_lease l s) ! ref)"
    "fmlookup (sv_leases s) db' = Some ref \<Longrightarrow> db' \<noteq> le_database l \<Longrightarrow> sv_heap (replace_lease l s) ! ref = sv_heap s ! ref"
proof -
  obtain s1 where s1: "replace_lease l s = add_lease l s1" and facts: "wf_server s1" "sv_dbs s1 = sv_dbs s"
    "\<And>db. fmlookup (sv_leases s1) db = (if db = le_database l then None else fmlookup (sv_leases s) db)"
    "\<And>lid ref. fmlookup (sv_byID s1) lid = Some ref \<Longrightarrow> fmlookup (sv_byID s) lid = Some ref"
    "length (sv_heap s1) = length (sv_heap s)" "\<And>ref. ref < length (sv_heap s) \<Longrightarrow> ages (sv_heap s ! ref) (sv_heap s1 ! ref)"
    "\<And>db' ref. fmlookup (sv_leases s) db' = Some ref \<Longrightarrow> db' \<noteq> le_database l \<Longrightarrow> sv_heap s1 ! ref = sv_heap s ! ref"
  proof (cases "fmlookup (sv_leases s) (le_database l)")
    case None
    show thesis by (rule that [of s]) (use None assms(1) in \<open>auto simp: replace_lease_def\<close>)
  next
    case (Some old)
    note o = wf_leases [OF assms(1) Some]
    then have by_id: "fmlookup (sv_byID s) (le_id (sv_heap s ! old)) = Some old" by blast
    have other: "ref \<noteq> old" if "fmlookup (sv_leases s) db' = Some ref" "db' \<noteq> le_database l" for db' ref
      using wf_leases [OF assms(1) that(1)] o that(2) by auto
    show thesis
    proof (rule that [of "endLocked old waitReleased s"])
      show "wf_server (endLocked old waitReleased s)" by (rule wf_end [OF assms(1) by_id])
      show "ages (sv_heap s ! ref) (sv_heap (endLocked old waitReleased s) ! ref)" if "ref < length (sv_heap s)" for ref
        using that o by (cases "ref = old") (simp_all add: end_run [OF assms(1) by_id] ages_def)
      show "fmlookup (sv_byID s) lid = Some ref" if "fmlookup (sv_byID (endLocked old waitReleased s)) lid = Some ref" for lid ref
        using that by (simp add: end_run [OF assms(1) by_id] split: if_splits)
      show "sv_heap (endLocked old waitReleased s) ! ref = sv_heap s ! ref" if "fmlookup (sv_leases s) db' = Some ref" "db' \<noteq> le_database l" for db' ref
        using other [OF that] by (simp add: end_run [OF assms(1) by_id])
    qed (use Some o in \<open>simp_all add: replace_lease_def end_run [OF assms(1) by_id]\<close>)
  qed
  have free: "fmlookup (sv_leases s1) (le_database l) = None" "fmlookup (sv_byID s1) (le_id l) = None"
    using facts(3) facts(4) [of "le_id l"] assms(2) by (simp, cases "fmlookup (sv_byID s1) (le_id l)") auto
  show "wf_server (replace_lease l s)" unfolding s1 by (rule wf_add [OF facts(1) free assms(3)])
  show "sv_dbs (replace_lease l s) = sv_dbs s" unfolding s1 by (simp add: add_lease_def facts)
  show "fmlookup (sv_leases (replace_lease l s)) db = (if db = le_database l then Some (length (sv_heap s)) else fmlookup (sv_leases s) db)"
    unfolding s1 by (auto simp: add_lease_def facts)
  show "fmlookup (sv_byID (replace_lease l s)) lid = Some ref \<Longrightarrow> lid = le_id l \<and> ref = length (sv_heap s) \<or> fmlookup (sv_byID s) lid = Some ref"
    unfolding s1 using facts(4) by (auto simp: add_lease_def facts split: if_splits)
  show "length (sv_heap (replace_lease l s)) = Suc (length (sv_heap s))" "sv_heap (replace_lease l s) ! length (sv_heap s) = l"
    unfolding s1 using facts(5) by (simp_all add: add_lease_def nth_append)
  show "ref < length (sv_heap s) \<Longrightarrow> ages (sv_heap s ! ref) (sv_heap (replace_lease l s) ! ref)"
    unfolding s1 using facts(5,6) by (simp add: add_lease_def nth_append)
  show "fmlookup (sv_leases s) db' = Some ref \<Longrightarrow> db' \<noteq> le_database l \<Longrightarrow> sv_heap (replace_lease l s) ! ref = sv_heap s ! ref"
    unfolding s1 using facts(5,7) wf_leases [OF assms(1), of db' ref] by (simp add: add_lease_def nth_append)
qed

lemma serving_unmarked:
  assumes "wf_marks s" "held_back s waiting running" "db_serving (stateLocked k s)" "k' \<in> fst ` set waiting \<union> set running"
    and "\<And>k'. k' \<in> fmdom' (sv_dbs s) \<Longrightarrow> od_Database k' = od_Database k \<Longrightarrow> k' = k"
  shows "od_Database k' \<noteq> od_Database k"
proof
  assume same: "od_Database k' = od_Database k"
  have "count_list (map fst waiting) k' + count_list running k' \<noteq> 0" using assms(4) by (auto simp: count_list_0_iff)
  with assms(2) have "marked s k' > 0" unfolding held_back_def by (metis gr0I le_zero_eq)
  with assms(1) have "k' \<in> fmdom' (sv_dbs s)" "\<not> db_serving (stateLocked k' s)" by (auto simp: wf_marks_def)
  with assms(3,5) same show False by metis
qed

text \<open>The state after a grant; \<open>heard\<close> says whether the host was told.\<close>

lemma inv_replace:
  assumes "serve_inv c x" "le_id l \<notin> rn_used x" "le_renewed l = rn_clock x" "le_ttl l = cf_LeaseTTL c" "le_ended l = None"
    and unmarked: "\<And>k. k \<in> fst ` set (rn_waiting x) \<union> set (rn_running x) \<Longrightarrow> od_Database k \<noteq> le_database l"
    and grants: "grants = rn_grants x \<or> grants = (rn_grants x)(le_database l \<mapsto> (le_id l, rn_clock x + term_of c))"
    and on_file: "filed f (rn_clock x) grants" "named (rn_server x) f (rn_grants x) (insert (le_id l) (rn_used x))"
      "\<And>v rs r. f = Leases v rs \<Longrightarrow> r \<in> set rs \<Longrightarrow> lr_LeaseID r = le_id l \<Longrightarrow> lr_Database r = le_database l"
  shows "serve_inv c (x\<lparr>rn_server := replace_lease l (rn_server x), rn_file := f, rn_grants := grants, rn_used := insert (le_id l) (rn_used x)\<rparr>)"
proof -
  let ?s = "rn_server x" and ?s' = "replace_lease l (rn_server x)" and ?now = "rn_clock x"
  from assms(1) have inv: "wf_server ?s" "wf_marks ?s" "own_terms c ?s" "covered_by ?s ?now (rn_grants x)"
    "named ?s (rn_file x) (rn_grants x) (rn_used x)" "held_back ?s (rn_waiting x) (rn_running x)" "spent ?now (rn_grants x) (rn_running x)"
    "\<And>db lid u. rn_grants x db = Some (lid, u) \<Longrightarrow> u \<le> ?now + term_of c"
    unfolding serve_inv_def by blast+
  have new_id: "fmlookup (sv_byID ?s) (le_id l) = None"
    using inv(5) assms(2) unfolding named_def by (metis fmdom'_notI option.exhaust subsetD fmdom'I)
  note rep = replace_run [OF inv(1) new_id assms(5)]
  have bound: "u \<le> ?now + term_of c" if "grants db = Some (lid, u)" for db lid u
    using grants inv(8) that by (auto split: if_splits)
  have own: "own_terms c ?s'" unfolding own_terms_def using inv(3) assms(4) rep(3,6,8) by (auto simp: own_terms_def split: if_splits)
  have covered: "covered_by ?s' ?now grants"
    unfolding covered_by_def
  proof (intro allI impI)
    fix db lid u
    assume g: "grants db = Some (lid, u) \<and> ?now < u"
    show "\<exists>ref. fmlookup (sv_leases ?s') db = Some ref \<and> u \<le> whole (sv_heap ?s' ! ref)"
    proof (cases "db = le_database l")
      case True
      with rep(3,6) bound g assms(3,4) show ?thesis by (auto simp: whole_def)
    next
      case False
      with g grants have "rn_grants x db = Some (lid, u)" by (auto split: if_splits)
      with g inv(4) obtain ref where "fmlookup (sv_leases ?s) db = Some ref" "u \<le> whole (sv_heap ?s ! ref)" unfolding covered_by_def by blast
      with rep(3) rep(8) False show ?thesis by auto
    qed
  qed
  have named: "named ?s' f grants (insert (le_id l) (rn_used x))"
    unfolding named_def
  proof (intro conjI allI impI)
    show "fmdom' (sv_byID ?s') \<subseteq> insert (le_id l) (rn_used x)"
      using rep(4) inv(5) unfolding named_def by (auto simp: fmdom'_alt_def fmlookup_dom_iff) (metis fmdom'I fmdom'_alt_def subsetD)
    have "lid \<in> rn_used x" if "rn_grants x db = Some (lid, u)" for db lid u using inv(5) that unfolding named_def by blast
    then show "lid \<in> insert (le_id l) (rn_used x)" if "grants db = Some (lid, u)" for db lid u
      using grants that by (auto split: if_splits)
    show "lr_LeaseID r \<in> insert (le_id l) (rn_used x)" if "f = Leases v rs \<and> r \<in> set rs" for v rs r
      using on_file(2) that unfolding named_def by blast
    show "le_database (sv_heap ?s' ! ref) = db" if "grants db = Some (lid, u) \<and> fmlookup (sv_byID ?s') lid = Some ref" for db lid u ref
    proof (cases "lid = le_id l")
      case True
      have "rn_grants x db \<noteq> Some (lid, u)" using inv(5) assms(2) True unfolding named_def by blast
      moreover have "ref = length (sv_heap ?s)" using rep(4) [of lid ref] that True new_id by auto
      ultimately show ?thesis using grants that rep(6) by (auto split: if_splits)
    next
      case False
      with grants that have "rn_grants x db = Some (lid, u)" by (auto split: if_splits)
      moreover from False rep(4) that have id: "fmlookup (sv_byID ?s) lid = Some ref" by blast
      ultimately have "le_database (sv_heap ?s ! ref) = db" using inv(5) unfolding named_def by blast
      with rep(7) [of ref] wf_byID [OF inv(1) id] show ?thesis by (simp add: ages_def)
    qed
    show "lr_Database r = db" if "f = Leases v rs \<and> r \<in> set rs \<and> grants db = Some (lr_LeaseID r, u)" for db u v rs r
    proof (cases "lr_LeaseID r = le_id l")
      case True
      have "rn_grants x db \<noteq> Some (lr_LeaseID r, u)" using inv(5) assms(2) True unfolding named_def by metis
      with True grants that on_file(3) show ?thesis by (auto split: if_splits)
    next
      case False
      with grants that have "rn_grants x db = Some (lr_LeaseID r, u)" by (auto split: if_splits)
      with on_file(2) that show ?thesis unfolding named_def by blast
    qed
  qed
  have held: "held_back ?s' (rn_waiting x) (rn_running x)"
    unfolding held_back_def
  proof (intro conjI allI impI)
    show "count_list (map fst (rn_waiting x)) k + count_list (rn_running x) k \<le> marked ?s' k" for k
      using inv(6) rep(2) unfolding held_back_def marked_def by (simp add: stateLocked_def)
    show "le_revoked (sv_heap ?s' ! ref)" if "k \<in> fst ` set (rn_waiting x) \<union> set (rn_running x) \<and> fmlookup (sv_leases ?s') (od_Database k) = Some ref" for k ref
    proof -
      have "od_Database k \<noteq> le_database l" using that unmarked by blast
      with that rep(3) have "fmlookup (sv_leases ?s) (od_Database k) = Some ref" by simp
      moreover from this inv(6) that have "le_revoked (sv_heap ?s ! ref)" unfolding held_back_def by blast
      ultimately show ?thesis using rep(8) \<open>od_Database k \<noteq> le_database l\<close> by simp
    qed
    show "\<forall>(k, ref) \<in> set (rn_waiting x). ref < length (sv_heap ?s') \<and> (\<forall>ref'. fmlookup (sv_leases ?s') (od_Database k) = Some ref' \<longrightarrow> ref' = ref)"
    proof (intro ballI, clarify)
      fix k ref
      assume w: "(k, ref) \<in> set (rn_waiting x)"
      then have "od_Database k \<noteq> le_database l" by (intro unmarked) force
      with w inv(6) rep(3,5) show "ref < length (sv_heap ?s') \<and> (\<forall>ref'. fmlookup (sv_leases ?s') (od_Database k) = Some ref' \<longrightarrow> ref' = ref)"
        unfolding held_back_def by (metis (mono_tags, lifting) case_prodD less_Suc_eq)
    qed
  qed
  have "spent ?now grants (rn_running x)" using inv(7) grants unmarked unfolding spent_def by auto
  moreover have "wf_marks ?s'" using inv(2) rep(2) by (simp add: wf_marks_def marked_def stateLocked_def)
  ultimately show ?thesis unfolding serve_inv_def using rep(1) own covered named held bound on_file(1) by simp
qed

lemma inv_granted:
  assumes "serve_inv c x" "acquire c (rn_clock x) (Some lid) wo db snapshot (rn_server x) (rn_file x) = (Inr l, s, f)" "lid \<notin> rn_used x"
    and "grants = rn_grants x \<or> grants = (rn_grants x)(db \<mapsto> (lid, rn_clock x + term_of c))"
  shows "serve_inv c (x\<lparr>rn_server := s, rn_file := f, rn_grants := grants, rn_used := insert lid (rn_used x)\<rparr>)"
  using assms(2)
proof (cases rule: acquire_run)
  case (served k lid' l' old)
  let ?y = "x\<lparr>rn_server := sweepLocked (rn_clock x) (rn_server x)\<rparr>"
  have y: "serve_inv c ?y" by (rule inv_sweep [OF assms(1)])
  have l: "lid' = lid" "l' = l" "le_id l = lid" "le_database l = db" "le_renewed l = rn_clock x" "le_ttl l = cf_LeaseTTL c" "le_ended l = None"
    using served(5,7,8) by auto
  have run: "recordLeasesLocked wo (fmlookup (sv_leases (rn_server ?y)) db) (Some l) None 0 (rn_server ?y) (rn_file ?y) = (Inr (), f)"
    and s: "s = replace_lease l (rn_server ?y)"
    using served(6,8) l by (auto simp: replace_lease_def add_lease_def Let_def split: option.splits)
  have on_file: "filed f (rn_clock ?y) (rn_grants ?y) \<and> named (rn_server ?y) f (rn_grants ?y) (insert (le_id l) (rn_used ?y))"
    by (rule acquire_file [OF y run]) (use l assms(3) in auto)
  from run obtain rs where rs: "f = Leases leaseFileVersion rs" "set rs = lease_records (fmlookup (sv_leases (rn_server ?y)) db) (Some l) None 0 (rn_server ?y)"
    by (rule record_run) (auto intro: that)
  have "filed f (rn_clock ?y) grants"
    unfolding filed_def
  proof (intro allI impI)
    fix db' lid'' u
    assume g: "grants db' = Some (lid'', u) \<and> rn_clock ?y < u"
    show "\<exists>v rs r. f = Leases v rs \<and> r \<in> set rs \<and> lr_Database r = db' \<and> u \<le> record_end r"
    proof (cases "rn_grants x db' = Some (lid'', u)")
      case True
      with on_file g show ?thesis unfolding filed_def by auto
    next
      case False
      with assms(4) g have "db' = db" "u = rn_clock x + term_of c" by (auto split: if_splits)
      moreover have "leaseRecordOf l (le_renewed l) \<in> set rs" unfolding rs(2) lease_records_def by simp
      ultimately show ?thesis using rs(1) l(4-6)
        by (intro exI [of _ leaseFileVersion] exI [of _ rs] exI [of _ "leaseRecordOf l (le_renewed l)"]) simp
    qed
  qed
  moreover have "lr_Database r = le_database l" if "f = Leases v rs'" "r \<in> set rs'" "lr_LeaseID r = le_id l" for v rs' r
  proof -
    have "r \<in> lease_records (fmlookup (sv_leases (rn_server ?y)) db) (Some l) None 0 (rn_server ?y)" using that rs by auto
    then show ?thesis
    proof (cases "r = leaseRecordOf l (le_renewed l)")
      case False
      with \<open>r \<in> lease_records _ _ _ _ _\<close> obtain ref lid'' where "fmlookup (sv_byID (rn_server ?y)) lid'' = Some ref" "lr_LeaseID r = le_id (sv_heap (rn_server ?y) ! ref)"
        by (auto simp: lease_records_def)
      with y wf_byID [of "rn_server ?y" lid'' ref] that(3) have "fmlookup (sv_byID (rn_server ?y)) lid = Some ref" by (auto simp: serve_inv_def l)
      with y assms(3) show ?thesis unfolding serve_inv_def named_def by (auto simp: fmdom'_alt_def dest: fmdomI)
    qed simp
  qed
  moreover have "od_Database k' \<noteq> le_database l" if "k' \<in> fst ` set (rn_waiting ?y) \<union> set (rn_running ?y)" for k'
    using serving_unmarked [of "rn_server x" "rn_waiting x" "rn_running x" k k'] assms(1) served(2-4) that l(4) unfolding serve_inv_def by auto
  ultimately have "serve_inv c (?y\<lparr>rn_server := replace_lease l (rn_server ?y), rn_file := f, rn_grants := grants, rn_used := insert (le_id l) (rn_used ?y)\<rparr>)"
    using l assms(3,4) on_file by (intro inv_replace [OF y]) auto
  then show ?thesis using s l(3) by simp
qed simp

section \<open>Renewing and releasing\<close>

definition renew_lease :: "time \<Rightarrow> nat \<Rightarrow> Server \<Rightarrow> Server" where
  "renew_lease now ref s = s\<lparr>sv_heap := (sv_heap s)[ref := (sv_heap s ! ref)\<lparr>le_renewed := now\<rparr>]\<rparr>"

lemma renew_lease_run [simp]:
  "sv_leases (renew_lease now ref s) = sv_leases s" "sv_byID (renew_lease now ref s) = sv_byID s" "sv_dbs (renew_lease now ref s) = sv_dbs s"
  "length (sv_heap (renew_lease now ref s)) = length (sv_heap s)" "r \<noteq> ref \<Longrightarrow> sv_heap (renew_lease now ref s) ! r = sv_heap s ! r"
  "ref < length (sv_heap s) \<Longrightarrow> sv_heap (renew_lease now ref s) ! ref = (sv_heap s ! ref)\<lparr>le_renewed := now\<rparr>"
  by (simp_all add: renew_lease_def)

lemma renew_lease_keeps [simp]:
  assumes "ref < length (sv_heap s)"
  shows "le_id (sv_heap (renew_lease now ref s) ! r) = le_id (sv_heap s ! r)"
    "le_database (sv_heap (renew_lease now ref s) ! r) = le_database (sv_heap s ! r)"
    "le_revoked (sv_heap (renew_lease now ref s) ! r) = le_revoked (sv_heap s ! r)"
    "le_ended (sv_heap (renew_lease now ref s) ! r) = le_ended (sv_heap s ! r)"
    "le_ttl (sv_heap (renew_lease now ref s) ! r) = le_ttl (sv_heap s ! r)"
  using assms by (cases "r = ref"; simp)+

lemma renew_run:
  assumes "renew now wo lid s0 f0 = (res, s, f)"
  obtains (refused) e where "res = Inl e" "s = sweepLocked now s0" "f = f0"
  | (known) ref where "fmlookup (sv_byID (sweepLocked now s0)) lid = Some ref" "\<not> le_revoked (sv_heap (sweepLocked now s0) ! ref)"
      "recordLeasesLocked wo None None (Some ref) now (sweepLocked now s0) f0 = (res, f)"
      "s = (if isl res then sweepLocked now s0 else renew_lease now ref (sweepLocked now s0))"
proof (cases "fmlookup (sv_byID (sweepLocked now s0)) lid")
  case None
  with assms refused show thesis by (auto simp: renew_def Let_def)
next
  case (Some ref)
  show thesis
  proof (cases "le_revoked (sv_heap (sweepLocked now s0) ! ref)")
    case True
    with assms Some refused show thesis by (auto simp: renew_def Let_def)
  next
    case False
    obtain res' f' where r: "recordLeasesLocked wo None None (Some ref) now (sweepLocked now s0) f0 = (res', f')" by fastforce
    with assms Some False known show thesis by (cases res') (auto simp: renew_def Let_def renew_lease_def)
  qed
qed

lemma records_renewed:
  assumes "ref < length (sv_heap s)"
  shows "lease_records dropped added (Some ref) now s = lease_records dropped added None 0 (renew_lease now ref s)"
proof -
  have "leaseRecordOf (sv_heap s ! r) (if Some ref = Some r then now else le_renewed (sv_heap s ! r)) =
    leaseRecordOf (sv_heap (renew_lease now ref s) ! r) (le_renewed (sv_heap (renew_lease now ref s) ! r))" for r
    using assms by (cases "r = ref") (simp_all add: leaseRecordOf_def)
  then show ?thesis by (simp add: lease_records_def)
qed

lemma wf_renew:
  assumes "wf_server s" "ref < length (sv_heap s)"
  shows "wf_server (renew_lease now ref s)"
  using assms by (intro wf_serverI) (auto dest: wf_byID wf_leases wf_open)


lemma named_held:
  assumes "named s f grants used" "\<And>db lid u. grants' db = Some (lid, u) \<Longrightarrow> \<exists>u. grants db = Some (lid, u)"
  shows "named s f grants' used"
proof -
  have "\<forall>db lid u. grants' db = Some (lid, u) \<longrightarrow> (\<exists>u. grants db = Some (lid, u))" using assms(2) by blast
  with assms(1) show ?thesis unfolding named_def by (elim conjE, intro conjI allI impI) metis+
qed

lemma inv_renew_lease:
  assumes "serve_inv c x" "fmlookup (sv_byID (rn_server x)) lid = Some ref" "\<not> le_revoked (sv_heap (rn_server x) ! ref)"
    and "set rs = lease_records None None (Some ref) (rn_clock x) (rn_server x)"
    and "grants = rn_grants x \<or> (\<exists>db u. rn_grants x db = Some (lid, u) \<and> grants = (rn_grants x)(db \<mapsto> (lid, rn_clock x + term_of c)))"
  shows "serve_inv c (x\<lparr>rn_server := renew_lease (rn_clock x) ref (rn_server x), rn_file := Leases v rs, rn_grants := grants\<rparr>)"
proof -
  let ?s = "rn_server x" and ?s' = "renew_lease (rn_clock x) ref (rn_server x)" and ?now = "rn_clock x"
  from assms(1) have inv: "wf_server ?s" "wf_marks ?s" "own_terms c ?s" "covered_by ?s ?now (rn_grants x)"
    "named ?s (rn_file x) (rn_grants x) (rn_used x)" "held_back ?s (rn_waiting x) (rn_running x)" "spent ?now (rn_grants x) (rn_running x)"
    "\<And>db lid u. rn_grants x db = Some (lid, u) \<Longrightarrow> u \<le> ?now + term_of c"
    unfolding serve_inv_def by blast+
  note r = wf_byID [OF inv(1) assms(2)]
  then have len: "ref < length (sv_heap ?s)" by blast
  from inv(3) r assms(3) have ttl: "le_ttl (sv_heap ?s ! ref) = cf_LeaseTTL c" unfolding own_terms_def by blast
  have grants: "rn_grants x db = Some (lid', u) \<or> db = le_database (sv_heap ?s ! ref) \<and> lid' = lid \<and> u = ?now + term_of c \<and> rn_grants x db \<noteq> None"
    if "grants db = Some (lid', u)" for db lid' u
    using assms(2,5) inv(5) that unfolding named_def by (auto split: if_splits)
  have bound: "u \<le> ?now + term_of c" if "grants db = Some (lid', u)" for db lid' u
    using grants [OF that] inv(8) by blast
  have wf: "wf_server ?s'" by (rule wf_renew [OF inv(1) len])
  have own: "own_terms c ?s'" using inv(3) len by (simp add: own_terms_def)
  have covered: "covered_by ?s' ?now grants"
    unfolding covered_by_def
  proof (intro allI impI)
    fix db lid' u
    assume g: "grants db = Some (lid', u) \<and> ?now < u"
    show "\<exists>ref. fmlookup (sv_leases ?s') db = Some ref \<and> u \<le> whole (sv_heap ?s' ! ref)"
    proof (cases "db = le_database (sv_heap ?s ! ref)")
      case True
      with r len bound g ttl show ?thesis by (auto simp: whole_def)
    next
      case False
      with g grants have "rn_grants x db = Some (lid', u)" by blast
      with g inv(4) obtain ref' where ref': "fmlookup (sv_leases ?s) db = Some ref'" "u \<le> whole (sv_heap ?s ! ref')" unfolding covered_by_def by blast
      with False wf_leases [OF inv(1) ref'(1)] have "ref' \<noteq> ref" by blast
      with ref' show ?thesis by auto
    qed
  qed
  have used: "\<exists>u. rn_grants x db = Some (lid', u)" if "grants db = Some (lid', u)" for db lid' u
    using assms(5) that by (auto split: if_splits)
  have "named ?s (rn_file x) grants (rn_used x)" by (rule named_held [OF inv(5)]) (rule used)
  then have named: "named ?s' (rn_file x) grants (rn_used x)"
    unfolding named_def renew_lease_run renew_lease_keeps [OF len] .
  have records: "set rs = lease_records None None None 0 ?s'" using assms(4) records_renewed [OF len] by simp
  have "filed (Leases v rs) ?now grants" by (rule filed_written [OF wf covered bound records]) auto
  moreover have "named ?s' (Leases v rs) grants (rn_used x)" by (rule named_written [OF wf named records]) auto
  moreover have "held_back ?s' (rn_waiting x) (rn_running x)" using inv(6) len by (simp add: held_back_def marked_def stateLocked_def)
  moreover have "od_Database k \<noteq> le_database (sv_heap ?s ! ref)" if "k \<in> set (rn_running x)" for k
    using inv(6) r assms(3) that unfolding held_back_def by (metis UnCI)
  then have "spent ?now grants (rn_running x)" using inv(7) grants unfolding spent_def by blast
  moreover have "wf_marks ?s'" using inv(2) by (simp add: wf_marks_def marked_def stateLocked_def)
  ultimately show ?thesis unfolding serve_inv_def using wf own covered bound by simp
qed

lemma inv_renewed:
  assumes "serve_inv c x" "renew (rn_clock x) wo lid (rn_server x) (rn_file x) = (res, s, f)"
    and "grants = rn_grants x \<or> (\<exists>db u. res = Inr () \<and> rn_grants x db = Some (lid, u) \<and> grants = (rn_grants x)(db \<mapsto> (lid, rn_clock x + term_of c)))"
  shows "serve_inv c (x\<lparr>rn_server := s, rn_file := f, rn_grants := grants\<rparr>)"
  using assms(2)
proof (cases rule: renew_run)
  case (refused e)
  with inv_sweep [OF assms(1)] assms(3) show ?thesis by (cases x) auto
next
  case (known ref)
  let ?y = "x\<lparr>rn_server := sweepLocked (rn_clock x) (rn_server x)\<rparr>"
  have y: "serve_inv c ?y" by (rule inv_sweep [OF assms(1)])
  from known(3) show ?thesis
  proof (cases rule: record_run)
    case unwritten
    with y known(4) assms(3) show ?thesis by (cases x) auto
  next
    case (written rs)
    show ?thesis
    proof (cases res)
      case (Inl e)
      from y have inv: "wf_server (rn_server ?y)" "covered_by (rn_server ?y) (rn_clock ?y) (rn_grants ?y)"
        "\<And>db lid u. rn_grants ?y db = Some (lid, u) \<Longrightarrow> u \<le> rn_clock ?y + term_of c" "named (rn_server ?y) (rn_file ?y) (rn_grants ?y) (rn_used ?y)"
        "own_terms c (rn_server ?y)"
        unfolding serve_inv_def by blast+
      have "le_ttl (sv_heap (rn_server ?y) ! ref) = cf_LeaseTTL c"
        using inv(5) wf_byID [OF inv(1), of lid ref] known(1,2) unfolding own_terms_def by auto
      then have "filed f (rn_clock ?y) (rn_grants ?y)" unfolding written(1)
        by (intro filed_written [OF inv(1-3)]) (use written(2) in auto)
      moreover have "named (rn_server ?y) f (rn_grants ?y) (rn_used ?y)" unfolding written(1)
        by (rule named_written [OF inv(1,4)]) (use written(2) in auto)
      ultimately have "serve_inv c (?y\<lparr>rn_file := f\<rparr>)" by (rule inv_file [OF y])
      with Inl known(4) assms(3) show ?thesis by auto
    next
      case (Inr a)
      have "serve_inv c (?y\<lparr>rn_server := renew_lease (rn_clock ?y) ref (rn_server ?y), rn_file := Leases leaseFileVersion rs, rn_grants := grants\<rparr>)"
        by (rule inv_renew_lease [OF y]) (use known(1,2) written(2) assms(3) in auto)
      with Inr known(4) written(1) show ?thesis by simp
    qed
  qed
qed


lemma inv_forgotten:
  assumes "serve_inv c x"
  shows "serve_inv c (x\<lparr>rn_grants := (rn_grants x)(db := None)\<rparr>)"
proof -
  let ?g = "(rn_grants x)(db := None)"
  have sub: "rn_grants x db' = Some g" if "?g db' = Some g" for db' g using that by (simp split: if_splits)
  have "named (rn_server x) (rn_file x) ?g (rn_used x)"
  proof (rule named_held)
    show "named (rn_server x) (rn_file x) (rn_grants x) (rn_used x)" using assms by (simp add: serve_inv_def)
  qed (use sub in blast)
  moreover have "covered_by (rn_server x) (rn_clock x) ?g" "filed (rn_file x) (rn_clock x) ?g" "spent (rn_clock x) ?g (rn_running x)"
    "\<forall>db lid u. ?g db = Some (lid, u) \<longrightarrow> u \<le> rn_clock x + term_of c"
    using assms sub unfolding serve_inv_def covered_by_def filed_def spent_def by meson+
  ultimately show ?thesis using assms unfolding serve_inv_def by simp
qed

lemma inv_end:
  assumes "serve_inv c x" "fmlookup (sv_byID (rn_server x)) lid = Some ref" "rn_grants x (le_database (sv_heap (rn_server x) ! ref)) = None"
  shows "serve_inv c (x\<lparr>rn_server := endLocked ref outcome (rn_server x)\<rparr>)"
proof -
  let ?s = "rn_server x" and ?s' = "endLocked ref outcome (rn_server x)" and ?db = "le_database (sv_heap (rn_server x) ! ref)"
  from assms(1) have inv: "wf_server ?s" "wf_marks ?s" "own_terms c ?s" "covered_by ?s (rn_clock x) (rn_grants x)"
    "named ?s (rn_file x) (rn_grants x) (rn_used x)" "held_back ?s (rn_waiting x) (rn_running x)"
    unfolding serve_inv_def by blast+
  note e = end_run [OF inv(1) assms(2), of outcome]
  have gone: "fmlookup (sv_leases ?s') db = (if db = ?db then None else fmlookup (sv_leases ?s) db)" for db unfolding e by simp
  have open_: "fmlookup (sv_byID ?s) lid' = Some ref'" "ref' \<noteq> ref" if "fmlookup (sv_byID ?s') lid' = Some ref'" for lid' ref'
    using that wf_byID [OF inv(1), of lid' ref'] wf_byID [OF inv(1) assms(2)] unfolding e by (auto split: if_splits)
  have same: "sv_heap ?s' ! ref' = sv_heap ?s ! ref'" if "ref' \<noteq> ref" for ref' using that unfolding e by simp
  have other: "ref' \<noteq> ref" if "fmlookup (sv_leases ?s') db = Some ref'" for db ref'
    using that gone wf_leases [OF inv(1), of db ref'] by (auto split: if_splits)
  have kept: "fmlookup (sv_leases ?s) db = Some ref' \<and> sv_heap ?s' ! ref' = sv_heap ?s ! ref'" if "fmlookup (sv_leases ?s') db = Some ref'" for db ref'
    using that gone same [OF other [OF that]] by (simp split: if_splits)
  have own: "own_terms c ?s'" using inv(3) kept unfolding own_terms_def by metis
  have covered: "covered_by ?s' (rn_clock x) (rn_grants x)"
    unfolding covered_by_def
  proof (intro allI impI)
    fix db lid' u
    assume g: "rn_grants x db = Some (lid', u) \<and> rn_clock x < u"
    with inv(4) obtain ref' where "fmlookup (sv_leases ?s) db = Some ref'" "u \<le> whole (sv_heap ?s ! ref')" unfolding covered_by_def by blast
    moreover have "fmlookup (sv_leases ?s') db = fmlookup (sv_leases ?s) db" using g assms(3) gone by auto
    ultimately show "\<exists>ref. fmlookup (sv_leases ?s') db = Some ref \<and> u \<le> whole (sv_heap ?s' ! ref)" using kept by metis
  qed
  have "fmdom' (sv_byID ?s') \<subseteq> fmdom' (sv_byID ?s)" unfolding e by auto
  moreover have "le_database (sv_heap ?s' ! ref') = db" if "rn_grants x db = Some (lid', u) \<and> fmlookup (sv_byID ?s') lid' = Some ref'" for db lid' u ref'
    using that open_ [of lid' ref'] same [of ref'] inv(5) unfolding named_def by auto
  ultimately have "named ?s' (rn_file x) (rn_grants x) (rn_used x)"
    using inv(5) unfolding named_def by blast
  moreover have "held_back ?s' (rn_waiting x) (rn_running x)"
    unfolding held_back_def
  proof (intro conjI allI impI)
    show "count_list (map fst (rn_waiting x)) k + count_list (rn_running x) k \<le> marked ?s' k" for k
      using inv(6) unfolding held_back_def marked_def stateLocked_cong [OF dbs_end(1)] by blast
    show "le_revoked (sv_heap ?s' ! ref')"
      if "k \<in> fst ` set (rn_waiting x) \<union> set (rn_running x) \<and> fmlookup (sv_leases ?s') (od_Database k) = Some ref'" for k ref'
      using that kept [of "od_Database k" ref'] inv(6) unfolding held_back_def by metis
    have "length (sv_heap ?s') = length (sv_heap ?s)" unfolding e by simp
    then show "\<forall>(k, ref) \<in> set (rn_waiting x). ref < length (sv_heap ?s') \<and> (\<forall>ref'. fmlookup (sv_leases ?s') (od_Database k) = Some ref' \<longrightarrow> ref' = ref)"
      using inv(6) kept unfolding held_back_def by fastforce
  qed
  moreover have "wf_marks ?s'" using inv(2) by (simp add: wf_marks_def marked_def stateLocked_def)
  ultimately show ?thesis using assms(1) wf_end [OF inv(1) assms(2)] own covered unfolding serve_inv_def by simp
qed

lemma inv_recorded:
  assumes "serve_inv c x" "recordLeasesLocked wo None None None 0 (rn_server x) (rn_file x) = (res, f)"
  shows "serve_inv c (x\<lparr>rn_file := f\<rparr>)"
  using assms(2)
proof (cases rule: record_run)
  case (written rs)
  from assms(1) have inv: "wf_server (rn_server x)" "covered_by (rn_server x) (rn_clock x) (rn_grants x)"
    "\<And>db lid u. rn_grants x db = Some (lid, u) \<Longrightarrow> u \<le> rn_clock x + term_of c" "named (rn_server x) (rn_file x) (rn_grants x) (rn_used x)"
    unfolding serve_inv_def by blast+
  show ?thesis unfolding written(1)
    by (intro inv_file [OF assms(1)] filed_written [OF inv(1-3) written(2)] named_written [OF inv(1,4) written(2)]) auto
qed (use assms(1) in simp)

lemma inv_released:
  assumes "serve_inv c x" "release (rn_clock x) wo lid (rn_server x) (rn_file x) = (s, f)" "rn_grants x db = Some (lid, u)"
  shows "serve_inv c (x\<lparr>rn_server := s, rn_file := f, rn_grants := (rn_grants x)(db := None)\<rparr>)"
proof -
  let ?y = "x\<lparr>rn_grants := (rn_grants x)(db := None)\<rparr>"
  have y: "serve_inv c ?y" by (rule inv_forgotten [OF assms(1)])
  show ?thesis
  proof (cases "fmlookup (sv_byID (rn_server x)) lid")
    case None
    with assms(2) have "s = sweepLocked (rn_clock x) (rn_server x)" "f = rn_file x" by (simp_all add: release_def)
    with inv_sweep [OF y] show ?thesis by (cases x) simp
  next
    case (Some ref)
    with assms(1,3) have "le_database (sv_heap (rn_server x) ! ref) = db" unfolding serve_inv_def named_def by blast
    then have "serve_inv c (?y\<lparr>rn_server := endLocked ref waitReleased (rn_server ?y)\<rparr>)"
      by (intro inv_end [OF y]) (use Some in simp_all)
    from inv_sweep [OF this] have z: "serve_inv c (?y\<lparr>rn_server := s\<rparr>)" using assms(2) Some by (simp add: release_def Let_def)
    have "f = snd (recordLeasesLocked wo None None None 0 s (rn_file x))" using assms(2) Some by (auto simp: release_def Let_def)
    with inv_recorded [OF z, of wo "fst (recordLeasesLocked wo None None None 0 s (rn_file x))" f] show ?thesis by (cases x) simp
  qed
qed


end
