(* ===== verification/Governance.thy ===== *)
theory Governance
  imports Params LtHash
begin

text \<open>
  The normal form of a consensus-parameter update (\<open>authority/consensus.go\<close>): what every voter
  recomputes before it hashes a command, so two encodings of one update must have one normal form.
  \<open>hex.DecodeString\<close> and \<open>strings.ToLower\<close> are the standard library's; \<open>ToLower\<close> is modelled on bytes,
  which agrees on every string these rules accept (a rune outside ASCII never lowercases to a hex digit
  or to \<open>x\<close>).
\<close>

section \<open>Errors\<close>

datatype normalize_error =
    ErrUpdateIdentity | ErrMaxWriters | ErrCapability | ErrNoAuthority
  | ErrAddressForm string | ErrAddressHex string | ErrAddressZero
  | ErrParam param_error
  | ErrDuplicateIndexer u64 | ErrNodeTwice string | ErrMaxWritersBelow
  | ErrStage3NeedsTracks | ErrDomainUnenrolled u64 | ErrDomainMissing u64
  | ErrPoolFields string | ErrReplicaSigner string | ErrConsent string | ErrWeight string
  | ErrMemberDomain string | ErrMemberRole string | ErrCountsReplicate string | ErrSharedRMT string
  | ErrDuplicateVerifier string | ErrKeyReused string | ErrSignerReused string
  | ErrHostUnenrolled string | ErrNodeIsSNode string | ErrMemberNeedsStage3 string | ErrDomainDiffers string

section \<open>Addresses\<close>

definition normalizeAddress :: "string \<Rightarrow> (normalize_error, string) result" where
  "normalizeAddress address =
     (if length address \<noteq> 42 \<or> ToLower (take 2 address) \<noteq> ''0x'' then Inl (ErrAddressForm address)
      else case hex_DecodeString (drop 2 address) of
             None \<Rightarrow> Inl (ErrAddressHex address)
           | Some decoded \<Rightarrow> if \<not> list_ex (\<lambda>b. b \<noteq> NUL) decoded then Inl ErrAddressZero else Inr (ToLower address))"

definition normalizeSignerAddress :: "string \<Rightarrow> (normalize_error, string) result" where
  "normalizeSignerAddress signer =
     (let s = ToLower signer in
      if length s \<noteq> 42 \<or> \<not> HasPrefix s ''0x'' then Inl (ErrAddressForm signer)
      else case hex_DecodeString (drop 2 s) of
             None \<Rightarrow> Inl (ErrAddressHex signer)
           | Some b \<Rightarrow> if \<not> list_ex (\<lambda>x. x \<noteq> NUL) b then Inl (ErrAddressHex signer) else Inr s)"

section \<open>Indexers\<close>

definition normalizeIndexer :: "SIIndexerEntry \<Rightarrow> (normalize_error, SIIndexerEntry) result" where
  "normalizeIndexer e =
     (let e' = e\<lparr>si_Signer := ToLower (si_Signer e)\<rparr> in
      rbind (rmap_error ErrParam (SIIndexerEntry_Validate e')) (\<lambda>_. Inr e'))"

fun indexerLoop :: "u64 option \<Rightarrow> string list \<Rightarrow> SIIndexerEntry list \<Rightarrow> (normalize_error, unit) result" where
  "indexerLoop prev nodes [] = Inr ()"
| "indexerLoop prev nodes (e # es) =
     (if prev = Some (si_IndexerID e) then Inl (ErrDuplicateIndexer (si_IndexerID e))
      else if si_SNodeNodeID e \<in> set nodes then Inl (ErrNodeTwice (si_SNodeNodeID e))
      else indexerLoop (Some (si_IndexerID e)) (si_SNodeNodeID e # nodes) es)"

definition normalizeSIIndexers :: "SIIndexerEntry list \<Rightarrow> u64 \<Rightarrow> (normalize_error, SIIndexerEntry list) result" where
  "normalizeSIIndexers es maxWriters =
     (if es = [] then Inr []
      else rbind (each normalizeIndexer es) (\<lambda>converted.
        let out = sort_key si_IndexerID converted in
        rbind (indexerLoop None [] out) (\<lambda>_.
        if unat maxWriters < length out then Inl ErrMaxWritersBelow else Inr out)))"

section \<open>The stage-3 parameter\<close>

definition canonStage3 :: "Stage3Params \<Rightarrow> Stage3Params" where
  "canonStage3 p = p\<lparr>s3_IndexerFailureDomains := sort_key fd_IndexerID (s3_IndexerFailureDomains p)\<rparr>"

definition normalizeStage3 ::
    "Stage3Params option \<Rightarrow> bool \<Rightarrow> SIIndexerEntry list \<Rightarrow> (normalize_error, Stage3Params option) result" where
  "normalizeStage3 inp tracksEnabled siIndexers =
     (case inp of
        None \<Rightarrow> Inr None
      | Some p0 \<Rightarrow>
          (let p = canonStage3 p0; enrolled = map si_IndexerID siIndexers in
           rbind (rmap_error ErrParam (Stage3Params_Validate p)) (\<lambda>_.
           if \<not> tracksEnabled then Inl ErrStage3NeedsTracks
           else case find (\<lambda>d. fd_IndexerID d \<notin> set enrolled) (s3_IndexerFailureDomains p) of
                  Some d \<Rightarrow> Inl (ErrDomainUnenrolled (fd_IndexerID d))
                | None \<Rightarrow>
                    (case (if s3_Placement p then find (\<lambda>e. FailureDomain p (si_IndexerID e) = None) siIndexers else None) of
                       Some e \<Rightarrow> Inl (ErrDomainMissing (si_IndexerID e))
                     | None \<Rightarrow> Inr (Some p)))))"

section \<open>Verifiers\<close>

definition cloneVerifierEntry :: "VerifierEntry \<Rightarrow> VerifierEntry" where
  "cloneVerifierEntry v = v\<lparr>ve_ReplicaSigner := ToLower (ve_ReplicaSigner v)\<rparr>"

definition validFailureDomain :: "string \<Rightarrow> bool" where
  "validFailureDomain d \<longleftrightarrow> d \<noteq> [] \<and> list_all (\<lambda>r. \<not> (IsSpace r \<or> IsControl r)) (runes d)"

definition validateVerifierStage3Fields :: "VerifierEntry \<Rightarrow> (normalize_error, unit) result" where
  "validateVerifierStage3Fields e =
     (if \<not> IsMember e
      then if ve_ReplicaSigner e \<noteq> [] \<or> ve_ConsentJWS e \<noteq> [] \<or> ve_Weight e \<noteq> 0 \<or> ve_FailureDomain e \<noteq> [] \<or>
              ve_Verify e \<or> ve_Replicate e \<or> ve_Counts e \<or> ve_SharedRMT e
           then Inl (ErrPoolFields (ve_NodeID e)) else Inr ()
      else if \<not> is_ok (normalizeSignerAddress (ve_ReplicaSigner e)) then Inl (ErrReplicaSigner (ve_NodeID e))
      else if blank (ve_ConsentJWS e) then Inl (ErrConsent (ve_NodeID e))
      else if ve_Weight e < 1 \<or> ve_Weight e > 64 then Inl (ErrWeight (ve_NodeID e))
      else if \<not> validFailureDomain (ve_FailureDomain e) then Inl (ErrMemberDomain (ve_NodeID e))
      else if \<not> ve_Verify e \<and> \<not> ve_Replicate e then Inl (ErrMemberRole (ve_NodeID e))
      else if ve_Counts e \<and> \<not> ve_Replicate e then Inl (ErrCountsReplicate (ve_NodeID e))
      else if ve_Verify e \<and> \<not> ve_SharedRMT e then Inl (ErrSharedRMT (ve_NodeID e))
      else Inr ())"

definition normalizeVerifier :: "VerifierEntry \<Rightarrow> (normalize_error, VerifierEntry) result" where
  "normalizeVerifier v =
     rbind (rmap_error ErrParam (VerifierEntry_Validate v)) (\<lambda>_.
     let e = cloneVerifierEntry v in
     rbind (validateVerifierStage3Fields e) (\<lambda>_. Inr e))"

fun verifierLoop :: "string option \<Rightarrow> bytes list \<Rightarrow> string list \<Rightarrow> VerifierEntry list \<Rightarrow> (normalize_error, unit) result" where
  "verifierLoop prev keys signers [] = Inr ()"
| "verifierLoop prev keys signers (v # vs) =
     (if prev = Some (ve_NodeID v) then Inl (ErrDuplicateVerifier (ve_NodeID v))
      else if ve_Ed25519Pubkey v \<in> set keys then Inl (ErrKeyReused (ve_NodeID v))
      else if IsMember v \<and> ve_ReplicaSigner v \<in> set signers then Inl (ErrSignerReused (ve_NodeID v))
      else verifierLoop (Some (ve_NodeID v)) (ve_Ed25519Pubkey v # keys)
             (if IsMember v then ve_ReplicaSigner v # signers else signers) vs)"

definition checkMember :: "SIIndexerEntry list \<Rightarrow> Stage3Params option \<Rightarrow> VerifierEntry \<Rightarrow> (normalize_error, unit) result" where
  "checkMember siIndexers stage3 v =
     (case ve_HostIndexerID v of
        None \<Rightarrow> Inr ()
      | Some host \<Rightarrow>
          (if host \<notin> set (map si_IndexerID siIndexers) then Inl (ErrHostUnenrolled (ve_NodeID v))
           else if ve_NodeID v \<in> set (map si_SNodeNodeID siIndexers) then Inl (ErrNodeIsSNode (ve_NodeID v))
           else case stage3 of
                  None \<Rightarrow> Inl (ErrMemberNeedsStage3 (ve_NodeID v))
                | Some p \<Rightarrow>
                    (if (case FailureDomain p host of Some d \<Rightarrow> d | None \<Rightarrow> []) \<noteq> ve_FailureDomain v
                     then Inl (ErrDomainDiffers (ve_NodeID v)) else Inr ())))"

definition normalizeVerifiers ::
    "VerifierEntry list \<Rightarrow> SIIndexerEntry list \<Rightarrow> Stage3Params option \<Rightarrow> (normalize_error, VerifierEntry list) result" where
  "normalizeVerifiers vs siIndexers stage3 =
     (if vs = [] then Inr []
      else rbind (each normalizeVerifier vs) (\<lambda>converted.
        let out = sort_key ve_NodeID converted in
        rbind (verifierLoop None [] [] out) (\<lambda>_.
        rbind (each (checkMember siIndexers stage3) out) (\<lambda>_. Inr out))))"

section \<open>The update\<close>

definition normalizeRegistry :: "TableRegistryParams \<Rightarrow> (normalize_error, TableRegistryParams) result" where
  "normalizeRegistry p =
     (let q = p\<lparr>tr_DatabasesContract := ToLower (tr_DatabasesContract p)\<rparr> in
      rbind (rmap_error ErrParam (TableRegistryParams_Validate q)) (\<lambda>_. Inr q))"

definition optionally :: "('a \<Rightarrow> ('e, 'b) result) \<Rightarrow> 'a option \<Rightarrow> ('e, 'b option) result" where
  "optionally f x = (case x of None \<Rightarrow> Inr None | Some a \<Rightarrow> rbind (f a) (\<lambda>b. Inr (Some b)))"

definition NormalizeConsensusParamsUpdate ::
    "ConsensusParamsUpdate \<Rightarrow> (normalize_error, ConsensusParamsUpdate) result" where
  "NormalizeConsensusParamsUpdate cmd =
     (if blank (up_NetworkID cmd) \<or> blank (up_GenesisSnapshotID cmd) \<or> blank (up_PreviousParamsDigest cmd)
      then Inl ErrUpdateIdentity
      else if up_MaxWriters cmd = 0 then Inl ErrMaxWriters
      else if up_ArtifactDispositionCapability cmd > 1 then Inl ErrCapability
      else if up_AuthorityAddresses cmd = [] then Inl ErrNoAuthority
      else rbind (each normalizeAddress (up_AuthorityAddresses cmd)) (\<lambda>addresses.
        rbind (optionally normalizeRegistry (up_TableRegistry cmd)) (\<lambda>registry.
        rbind (optionally (\<lambda>l. rbind (rmap_error ErrParam (ClientLaneParams_Validate l)) (\<lambda>_. Inr l)) (up_ClientLanes cmd))
          (\<lambda>lanes.
        rbind (normalizeSIIndexers (up_SIIndexers cmd) (up_MaxWriters cmd)) (\<lambda>siIndexers.
        rbind (normalizeStage3 (up_Stage3 cmd) (up_TracksEnabled cmd) siIndexers) (\<lambda>stage3.
        rbind (normalizeVerifiers (up_Verifiers cmd) siIndexers stage3) (\<lambda>verifiers.
        Inr (cmd\<lparr>up_AuthorityAddresses := Compact (sort addresses), up_TableRegistry := registry,
                 up_ClientLanes := lanes, up_SIIndexers := siIndexers, up_Verifiers := verifiers,
                 up_Stage3 := stage3\<rparr>))))))))"

section \<open>The normal form as a function\<close>

text \<open>What the normal form keeps of an update, and when there is one.\<close>

definition canonRegistry :: "TableRegistryParams \<Rightarrow> TableRegistryParams" where
  "canonRegistry p = p\<lparr>tr_DatabasesContract := ToLower (tr_DatabasesContract p)\<rparr>"

definition canonIndexer :: "SIIndexerEntry \<Rightarrow> SIIndexerEntry" where
  "canonIndexer e = e\<lparr>si_Signer := ToLower (si_Signer e)\<rparr>"

definition canonical :: "ConsensusParamsUpdate \<Rightarrow> ConsensusParamsUpdate" where
  "canonical u =
     u\<lparr>up_AuthorityAddresses := sorted_list_of_set (ToLower ` set (up_AuthorityAddresses u)),
       up_TableRegistry := map_option canonRegistry (up_TableRegistry u),
       up_SIIndexers := sort_key si_IndexerID (map canonIndexer (up_SIIndexers u)),
       up_Verifiers := sort_key ve_NodeID (map cloneVerifierEntry (up_Verifiers u)),
       up_Stage3 := map_option canonStage3 (up_Stage3 u)\<rparr>"

definition valid_indexers :: "SIIndexerEntry list \<Rightarrow> u64 \<Rightarrow> bool" where
  "valid_indexers es m \<longleftrightarrow>
     (\<forall>e \<in> set es. is_ok (SIIndexerEntry_Validate (canonIndexer e))) \<and>
     distinct (map si_IndexerID es) \<and> distinct (map si_SNodeNodeID es) \<and> length es \<le> unat m"

definition valid_stage3 :: "Stage3Params \<Rightarrow> bool \<Rightarrow> u64 set \<Rightarrow> bool" where
  "valid_stage3 p tracks ids \<longleftrightarrow>
     is_ok (Stage3Params_Validate (canonStage3 p)) \<and> tracks \<and>
     fd_IndexerID ` set (s3_IndexerFailureDomains p) \<subseteq> ids \<and>
     (s3_Placement p \<longrightarrow> ids \<subseteq> fd_IndexerID ` set (s3_IndexerFailureDomains p))"

definition valid_verifiers :: "VerifierEntry list \<Rightarrow> SIIndexerEntry list \<Rightarrow> Stage3Params option \<Rightarrow> bool" where
  "valid_verifiers vs es stage3 \<longleftrightarrow>
     (let cs = map cloneVerifierEntry vs in
      (\<forall>v \<in> set cs. is_ok (VerifierEntry_Validate v) \<and> is_ok (validateVerifierStage3Fields v) \<and>
         is_ok (checkMember es stage3 v)) \<and>
      distinct (map ve_NodeID cs) \<and> distinct (map ve_Ed25519Pubkey cs) \<and>
      distinct (map ve_ReplicaSigner (filter IsMember cs)))"

definition valid_update :: "ConsensusParamsUpdate \<Rightarrow> bool" where
  "valid_update u \<longleftrightarrow>
     \<not> blank (up_NetworkID u) \<and> \<not> blank (up_GenesisSnapshotID u) \<and> \<not> blank (up_PreviousParamsDigest u) \<and>
     up_MaxWriters u \<noteq> 0 \<and> up_ArtifactDispositionCapability u \<le> 1 \<and>
     ToLower ` set (up_AuthorityAddresses u) \<noteq> {} \<and>
     (\<forall>a \<in> ToLower ` set (up_AuthorityAddresses u). is_ok (normalizeAddress a)) \<and>
     pred_option (\<lambda>p. is_ok (TableRegistryParams_Validate p)) (map_option canonRegistry (up_TableRegistry u)) \<and>
     pred_option (\<lambda>l. is_ok (ClientLaneParams_Validate l)) (up_ClientLanes u) \<and>
     valid_indexers (up_SIIndexers u) (up_MaxWriters u) \<and>
     pred_option (\<lambda>p. valid_stage3 p (up_TracksEnabled u) (si_IndexerID ` set (up_SIIndexers u))) (up_Stage3 u) \<and>
     valid_verifiers (up_Verifiers u) (up_SIIndexers u) (up_Stage3 u)"

subsection \<open>Lower case\<close>

lemma lower_char_idem [simp]: "lower_char (lower_char c) = lower_char c"
  by (simp add: lower_char_def Let_def)

lemma ToLower_idem [simp]: "ToLower (ToLower s) = ToLower s"
  by (simp add: ToLower_def)

lemma ToLower_simps [simp]:
  "length (ToLower s) = length s" "ToLower (take n s) = take n (ToLower s)" "ToLower (drop n s) = drop n (ToLower s)"
  "ToLower s = [] \<longleftrightarrow> s = []"
  by (simp_all add: ToLower_def take_map drop_map)

lemma hexval_lower [simp]: "hexval (lower_char c) = hexval c"
  by (auto simp: hexval_def lower_char_def Let_def)

lemma hex_DecodeString_lower [simp]: "hex_DecodeString (ToLower s) = hex_DecodeString s"
  by (induction s rule: hex_DecodeString.induct) (auto simp: ToLower_def split: option.splits)

lemma hex_DecodeString_drop_lower [simp]: "hex_DecodeString (drop n (ToLower s)) = hex_DecodeString (drop n s)"
  by (metis hex_DecodeString_lower ToLower_simps(3))

lemma normalizeAddress_iff:
  "normalizeAddress a = Inr b \<longleftrightarrow> is_ok (normalizeAddress (ToLower a)) \<and> b = ToLower a"
  by (auto simp: normalizeAddress_def split: option.splits)

subsection \<open>Loops\<close>

lemma indexerLoop_iff:
  "sorted (map si_IndexerID es) \<Longrightarrow> (\<forall>q. prev = Some q \<longrightarrow> (\<forall>e \<in> set es. q \<le> si_IndexerID e)) \<Longrightarrow>
   indexerLoop prev nodes es = Inr () \<longleftrightarrow>
     (\<forall>q. prev = Some q \<longrightarrow> q \<notin> si_IndexerID ` set es) \<and> distinct (map si_IndexerID es) \<and>
     distinct (map si_SNodeNodeID es) \<and> set nodes \<inter> si_SNodeNodeID ` set es = {}"
proof (induction es arbitrary: prev nodes)
  case (Cons e es)
  then have "indexerLoop (Some (si_IndexerID e)) (si_SNodeNodeID e # nodes) es = Inr () \<longleftrightarrow>
     si_IndexerID e \<notin> si_IndexerID ` set es \<and> distinct (map si_IndexerID es) \<and>
     distinct (map si_SNodeNodeID es) \<and> set (si_SNodeNodeID e # nodes) \<inter> si_SNodeNodeID ` set es = {}"
    by (subst Cons.IH) auto
  moreover have "q \<notin> si_IndexerID ` set es" if "prev = Some q" "q \<noteq> si_IndexerID e" for q
    using Cons.prems that by force
  ultimately show ?case by auto
qed simp

lemma verifierLoop_iff:
  "sorted (map ve_NodeID vs) \<Longrightarrow> (\<forall>q. prev = Some q \<longrightarrow> (\<forall>v \<in> set vs. q \<le> ve_NodeID v)) \<Longrightarrow>
   verifierLoop prev keys signers vs = Inr () \<longleftrightarrow>
     (\<forall>q. prev = Some q \<longrightarrow> q \<notin> ve_NodeID ` set vs) \<and> distinct (map ve_NodeID vs) \<and>
     distinct (map ve_Ed25519Pubkey vs) \<and> set keys \<inter> ve_Ed25519Pubkey ` set vs = {} \<and>
     distinct (map ve_ReplicaSigner (filter IsMember vs)) \<and>
     set signers \<inter> ve_ReplicaSigner ` set (filter IsMember vs) = {}"
proof (induction vs arbitrary: prev keys signers)
  case (Cons v vs)
  let ?signers = "if IsMember v then ve_ReplicaSigner v # signers else signers"
  have "verifierLoop (Some (ve_NodeID v)) (ve_Ed25519Pubkey v # keys) ?signers vs = Inr () \<longleftrightarrow>
     ve_NodeID v \<notin> ve_NodeID ` set vs \<and> distinct (map ve_NodeID vs) \<and>
     distinct (map ve_Ed25519Pubkey vs) \<and> set (ve_Ed25519Pubkey v # keys) \<inter> ve_Ed25519Pubkey ` set vs = {} \<and>
     distinct (map ve_ReplicaSigner (filter IsMember vs)) \<and>
     set ?signers \<inter> ve_ReplicaSigner ` set (filter IsMember vs) = {}"
    using Cons.prems by (subst Cons.IH) auto
  moreover have "q \<notin> ve_NodeID ` set vs" if "prev = Some q" "q \<noteq> ve_NodeID v" for q
    using Cons.prems that by force
  ultimately show ?case by auto
qed simp

subsection \<open>The components\<close>

lemma is_ok_unit: "is_ok r \<longleftrightarrow> r = Inr ()"
  by (cases r) auto

lemma distinct_map_mset: "mset xs = mset ys \<Longrightarrow> distinct (map g xs) \<longleftrightarrow> distinct (map g ys)"
  by (rule mset_eq_imp_distinct_iff) simp

lemma sort_key_distinct:
  assumes "mset xs = mset ys" "distinct (map f xs)"
  shows "sort_key f xs = sort_key f ys"
proof (rule sort_key_inj_key_eq)
  show "mset xs = mset (sort_key f ys)" using assms(1) by simp
  show "inj_on f (set xs)" using assms(2) by (simp add: distinct_map)
qed simp

lemma normalizeIndexer_iff:
  "normalizeIndexer e = Inr e' \<longleftrightarrow> is_ok (SIIndexerEntry_Validate (canonIndexer e)) \<and> e' = canonIndexer e"
  by (auto simp: normalizeIndexer_def canonIndexer_def result_simps is_ok_unit Let_def)

lemma canonIndexer_simps [simp]:
  "si_IndexerID (canonIndexer e) = si_IndexerID e" "si_SNodeNodeID (canonIndexer e) = si_SNodeNodeID e"
  "canonIndexer (canonIndexer e) = canonIndexer e"
  by (simp_all add: canonIndexer_def)

lemma canonIndexer_comp [simp]:
  "si_IndexerID \<circ> canonIndexer = si_IndexerID" "si_SNodeNodeID \<circ> canonIndexer = si_SNodeNodeID"
  by (simp_all add: fun_eq_iff)

lemma distinct_sort_key: "distinct (map g (sort_key f xs)) \<longleftrightarrow> distinct (map g xs)"
  by (rule mset_eq_imp_distinct_iff) simp

lemma normalizeSIIndexers_iff:
  "normalizeSIIndexers es m = Inr out \<longleftrightarrow>
     valid_indexers es m \<and> out = sort_key si_IndexerID (map canonIndexer es)"
proof (cases "es = []")
  case True
  then show ?thesis by (auto simp: normalizeSIIndexers_def valid_indexers_def)
next
  case False
  have loop: "indexerLoop None [] (sort_key si_IndexerID (map canonIndexer es)) = Inr () \<longleftrightarrow>
      distinct (map si_IndexerID es) \<and> distinct (map si_SNodeNodeID es)"
    by (subst indexerLoop_iff) (simp_all add: distinct_sort_key)
  show ?thesis
    using False by (auto simp: normalizeSIIndexers_def each_iff [OF normalizeIndexer_iff] result_simps Let_def
        valid_indexers_def loop not_less)
qed

lemma normalizeStage3_iff:
  "normalizeStage3 inp tracks es = Inr out \<longleftrightarrow>
     pred_option (\<lambda>p. valid_stage3 p tracks (si_IndexerID ` set es)) inp \<and> out = map_option canonStage3 inp"
proof (cases inp)
  case (Some p)
  have fdom: "FailureDomain (canonStage3 p) i = None \<longleftrightarrow> i \<notin> fd_IndexerID ` set (s3_IndexerFailureDomains p)" for i
    by (auto simp: FailureDomain_def find_None_iff canonStage3_def)
  have enrolled: "find (\<lambda>d. fd_IndexerID d \<notin> si_IndexerID ` set es) (s3_IndexerFailureDomains (canonStage3 p)) = None \<longleftrightarrow>
      fd_IndexerID ` set (s3_IndexerFailureDomains p) \<subseteq> si_IndexerID ` set es"
    by (auto simp: find_None_iff canonStage3_def)
  have placed: "find (\<lambda>e. FailureDomain (canonStage3 p) (si_IndexerID e) = None) es = None \<longleftrightarrow>
      si_IndexerID ` set es \<subseteq> fd_IndexerID ` set (s3_IndexerFailureDomains p)"
    by (auto simp: find_None_iff fdom)
  have sw: "s3_Placement (canonStage3 p) = s3_Placement p" by (simp add: canonStage3_def)
  show ?thesis
    using Some by (auto simp: normalizeStage3_def Let_def result_simps valid_stage3_def is_ok_unit sw
        placed [symmetric] enrolled [symmetric] split: option.splits if_splits)
qed (auto simp: normalizeStage3_def)

lemma cloneVerifier_simps [simp]:
  "ve_NodeID (cloneVerifierEntry v) = ve_NodeID v" "ve_Ed25519Pubkey (cloneVerifierEntry v) = ve_Ed25519Pubkey v"
  "cloneVerifierEntry (cloneVerifierEntry v) = cloneVerifierEntry v"
  "IsMember (cloneVerifierEntry v) = IsMember v"
  "VerifierEntry_Validate (cloneVerifierEntry v) = VerifierEntry_Validate v"
  by (simp_all add: cloneVerifierEntry_def IsMember_def VerifierEntry_Validate_def)

lemma normalizeVerifier_iff:
  "normalizeVerifier v = Inr v' \<longleftrightarrow>
     (is_ok (VerifierEntry_Validate v) \<and> is_ok (validateVerifierStage3Fields (cloneVerifierEntry v))) \<and>
     v' = cloneVerifierEntry v"
  by (auto simp: normalizeVerifier_def result_simps is_ok_unit Let_def)

lemma checkMember_iff: "checkMember es s3 v = Inr u \<longleftrightarrow> is_ok (checkMember es s3 v) \<and> u = ()"
  by (cases "checkMember es s3 v") auto

lemma filter_sort_key_mset: "mset (map g (filter P (sort_key f xs))) = mset (map g (filter P xs))"
  by (simp add: mset_filter)

lemma normalizeVerifiers_iff:
  "normalizeVerifiers vs es s3 = Inr out \<longleftrightarrow>
     valid_verifiers vs es s3 \<and> out = sort_key ve_NodeID (map cloneVerifierEntry vs)"
proof (cases "vs = []")
  case True
  then show ?thesis by (auto simp: normalizeVerifiers_def valid_verifiers_def Let_def)
next
  case False
  define out where "out = sort_key ve_NodeID (map cloneVerifierEntry vs)"
  have "distinct (map ve_ReplicaSigner (filter IsMember out)) \<longleftrightarrow>
      distinct (map ve_ReplicaSigner (filter IsMember (map cloneVerifierEntry vs)))"
    unfolding out_def by (rule mset_eq_imp_distinct_iff) (rule filter_sort_key_mset)
  then have loop: "verifierLoop None [] [] out = Inr () \<longleftrightarrow>
      distinct (map ve_NodeID (map cloneVerifierEntry vs)) \<and> distinct (map ve_Ed25519Pubkey (map cloneVerifierEntry vs)) \<and>
      distinct (map ve_ReplicaSigner (filter IsMember (map cloneVerifierEntry vs)))"
    by (subst verifierLoop_iff) (simp_all add: out_def distinct_sort_key del: map_map)
  show ?thesis
    using False unfolding normalizeVerifiers_def
    by (auto simp: each_iff [OF normalizeVerifier_iff] each_iff [OF checkMember_iff] result_simps Let_def
        valid_verifiers_def out_def [symmetric] loop)
qed

lemma normalizeRegistry_iff:
  "normalizeRegistry p = Inr q \<longleftrightarrow> is_ok (TableRegistryParams_Validate (canonRegistry p)) \<and> q = canonRegistry p"
  by (auto simp: normalizeRegistry_def canonRegistry_def result_simps is_ok_unit Let_def)

lemma optionally_iff:
  assumes "\<And>x y. f x = Inr y \<longleftrightarrow> ok x \<and> y = g x"
  shows "optionally f x = Inr y \<longleftrightarrow> pred_option ok x \<and> y = map_option g x"
  by (cases x) (auto simp: optionally_def result_simps assms)

lemma lanes_iff:
  "rbind (rmap_error ErrParam (ClientLaneParams_Validate l)) (\<lambda>_. Inr l) = Inr l' \<longleftrightarrow>
     is_ok (ClientLaneParams_Validate l) \<and> l' = l"
  by (auto simp: result_simps is_ok_unit)

lemma checkMember_cong:
  assumes "si_IndexerID ` set es = si_IndexerID ` set es'" "si_SNodeNodeID ` set es = si_SNodeNodeID ` set es'"
    "map_option FailureDomain s3 = map_option FailureDomain s3'"
  shows "checkMember es s3 v = checkMember es' s3' v"
  using assms by (cases s3; cases s3') (simp_all add: checkMember_def split: option.split)

lemma FailureDomain_distinct:
  assumes "distinct (map fd_IndexerID (s3_IndexerFailureDomains p))"
    "mset (s3_IndexerFailureDomains p) = mset (s3_IndexerFailureDomains q)"
  shows "FailureDomain p i = FailureDomain q i"
proof -
  have "FailureDomain r i = Some x \<longleftrightarrow> (\<exists>d \<in> set (s3_IndexerFailureDomains r). fd_IndexerID d = i \<and> fd_FailureDomain d = x)"
    if "distinct (map fd_IndexerID (s3_IndexerFailureDomains r))" for r x
  proof -
    have "find (\<lambda>d. fd_IndexerID d = i) ds = Some d \<longleftrightarrow> d \<in> set ds \<and> fd_IndexerID d = i"
      if "distinct (map fd_IndexerID ds)" for ds d
      using that by (induction ds) auto
    from this [OF that] show ?thesis by (auto simp: FailureDomain_def)
  qed
  moreover have "distinct (map fd_IndexerID (s3_IndexerFailureDomains q))"
    using assms by (metis mset_eq_imp_distinct_iff mset_map)
  ultimately show ?thesis using assms mset_eq_setD [OF assms(2)] by (metis not_None_eq)
qed

lemma valid_stage3_distinct: "valid_stage3 p t ids \<Longrightarrow> distinct (map fd_IndexerID (s3_IndexerFailureDomains p))"
proof -
  assume "valid_stage3 p t ids"
  then have "domainLoop None (s3_IndexerFailureDomains (canonStage3 p)) = Inr ()"
    by (auto simp: valid_stage3_def is_ok_unit Stage3Params_Validate_def result_simps split: if_splits)
  then show ?thesis by (simp add: domainLoop_iff ascending_iff canonStage3_def distinct_sort_key)
qed

lemma canonStage3_domains: "mset (s3_IndexerFailureDomains (canonStage3 p)) = mset (s3_IndexerFailureDomains p)"
  by (simp add: canonStage3_def)

lemma NormalizeConsensusParamsUpdate_iff:
  "NormalizeConsensusParamsUpdate u = Inr v \<longleftrightarrow> valid_update u \<and> v = canonical u"
proof -
  have members: "valid_verifiers vs (sort_key si_IndexerID (map canonIndexer es)) (map_option canonStage3 s3) \<longleftrightarrow>
      valid_verifiers vs es s3"
    if "pred_option (\<lambda>p. valid_stage3 p t ids) s3" for vs es s3 t ids
  proof -
    have "map_option FailureDomain (map_option canonStage3 s3) = map_option FailureDomain s3"
      using that FailureDomain_distinct [OF _ canonStage3_domains [symmetric]] valid_stage3_distinct
      by (cases s3) (auto simp: fun_eq_iff)
    then have "checkMember (sort_key si_IndexerID (map canonIndexer es)) (map_option canonStage3 s3) v = checkMember es s3 v" for v
      by (intro checkMember_cong) (auto simp: image_image)
    then show ?thesis by (simp add: valid_verifiers_def)
  qed
  have ids: "si_IndexerID ` canonIndexer ` set es = si_IndexerID ` set es" for es by (simp add: image_image)
  have cap: "\<not> 1 < c \<longleftrightarrow> c \<le> 1" for c :: u32 by auto
  show ?thesis
    unfolding NormalizeConsensusParamsUpdate_def valid_update_def
    by (cases u) (auto simp: option.map_ident result_simps each_iff [OF normalizeAddress_iff] optionally_iff [OF normalizeRegistry_iff]
        optionally_iff [OF lanes_iff] normalizeSIIndexers_iff normalizeStage3_iff normalizeVerifiers_iff members ids
        canonical_def sorted_distinct_Compact_sort option.pred_map comp_def cap)
qed

section \<open>Properties\<close>

text \<open>
  What an update says, whatever its encoding: the scalar fields, the set of authority addresses, the
  multisets of indexers, verifiers and failure domains, addresses up to case.
\<close>

definition essence :: "ConsensusParamsUpdate \<Rightarrow>
    ConsensusParamsUpdate \<times> string set \<times> SIIndexerEntry multiset \<times> VerifierEntry multiset \<times> IndexerFailureDomain multiset option"
  where
  "essence u =
     (u\<lparr>up_AuthorityAddresses := [], up_TableRegistry := map_option canonRegistry (up_TableRegistry u),
        up_SIIndexers := [], up_Verifiers := [],
        up_Stage3 := map_option (\<lambda>p. p\<lparr>s3_IndexerFailureDomains := []\<rparr>) (up_Stage3 u)\<rparr>,
      ToLower ` set (up_AuthorityAddresses u), image_mset canonIndexer (mset (up_SIIndexers u)),
      image_mset cloneVerifierEntry (mset (up_Verifiers u)),
      map_option (\<lambda>p. mset (s3_IndexerFailureDomains p)) (up_Stage3 u))"

lemma canonRegistry_idem [simp]: "canonRegistry (canonRegistry p) = canonRegistry p"
  by (simp add: canonRegistry_def)

lemma essence_canonical [simp]: "essence (canonical u) = essence u"
proof -
  have "image_mset canonIndexer (image_mset canonIndexer M) = image_mset canonIndexer M" for M
    by (simp add: multiset.map_comp comp_def)
  moreover have "image_mset cloneVerifierEntry (image_mset cloneVerifierEntry M) = image_mset cloneVerifierEntry M" for M
    by (simp add: multiset.map_comp comp_def)
  moreover have "map_option canonRegistry (map_option canonRegistry r) = map_option canonRegistry r" for r
    by (cases r) simp_all
  moreover have "map_option (\<lambda>p. p\<lparr>s3_IndexerFailureDomains := []\<rparr>) (map_option canonStage3 q) =
      map_option (\<lambda>p. p\<lparr>s3_IndexerFailureDomains := []\<rparr>) q" for q
    by (cases q) (simp_all add: canonStage3_def)
  moreover have "map_option (\<lambda>p. mset (s3_IndexerFailureDomains p)) (map_option canonStage3 q) =
      map_option (\<lambda>p. mset (s3_IndexerFailureDomains p)) q" for q
    by (cases q) (simp_all add: canonStage3_def)
  ultimately show ?thesis by (simp add: essence_def canonical_def image_image del: option.map_comp)
qed

lemma canonStage3_eq:
  assumes "p\<lparr>s3_IndexerFailureDomains := []\<rparr> = q\<lparr>s3_IndexerFailureDomains := []\<rparr>"
    "mset (s3_IndexerFailureDomains p) = mset (s3_IndexerFailureDomains q)"
    "distinct (map fd_IndexerID (s3_IndexerFailureDomains p))"
  shows "canonStage3 p = canonStage3 q"
proof -
  have "sort_key fd_IndexerID (s3_IndexerFailureDomains p) = sort_key fd_IndexerID (s3_IndexerFailureDomains q)"
    by (rule sort_key_distinct [OF assms(2,3)])
  with assms(1) show ?thesis by (cases p; cases q) (simp add: canonStage3_def)
qed

lemma valid_indexers_cong:
  assumes m: "image_mset canonIndexer (mset es) = image_mset canonIndexer (mset es')" and v: "valid_indexers es k"
  shows "valid_indexers es' k"
    "sort_key si_IndexerID (map canonIndexer es') = sort_key si_IndexerID (map canonIndexer es)"
    "si_IndexerID ` set es' = si_IndexerID ` set es" "si_SNodeNodeID ` set es' = si_SNodeNodeID ` set es"
proof -
  have m': "mset (map canonIndexer es) = mset (map canonIndexer es')" using m by simp
  have s: "canonIndexer ` set es = canonIndexer ` set es'" using mset_eq_setD [OF m'] by simp
  have proj: "mset (map f (map canonIndexer es)) = mset (map f (map canonIndexer es'))" for f :: "_ \<Rightarrow> 'b"
    using m' by (metis mset_map)
  from proj [of si_IndexerID] proj [of si_SNodeNodeID]
  have "mset (map si_IndexerID es) = mset (map si_IndexerID es')" "mset (map si_SNodeNodeID es) = mset (map si_SNodeNodeID es')"
    by simp_all
  then have "distinct (map si_IndexerID es')" "distinct (map si_SNodeNodeID es')"
    using v mset_eq_imp_distinct_iff unfolding valid_indexers_def by blast+
  moreover have "\<forall>e \<in> canonIndexer ` set es'. is_ok (SIIndexerEntry_Validate e)"
    using v unfolding s [symmetric] by (auto simp: valid_indexers_def)
  moreover have "length es' \<le> unat k"
    using v mset_eq_length [OF m'] by (simp add: valid_indexers_def)
  ultimately show "valid_indexers es' k" by (auto simp: valid_indexers_def)
  show "sort_key si_IndexerID (map canonIndexer es') = sort_key si_IndexerID (map canonIndexer es)"
    by (rule sort_key_distinct [OF m', symmetric]) (use v in \<open>simp add: valid_indexers_def\<close>)
  have "f ` canonIndexer ` set es = f ` canonIndexer ` set es'" for f :: "_ \<Rightarrow> 'c" by (simp only: s)
  from this [of si_IndexerID] show "si_IndexerID ` set es' = si_IndexerID ` set es" by (simp add: image_image)
  have "f ` canonIndexer ` set es = f ` canonIndexer ` set es'" for f :: "_ \<Rightarrow> 'c" by (simp only: s)
  from this [of si_SNodeNodeID] show "si_SNodeNodeID ` set es' = si_SNodeNodeID ` set es" by (simp add: image_image)
qed

lemma valid_verifiers_cong:
  assumes m: "image_mset cloneVerifierEntry (mset vs) = image_mset cloneVerifierEntry (mset vs')"
    and v: "valid_verifiers vs es s3" and c: "\<And>x. checkMember es s3 x = checkMember es' s3' x"
  shows "valid_verifiers vs' es' s3'"
    "sort_key ve_NodeID (map cloneVerifierEntry vs') = sort_key ve_NodeID (map cloneVerifierEntry vs)"
proof -
  let ?cs = "map cloneVerifierEntry vs" and ?cs' = "map cloneVerifierEntry vs'"
  have m': "mset ?cs = mset ?cs'" using m by simp
  have f: "mset (filter IsMember ?cs) = mset (filter IsMember ?cs')" using m' by (metis mset_filter)
  have "set ?cs' = set ?cs" using mset_eq_setD [OF m'] by (rule sym)
  then show "valid_verifiers vs' es' s3'"
    using v distinct_map_mset [OF m', of ve_NodeID] distinct_map_mset [OF m', of ve_Ed25519Pubkey]
      distinct_map_mset [OF f, of ve_ReplicaSigner]
    unfolding valid_verifiers_def Let_def c [symmetric] by metis
  show "sort_key ve_NodeID ?cs' = sort_key ve_NodeID ?cs"
    by (rule sort_key_distinct [OF m', symmetric]) (use v in \<open>simp add: valid_verifiers_def Let_def\<close>)
qed

lemma valid_stage3_cong:
  assumes "map_option (\<lambda>p. p\<lparr>s3_IndexerFailureDomains := []\<rparr>) s3 = map_option (\<lambda>p. p\<lparr>s3_IndexerFailureDomains := []\<rparr>) s3'"
    "map_option (\<lambda>p. mset (s3_IndexerFailureDomains p)) s3 = map_option (\<lambda>p. mset (s3_IndexerFailureDomains p)) s3'"
    "pred_option (\<lambda>p. valid_stage3 p t ids) s3"
  shows "pred_option (\<lambda>p. valid_stage3 p t ids) s3'" "map_option canonStage3 s3' = map_option canonStage3 s3"
    "map_option FailureDomain s3' = map_option FailureDomain s3"
proof -
  have *: "valid_stage3 q t ids \<and> canonStage3 q = canonStage3 p \<and> FailureDomain q = FailureDomain p"
    if p: "s3 = Some p" and q: "s3' = Some q" for p q
  proof -
    have same: "p\<lparr>s3_IndexerFailureDomains := []\<rparr> = q\<lparr>s3_IndexerFailureDomains := []\<rparr>"
      "mset (s3_IndexerFailureDomains p) = mset (s3_IndexerFailureDomains q)" and v: "valid_stage3 p t ids"
      using assms p q by simp_all
    note d = valid_stage3_distinct [OF v]
    have "s3_Placement p = s3_Placement q" using arg_cong [OF same(1), of s3_Placement] by simp
    moreover note canonStage3_eq [OF same d] mset_eq_setD [OF same(2)]
    ultimately have "valid_stage3 q t ids" using v by (simp add: valid_stage3_def)
    with canonStage3_eq [OF same d] FailureDomain_distinct [OF d same(2)] show ?thesis by (simp add: fun_eq_iff)
  qed
  show "pred_option (\<lambda>p. valid_stage3 p t ids) s3'" "map_option canonStage3 s3' = map_option canonStage3 s3"
    "map_option FailureDomain s3' = map_option FailureDomain s3"
  proof -
    consider "s3 = None" "s3' = None" | p q where "s3 = Some p" "s3' = Some q"
      using assms(1) by (cases s3; cases s3'; simp)
    then have "pred_option (\<lambda>p. valid_stage3 p t ids) s3' \<and> map_option canonStage3 s3' = map_option canonStage3 s3 \<and>
        map_option FailureDomain s3' = map_option FailureDomain s3"
    proof cases
      case 2
      from * [OF this] show ?thesis unfolding 2 by simp
    qed simp
    then show "pred_option (\<lambda>p. valid_stage3 p t ids) s3'" "map_option canonStage3 s3' = map_option canonStage3 s3"
      "map_option FailureDomain s3' = map_option FailureDomain s3" by blast+
  qed
qed

lemma essence_valid:
  assumes e: "essence u = essence u'" and v: "valid_update u"
  shows "valid_update u' \<and> canonical u' = canonical u"
proof -
  have scalars: "up_NetworkID u = up_NetworkID u'" "up_GenesisSnapshotID u = up_GenesisSnapshotID u'"
    "up_ExpectedEpoch u = up_ExpectedEpoch u'" "up_PreviousParamsDigest u = up_PreviousParamsDigest u'"
    "up_MaxWriters u = up_MaxWriters u'" "up_ExpectedPromotionSeq u = up_ExpectedPromotionSeq u'"
    "up_ArtifactDispositionCapability u = up_ArtifactDispositionCapability u'"
    "map_option canonRegistry (up_TableRegistry u) = map_option canonRegistry (up_TableRegistry u')"
    "up_ClientLanes u = up_ClientLanes u'" "up_TracksEnabled u = up_TracksEnabled u'"
    and stage: "map_option (\<lambda>p. p\<lparr>s3_IndexerFailureDomains := []\<rparr>) (up_Stage3 u) =
      map_option (\<lambda>p. p\<lparr>s3_IndexerFailureDomains := []\<rparr>) (up_Stage3 u')"
    "map_option (\<lambda>p. mset (s3_IndexerFailureDomains p)) (up_Stage3 u) =
      map_option (\<lambda>p. mset (s3_IndexerFailureDomains p)) (up_Stage3 u')"
    and lists: "ToLower ` set (up_AuthorityAddresses u) = ToLower ` set (up_AuthorityAddresses u')"
      "image_mset canonIndexer (mset (up_SIIndexers u)) = image_mset canonIndexer (mset (up_SIIndexers u'))"
      "image_mset cloneVerifierEntry (mset (up_Verifiers u)) = image_mset cloneVerifierEntry (mset (up_Verifiers u'))"
    using e by (cases u; cases u'; simp add: essence_def)+
  have parts: "valid_indexers (up_SIIndexers u) (up_MaxWriters u)"
    "pred_option (\<lambda>p. valid_stage3 p (up_TracksEnabled u) (si_IndexerID ` set (up_SIIndexers u))) (up_Stage3 u)"
    "valid_verifiers (up_Verifiers u) (up_SIIndexers u) (up_Stage3 u)"
    using v by (simp_all add: valid_update_def)
  note i = valid_indexers_cong [OF lists(2) parts(1)]
  note s = valid_stage3_cong [OF stage parts(2)]
  note w = valid_verifiers_cong [OF lists(3) parts(3) checkMember_cong, OF i(3) [symmetric] i(4) [symmetric] s(3) [symmetric]]
  have "valid_update u'"
    using v i(1) s(1) w(1) unfolding valid_update_def scalars lists(1) i(3) [symmetric] by blast
  moreover have "canonical u' = canonical u"
    using scalars lists(1) i(2) s(2) w(2) by (cases u; cases u') (simp add: canonical_def)
  ultimately show ?thesis ..
qed

text \<open>
  C36. The normal form that voters hash and sign. A normalized update is its own normal form, and two
  updates have the same normal form exactly when they say the same: the same scalar fields, the same set
  of authority addresses, the same indexers, verifiers and failure domains in any order, with addresses
  compared without case.
\<close>

theorem normal_form_canonical:
  assumes "NormalizeConsensusParamsUpdate u = Inr v"
  shows "NormalizeConsensusParamsUpdate v = Inr v \<and>
    (\<forall>u'. NormalizeConsensusParamsUpdate u' = Inr v \<longleftrightarrow> essence u' = essence u)"
proof -
  from assms have u: "valid_update u" "v = canonical u" by (simp_all add: NormalizeConsensusParamsUpdate_iff)
  have "NormalizeConsensusParamsUpdate u' = Inr v \<longleftrightarrow> essence u' = essence u" for u'
    using u essence_valid [of u u'] essence_canonical
    by (metis NormalizeConsensusParamsUpdate_iff)
  then show ?thesis using u(2) by simp
qed

definition demo_update :: "string list \<Rightarrow> ConsensusParamsUpdate" where
  "demo_update addresses =
     \<lparr>up_NetworkID = ''n'', up_GenesisSnapshotID = ''g'', up_ExpectedEpoch = 1, up_PreviousParamsDigest = ''d'',
      up_AuthorityAddresses = addresses, up_MaxWriters = 1, up_ExpectedPromotionSeq = 0,
      up_ArtifactDispositionCapability = 0, up_TableRegistry = None, up_ClientLanes = None, up_SIIndexers = [],
      up_Verifiers = [], up_TracksEnabled = False, up_Stage3 = None\<rparr>"

definition demo_address :: "char \<Rightarrow> string" where
  "demo_address c = ''0x'' @ replicate 40 c"

theorem normal_form_canonical_witness:
  "NormalizeConsensusParamsUpdate (demo_update [demo_address (CHR ''B''), demo_address (CHR ''a''), demo_address (CHR ''b'')]) =
     Inr (demo_update [demo_address (CHR ''a''), demo_address (CHR ''b'')]) \<and>
   NormalizeConsensusParamsUpdate (demo_update [demo_address (CHR ''a''), demo_address (CHR ''b'')]) =
     Inr (demo_update [demo_address (CHR ''a''), demo_address (CHR ''b'')])"
proof -
  let ?u = "demo_update [demo_address (CHR ''B''), demo_address (CHR ''a''), demo_address (CHR ''b'')]"
  have decode: "hex_DecodeString (replicate (2 * n) c) = Some (replicate n (char_of (17 * x)))" if "hexval c = Some x" for n c x
    by (induction n) (simp_all add: that)
  have address: "normalizeAddress (demo_address c) = Inr (demo_address (lower_char c))" if "c \<in> set ''abB''" for c
  proof -
    have "char_of (170 :: nat) \<noteq> NUL" "char_of (187 :: nat) \<noteq> NUL" by code_simp+
    with that have "\<exists>x. hexval c = Some x \<and> char_of (17 * x) \<noteq> NUL" by (auto simp: hexval_def)
    with decode [of c _ 20] show ?thesis
      by (auto simp: normalizeAddress_def demo_address_def ToLower_def lower_char_def list_ex_iff)
  qed
  have order: "demo_address x \<le> demo_address y \<longleftrightarrow> x \<le> y" "demo_address x = demo_address y \<longleftrightarrow> x = y" for x y
  proof -
    have "replicate (Suc n) x \<le> replicate (Suc n) y \<longleftrightarrow> x \<le> y" for n
      by (induction n) (auto simp: less_le)
    from this [of 39] show "demo_address x \<le> demo_address y \<longleftrightarrow> x \<le> y" by (simp add: demo_address_def)
  qed (simp add: demo_address_def)
  have blanks: "\<not> blank ''n''" "\<not> blank ''g''" "\<not> blank ''d''"
    by (simp_all add: blank_def runes.simps IsSpace_def in_range_def)
  have lower: "lower_char (CHR ''B'') = CHR ''b''" "lower_char (CHR ''b'') = CHR ''b''" "lower_char (CHR ''a'') = CHR ''a''"
    by code_simp+
  have run: "NormalizeConsensusParamsUpdate ?u = Inr (demo_update [demo_address (CHR ''a''), demo_address (CHR ''b'')])"
    by (simp add: NormalizeConsensusParamsUpdate_def demo_update_def blanks address order lower
        optionally_def normalizeSIIndexers_def normalizeStage3_def normalizeVerifiers_def)
  from normal_form_canonical [OF run] run show ?thesis by blast
qed

end
