(* ===== verification/Spec2Isabelle.thy ===== *)
theory Spec2Isabelle
  imports Gate Cleanup_Demo Intake_Demo Serve_Safety Governance
begin

text \<open>
  Verification of arbiter-core: the storage-integrity roles of a Sentio deployment (the source
  storage node \<open>snode\<close>, the replication member \<open>member\<close>, the verifier) and the protocol types they
  share.
\<close>

end
